(* ===== verification/Prelude.thy ===== *)
theory Prelude
  imports Main "HOL-Library.AList"
begin

text \<open>
  What every component shares: Python exceptions as a datatype with the part of the class
  hierarchy the \<^verbatim>\<open>except\<close> clauses of the sources look at, commands over an explicit state
  that may raise, and the library lemmas and fact collections the component proofs use.
\<close>

section \<open>Exceptions\<close>

text \<open>
  One constructor per exception class the sources raise or catch; the string is the message
  (\<^verbatim>\<open>str(exc)\<close>) where a source reads it. \<^verbatim>\<open>FileNotFoundError\<close> is an \<^verbatim>\<open>OSError\<close>,
  \<^verbatim>\<open>UnicodeError\<close> and pydantic's \<^verbatim>\<open>ValidationError\<close> are \<^verbatim>\<open>ValueError\<close>s, and the two backup
  errors share the base class \<^verbatim>\<open>BackupError\<close>.
\<close>

datatype exn =
    ValueError string
  | UnicodeError
  | ValidationError
  | OverflowError
  | OSError string
  | FileNotFoundError
  | RuntimeError string
  | SecurityBlockError string
  | BackupStateError string
  | BackupValidationError string
  | YAMLError
  | RequestError string
  | SqliteError
  | IntegrityError
  | OtherError string

type_synonym 'a result = "exn + 'a"

fun is_value_error :: "exn \<Rightarrow> bool" where
  "is_value_error (ValueError m) = True"
| "is_value_error UnicodeError = True"
| "is_value_error ValidationError = True"
| "is_value_error e = False"

fun is_os_error :: "exn \<Rightarrow> bool" where
  "is_os_error (OSError m) = True"
| "is_os_error FileNotFoundError = True"
| "is_os_error e = False"

fun is_backup_error :: "exn \<Rightarrow> bool" where
  "is_backup_error (BackupStateError m) = True"
| "is_backup_error (BackupValidationError m) = True"
| "is_backup_error e = False"

section \<open>Commands: a state, a value or an exception\<close>

text \<open>
  A command keeps the state it has reached when it raises, as Python does; what undoes a
  change (a transaction's rollback, a clean-up in an \<^verbatim>\<open>except\<close> clause) is written out by the
  component that does it.
\<close>

type_synonym ('s, 'a) cmd = "'s \<Rightarrow> (exn + 'a) \<times> 's"

definition ret :: "'a \<Rightarrow> ('s, 'a) cmd" where
  "ret x s = (Inr x, s)"

definition raise :: "exn \<Rightarrow> ('s, 'a) cmd" where
  "raise e s = (Inl e, s)"

definition bind_cmd :: "('s, 'a) cmd \<Rightarrow> ('a \<Rightarrow> ('s, 'b) cmd) \<Rightarrow> ('s, 'b) cmd" where
  "bind_cmd m k s = (case m s of (Inl e, t) \<Rightarrow> (Inl e, t) | (Inr x, t) \<Rightarrow> k x t)"

definition of_result :: "'a result \<Rightarrow> ('s, 'a) cmd" where
  "of_result r s = (r, s)"

text \<open>The named collection of the evaluation rules of commands.\<close>

named_theorems cmd_simps

lemma ret_apply [simp, cmd_simps]: "ret x s = (Inr x, s)"
  by (simp add: ret_def)

lemma raise_apply [simp, cmd_simps]: "raise e s = (Inl e, s)"
  by (simp add: raise_def)

lemma of_result_apply [simp, cmd_simps]: "of_result r s = (r, s)"
  by (simp add: of_result_def)

lemma bind_cmd_Inr [cmd_simps]: "m s = (Inr x, t) \<Longrightarrow> bind_cmd m k s = k x t"
  by (simp add: bind_cmd_def)

lemma bind_cmd_Inl [cmd_simps]: "m s = (Inl e, t) \<Longrightarrow> bind_cmd m k s = (Inl e, t)"
  by (simp add: bind_cmd_def)

lemma bind_cmd_InrE:
  assumes "bind_cmd m k s = (Inr y, u)"
  obtains x t where "m s = (Inr x, t)" and "k x t = (Inr y, u)"
  using assms by (auto simp: bind_cmd_def split: prod.splits sum.splits)

section \<open>Results\<close>

definition bind_result :: "'a result \<Rightarrow> ('a \<Rightarrow> 'b result) \<Rightarrow> 'b result" where
  "bind_result r k = (case r of Inl e \<Rightarrow> Inl e | Inr x \<Rightarrow> k x)"

lemma bind_result_simps [simp]: "bind_result (Inl e) k = Inl e" "bind_result (Inr x) k = k x"
  by (simp_all add: bind_result_def)

lemma bind_result_InrE:
  assumes "bind_result r k = Inr y"
  obtains x where "r = Inr x" and "k x = Inr y"
  using assms by (cases r) auto

lemma bind_result_InlE:
  assumes "bind_result r k = Inl e"
  obtains "r = Inl e" | x where "r = Inr x" and "k x = Inl e"
  using assms by (cases r) auto

section \<open>Association lists with a primary key\<close>

lemma map_of_snoc [simp]:
  "map_of (xs @ [(k, v)]) = (\<lambda>x. case map_of xs x of None \<Rightarrow> if x = k then Some v else None | Some y \<Rightarrow> Some y)"
  by (rule ext) (simp add: map_add_def split: option.splits)

lemma map_of_map_values:
  "map_of (map (\<lambda>(k, v). (k, f k v)) xs) x = map_option (f x) (map_of xs x)"
  by (induction xs) auto

lemma in_set_map_of: "distinct (map fst xs) \<Longrightarrow> (k, v) \<in> set xs \<longleftrightarrow> map_of xs k = Some v"
  by (auto intro: map_of_SomeD)

end
