(* ===== verification/PyText.thy ===== *)
theory PyText
  imports Prelude "HOL-Library.Char_ord"
begin

text \<open>
  Python's text operations as far as the sources use them: \<^verbatim>\<open>str(n)\<close>, \<^verbatim>\<open>int(s)\<close> and
  \<^verbatim>\<open>int(s, 16)\<close> with the grammar CPython accepts (white space, a sign, single underscores
  between digits, a \<^verbatim>\<open>0x\<close> prefix in base 16, the 4300-digit limit in base 10), \<^verbatim>\<open>strip\<close>,
  \<^verbatim>\<open>lower\<close>, \<^verbatim>\<open>startswith\<close>, and \<^verbatim>\<open>json.dumps\<close> of strings, lists and objects.
  Strings are lists of characters below 256; text beyond that is not modelled here.
\<close>

section \<open>Characters\<close>

abbreviation code :: "char \<Rightarrow> nat" where
  "code c \<equiv> of_char c"

definition is_space :: "char \<Rightarrow> bool" where
  "is_space c = (let n = code c in 9 \<le> n \<and> n \<le> 13 \<or> 28 \<le> n \<and> n \<le> 32 \<or> n = 133 \<or> n = 160)"

text \<open>
  \<^verbatim>\<open>int()\<close> skips only the C library's white space around an ASCII literal, and all white space
  around a text with any other character.
\<close>

definition is_c_space :: "char \<Rightarrow> bool" where
  "is_c_space c = (let n = code c in 9 \<le> n \<and> n \<le> 13 \<or> n = 32)"

definition int_space :: "string \<Rightarrow> char \<Rightarrow> bool" where
  "int_space s = (if list_all (\<lambda>c. code c < 128) s then is_c_space else is_space)"

definition lower_char :: "char \<Rightarrow> char" where
  "lower_char c =
     (let n = code c
      in if 65 \<le> n \<and> n \<le> 90 \<or> 192 \<le> n \<and> n \<le> 222 \<and> n \<noteq> 215 then char_of (n + 32) else c)"

definition lower :: "string \<Rightarrow> string" where
  "lower = map lower_char"

definition strip_by :: "(char \<Rightarrow> bool) \<Rightarrow> string \<Rightarrow> string" where
  "strip_by P s = rev (dropWhile P (rev (dropWhile P s)))"

definition strip :: "string \<Rightarrow> string" where
  "strip = strip_by is_space"

definition startswith :: "string \<Rightarrow> string \<Rightarrow> bool" where
  "startswith s p = (take (length p) s = p)"

section \<open>Integers as text\<close>

definition digit_char :: "nat \<Rightarrow> char" where
  "digit_char d = char_of (if d < 10 then 48 + d else 87 + d)"

definition digit_value :: "nat \<Rightarrow> char \<Rightarrow> nat option" where
  "digit_value b c =
     (let n = code c;
          d = (if 48 \<le> n \<and> n \<le> 57 then n - 48
               else if 97 \<le> n \<and> n \<le> 122 then n - 87
               else if 65 \<le> n \<and> n \<le> 90 then n - 55
               else 99)
      in if d < b then Some d else None)"

fun show_nat :: "nat \<Rightarrow> string" where
  "show_nat n = (if n < 10 then [digit_char n] else show_nat (n div 10) @ [digit_char (n mod 10)])"

declare show_nat.simps [simp del]

definition max_str_digits :: nat where
  "max_str_digits = 4300"

text \<open>\<^verbatim>\<open>str(n)\<close>: a number of more than 4300 digits raises.\<close>

definition py_str :: "int \<Rightarrow> string result" where
  "py_str n =
     (let s = show_nat (nat \<bar>n\<bar>)
      in if max_str_digits < length s then Inl (ValueError ''Exceeds the limit'')
         else Inr (if n < 0 then CHR ''-'' # s else s))"

text \<open>
  \<open>scan_digits b acc ok k s\<close> reads the digits of base \<open>b\<close>; \<open>ok\<close> says that the last character
  was a digit, so that an underscore may follow or the text may end; \<open>k\<close> counts digits.
\<close>

fun scan_digits :: "nat \<Rightarrow> int \<Rightarrow> bool \<Rightarrow> nat \<Rightarrow> string \<Rightarrow> (int \<times> nat) option" where
  "scan_digits b acc ok k [] = (if ok then Some (acc, k) else None)"
| "scan_digits b acc ok k (c # cs) =
     (if c = CHR ''_'' then (if ok then scan_digits b acc False k cs else None)
      else case digit_value b c of
             None \<Rightarrow> None
           | Some d \<Rightarrow> scan_digits b (acc * int b + int d) True (Suc k) cs)"

fun split_sign :: "string \<Rightarrow> bool \<times> string" where
  "split_sign [] = (False, [])"
| "split_sign (c # cs) =
     (if c = CHR ''-'' then (True, cs) else if c = CHR ''+'' then (False, cs) else (False, c # cs))"

fun drop_hex_prefix :: "string \<Rightarrow> string" where
  "drop_hex_prefix (a # x # cs) =
     (if a = CHR ''0'' \<and> (x = CHR ''x'' \<or> x = CHR ''X'')
      then (case cs of c # ds \<Rightarrow> if c = CHR ''_'' then ds else cs | [] \<Rightarrow> [])
      else a # x # cs)"
| "drop_hex_prefix cs = cs"

text \<open>\<open>py_int b s\<close> is \<^verbatim>\<open>int(s, b)\<close> for the two bases the sources use, 10 and 16.\<close>

definition py_int :: "nat \<Rightarrow> string \<Rightarrow> int result" where
  "py_int b s =
     (let (neg, ds) = split_sign (strip_by (int_space s) s)
      in case scan_digits b 0 False 0 (if b = 16 then drop_hex_prefix ds else ds) of
           None \<Rightarrow> Inl (ValueError ''invalid literal for int()'')
         | Some (v, k) \<Rightarrow>
             if b = 10 \<and> max_str_digits < k then Inl (ValueError ''Exceeds the limit'')
             else Inr (if neg then - v else v))"

lemma py_int_examples:
  "py_str (-120) = Inr ''-120''"
  "py_int 10 '' -1_20 '' = Inr (-120)"
  "py_int 16 ''0xFf'' = Inr 255"
  "py_int 16 ''0x_f'' = Inr 15"
  "py_int 10 ''1__2'' = Inl (ValueError ''invalid literal for int()'')"
  "strip '' a b'' = ''a b''"
  by code_simp+

lemma py_str_beyond_64_bits: "py_str (2 ^ 70) = Inr ''1180591620717411303424''"
  by (simp add: py_str_def max_str_digits_def show_nat.simps digit_char_def) code_simp

subsection \<open>Reading a number back\<close>

lemma code_char_of: "n < 256 \<Longrightarrow> code (char_of n) = n"
  by (simp add: of_char_of)

lemma code_digit_char: "d < 10 \<Longrightarrow> code (digit_char d) = 48 + d"
  by (simp add: digit_char_def code_char_of)

lemma digit_value_digit_char: "d < 10 \<Longrightarrow> digit_value 10 (digit_char d) = Some d"
  by (simp add: digit_value_def code_digit_char Let_def)

lemma digit_char_neq: "d < 10 \<Longrightarrow> code c < 48 \<or> 57 < code c \<Longrightarrow> digit_char d \<noteq> c"
  using code_digit_char [of d] by auto

lemma scan_digits_show_nat:
  "scan_digits 10 acc ok k (show_nat n @ cs)
   = scan_digits 10 (acc * 10 ^ length (show_nat n) + int n) True (k + length (show_nat n)) cs"
proof (induction n arbitrary: cs rule: show_nat.induct)
  case (1 n)
  have ne: "d < 10 \<Longrightarrow> digit_char d \<noteq> CHR ''_''" for d
    by (rule digit_char_neq) simp_all
  show ?case
  proof (cases "n < 10")
    case True
    then show ?thesis
      by (simp add: show_nat.simps [of n] digit_value_digit_char ne)
  next
    case False
    let ?q = "show_nat (n div 10)"
    have "scan_digits 10 acc ok k (show_nat n @ cs)
        = scan_digits 10 (acc * 10 ^ length ?q + int (n div 10)) True (k + length ?q)
            (digit_char (n mod 10) # cs)"
      using False "1.IH" [of "digit_char (n mod 10) # cs"] by (simp add: show_nat.simps [of n])
    also have "\<dots> = scan_digits 10 ((acc * 10 ^ length ?q + int (n div 10)) * 10 + int (n mod 10)) True
                      (Suc (k + length ?q)) cs"
      by (simp add: digit_value_digit_char ne)
    also have "(acc * 10 ^ length ?q + int (n div 10)) * 10 + int (n mod 10)
             = acc * 10 ^ length (show_nat n) + int n"
      using False div_mult_mod_eq [of "int n" 10]
      by (simp add: show_nat.simps [of n] algebra_simps zdiv_int zmod_int)
    finally show ?thesis
      using False by (simp add: show_nat.simps [of n])
  qed
qed

lemma show_nat_digits: "c \<in> set (show_nat n) \<Longrightarrow> 48 \<le> code c \<and> code c \<le> 57"
proof (induction n rule: show_nat.induct)
  case (1 n)
  show ?case
  proof (cases "n < 10")
    case True
    with "1.prems" show ?thesis by (simp add: show_nat.simps [of n] code_digit_char)
  next
    case False
    with 1 have "c \<in> set (show_nat (n div 10)) \<or> c = digit_char (n mod 10)"
      by (auto simp: show_nat.simps [of n])
    with False "1.IH" show ?thesis by (auto simp: code_digit_char)
  qed
qed

lemma show_nat_not_Nil [simp]: "show_nat n \<noteq> []"
  by (subst show_nat.simps) simp

lemma strip_by_id:
  assumes "\<And>c. c \<in> set s \<Longrightarrow> \<not> P c"
  shows "strip_by P s = s"
proof -
  have "dropWhile P t = t" if "\<And>c. c \<in> set t \<Longrightarrow> \<not> P c" for t
    using that by (cases t) auto
  from this [of s] this [of "rev s"] assms show ?thesis by (simp add: strip_by_def)
qed

lemma scan_show_nat:
  "scan_digits 10 0 False 0 (show_nat n) = Some (int n, length (show_nat n))"
  using scan_digits_show_nat [of 0 False 0 n "[]"] by simp

text \<open>\<^verbatim>\<open>int(str(n)) == n\<close>, whenever \<^verbatim>\<open>str(n)\<close> does not raise.\<close>

lemma py_int_py_str:
  assumes "py_str n = Inr s"
  shows "py_int 10 s = Inr n"
proof -
  let ?d = "show_nat (nat \<bar>n\<bar>)"
  from assms have len: "length ?d \<le> max_str_digits"
    and s: "s = (if n < 0 then CHR ''-'' # ?d else ?d)"
    by (auto simp: py_str_def Let_def split: if_splits)
  have sp: "\<not> int_space s c" if "c \<in> set s" for c
    using that show_nat_digits [of c "nat \<bar>n\<bar>"]
    by (auto simp: s int_space_def is_c_space_def is_space_def Let_def split: if_splits)
  have nosign: "split_sign ?d = (False, ?d)"
  proof (cases ?d)
    case (Cons c cs)
    then have "48 \<le> code c" using show_nat_digits [of c "nat \<bar>n\<bar>"] by simp
    then have "c \<noteq> CHR ''-'' \<and> c \<noteq> CHR ''+''" by auto
    with Cons show ?thesis by simp
  qed simp
  have "split_sign s = (n < 0, ?d)"
    using nosign by (auto simp: s)
  then show ?thesis
    using len sp by (auto simp: py_int_def strip_by_id scan_show_nat)
qed

lemma py_str_inject: "py_str m = Inr s \<Longrightarrow> py_str n = Inr s \<Longrightarrow> m = n"
  using py_int_py_str by (metis sum.inject(2))

section \<open>JSON\<close>

text \<open>
  \<^verbatim>\<open>json.dumps\<close> with its defaults (\<^verbatim>\<open>ensure_ascii\<close>, separators \<^verbatim>\<open>", "\<close> and \<^verbatim>\<open>": "\<close>), for
  the values the sources store: strings, lists of strings, and flat objects.
\<close>

definition hex4 :: "nat \<Rightarrow> string" where
  "hex4 n = map digit_char [n div 4096 mod 16, n div 256 mod 16, n div 16 mod 16, n mod 16]"

definition json_char :: "char \<Rightarrow> string" where
  "json_char c =
     (let n = code c
      in if n = 34 then [CHR 0x5C, CHR 0x22]
         else if n = 92 then [CHR 0x5C, CHR 0x5C]
         else if n = 10 then [CHR 0x5C, CHR ''n'']
         else if n = 13 then [CHR 0x5C, CHR ''r'']
         else if n = 9 then [CHR 0x5C, CHR ''t'']
         else if n = 12 then [CHR 0x5C, CHR ''f'']
         else if n = 8 then [CHR 0x5C, CHR ''b'']
         else if 32 \<le> n \<and> n \<le> 126 then [c]
         else CHR 0x5C # CHR ''u'' # hex4 n)"

definition json_string :: "string \<Rightarrow> string" where
  "json_string s = CHR 0x22 # concat (map json_char s) @ [CHR 0x22]"

fun join :: "string \<Rightarrow> string list \<Rightarrow> string" where
  "join sep [] = []"
| "join sep [x] = x"
| "join sep (x # xs) = x @ sep @ join sep xs"

definition json_string_list :: "string list \<Rightarrow> string" where
  "json_string_list xs = ''['' @ join '', '' (map json_string xs) @ '']''"

definition json_object :: "(string \<times> string) list \<Rightarrow> string" where
  "json_object kvs =
     ''{'' @ join '', '' (map (\<lambda>(k, v). json_string k @ '': '' @ json_string v) kvs) @ ''}''"

end
