(* ===== verification/StoreDb.thy ===== *)
theory StoreDb
  imports PyText
begin

text \<open>
  The SQLite database of the Sentinel's durable core (\<^verbatim>\<open>SCHEMA\<close> of \<^verbatim>\<open>sentinel/store.py\<close>): its
  tables as lists of rows in insertion order, its constraints as the failures of the
  statements that write them, and the connection and transaction wrappers around the
  statements. Every statement can fail: a connection carries a plan that says which of the
  statements to come meet a storage error.
\<close>

section \<open>Tables\<close>

text \<open>
  The \<^verbatim>\<open>CHECK\<close> on \<^verbatim>\<open>intents.status\<close> allows exactly these seven texts, so the column is an
  enumeration; \<open>status_text\<close> is what is stored.
\<close>

datatype status =
  Reserved | Prepared | Broadcast | Success | Reverted | AlreadyDesired | Indeterminate

fun status_text :: "status \<Rightarrow> string" where
  "status_text Reserved = ''reserved''"
| "status_text Prepared = ''prepared''"
| "status_text Broadcast = ''broadcast''"
| "status_text Success = ''success''"
| "status_text Reverted = ''reverted''"
| "status_text AlreadyDesired = ''already_desired''"
| "status_text Indeterminate = ''indeterminate''"

record cursor_row =
  cu_sequence :: string
  cu_block :: int

record event_row =
  ev_source :: string
  ev_sequence :: string
  ev_block :: int
  ev_payload :: string

record incident_row =
  ic_created :: string
  ic_source_ids :: string

record intent_row =
  in_incident :: string
  in_status :: status
  in_created :: string
  in_nonce :: "int option"
  in_tx :: "string option"
  in_fee :: "string option"
  in_evidence :: "string option"

record outbox_row =
  ob_id :: int
  ob_intent :: string
  ob_payload :: string
  ob_status :: string
  ob_attempts :: int
  ob_next :: "string option"
  ob_error :: "string option"

record audit_row =
  au_id :: int
  au_at :: string
  au_intent :: string
  au_transition :: string
  au_detail :: string

text \<open>
  A table with a text primary key is a list of key and row; \<open>latch\<close> holds at most the one row
  its \<^verbatim>\<open>CHECK(singleton=1)\<close> allows.
\<close>

record db =
  cursors :: "(string \<times> cursor_row) list"
  events :: "(string \<times> event_row) list"
  incidents :: "(string \<times> incident_row) list"
  intents :: "(string \<times> intent_row) list"
  intent_events :: "(string \<times> string) list"
  latch :: "string option"
  outbox :: "outbox_row list"
  audit :: "audit_row list"
  user_version :: int

definition empty_db :: db where
  "empty_db = \<lparr>cursors = [], events = [], incidents = [], intents = [], intent_events = [],
     latch = None, outbox = [], audit = [], user_version = 0\<rparr>"

definition has_key :: "'k \<Rightarrow> ('k \<times> 'v) list \<Rightarrow> bool" where
  "has_key k t = (map_of t k \<noteq> None)"

text \<open>A new row of a table with an integer primary key gets the largest id plus one.\<close>

definition new_rowid :: "int list \<Rightarrow> int" where
  "new_rowid ids = foldr max ids 0 + 1"

text \<open>An \<^verbatim>\<open>INTEGER\<close> column holds 64 bits; binding a larger Python integer raises.\<close>

definition sql_int :: "int \<Rightarrow> int result" where
  "sql_int n = (if - (2 ^ 63) \<le> n \<and> n < 2 ^ 63 then Inr n else Inl OverflowError)"

section \<open>Statements\<close>

text \<open>A statement that violates a constraint raises and leaves the tables as they were.\<close>

type_synonym 'a statement = "db \<Rightarrow> exn + ('a \<times> db)"

definition insert_event :: "string \<Rightarrow> event_row \<Rightarrow> unit statement" where
  "insert_event k r d =
     (if has_key k (events d) then Inl IntegrityError
      else Inr ((), d\<lparr>events := events d @ [(k, r)]\<rparr>))"

definition upsert_cursor :: "string \<Rightarrow> cursor_row \<Rightarrow> unit statement" where
  "upsert_cursor k r d = Inr ((), d\<lparr>cursors := AList.update k r (cursors d)\<rparr>)"

definition insert_incident :: "string \<Rightarrow> incident_row \<Rightarrow> unit statement" where
  "insert_incident k r d =
     (if has_key k (incidents d) then Inl IntegrityError
      else Inr ((), d\<lparr>incidents := incidents d @ [(k, r)]\<rparr>))"

definition insert_intent :: "string \<Rightarrow> intent_row \<Rightarrow> unit statement" where
  "insert_intent k r d =
     (if has_key k (intents d) \<or> \<not> has_key (in_incident r) (incidents d) then Inl IntegrityError
      else Inr ((), d\<lparr>intents := intents d @ [(k, r)]\<rparr>))"

definition insert_intent_event :: "string \<Rightarrow> string \<Rightarrow> unit statement" where
  "insert_intent_event e i d =
     (if has_key e (intent_events d) \<or> \<not> has_key e (events d) \<or> \<not> has_key i (intents d)
      then Inl IntegrityError
      else Inr ((), d\<lparr>intent_events := intent_events d @ [(e, i)]\<rparr>))"

definition upsert_latch :: "string \<Rightarrow> unit statement" where
  "upsert_latch reason d = Inr ((), d\<lparr>latch := Some reason\<rparr>)"

definition insert_outbox :: "string \<Rightarrow> string \<Rightarrow> unit statement" where
  "insert_outbox i payload d =
     (if \<not> has_key i (intents d) then Inl IntegrityError
      else Inr ((), d\<lparr>outbox := outbox d @
        [\<lparr>ob_id = new_rowid (map ob_id (outbox d)), ob_intent = i, ob_payload = payload,
          ob_status = ''pending'', ob_attempts = 0, ob_next = None, ob_error = None\<rparr>]\<rparr>))"

definition insert_audit :: "string \<Rightarrow> string \<Rightarrow> string \<Rightarrow> string \<Rightarrow> unit statement" where
  "insert_audit at i transition detail d =
     Inr ((), d\<lparr>audit := audit d @
       [\<lparr>au_id = new_rowid (map au_id (audit d)), au_at = at, au_intent = i,
         au_transition = transition, au_detail = detail\<rparr>]\<rparr>)"

text \<open>\<^verbatim>\<open>UPDATE intents SET .. WHERE ..\<close> returns the number of rows it changed (\<^verbatim>\<open>rowcount\<close>).\<close>

definition update_intents ::
    "(string \<Rightarrow> intent_row \<Rightarrow> bool) \<Rightarrow> (intent_row \<Rightarrow> intent_row) \<Rightarrow> nat statement" where
  "update_intents P f d =
     Inr (length (filter (\<lambda>(k, r). P k r) (intents d)),
          d\<lparr>intents := map (\<lambda>(k, r). (k, if P k r then f r else r)) (intents d)\<rparr>)"

section \<open>Connections and transactions\<close>

text \<open>
  \<open>plan\<close>: for each statement still to run, whether the storage fails it; beyond its end
  nothing fails.
\<close>

record conn =
  work :: db
  plan :: "bool list"

type_synonym 'a sql = "(conn, 'a) cmd"

definition fetch :: "(db \<Rightarrow> 'a) \<Rightarrow> 'a sql" where
  "fetch q c =
     (case plan c of
        [] \<Rightarrow> (Inr (q (work c)), c)
      | b # bs \<Rightarrow> (if b then Inl SqliteError else Inr (q (work c)), c\<lparr>plan := bs\<rparr>))"

definition exec :: "'a statement \<Rightarrow> 'a sql" where
  "exec st = bind_cmd (fetch st)
     (\<lambda>r. case r of Inl e \<Rightarrow> raise e | Inr (x, d) \<Rightarrow> (\<lambda>c. (Inr x, c\<lparr>work := d\<rparr>)))"

text \<open>\<^verbatim>\<open>sqlite3.connect\<close> and the two pragmas of \<^verbatim>\<open>_connection\<close>.\<close>

definition open_connection :: "unit sql" where
  "open_connection = bind_cmd (fetch (\<lambda>_. ())) (\<lambda>_. bind_cmd (fetch (\<lambda>_. ())) (\<lambda>_. fetch (\<lambda>_. ())))"

definition begin_immediate :: "unit sql" where
  "begin_immediate = fetch (\<lambda>_. ())"

definition commit :: "unit sql" where
  "commit = fetch (\<lambda>_. ())"

text \<open>
  \<^verbatim>\<open>_transaction\<close>: the second component of the result is what the file holds afterwards. The
  work reaches it through \<^verbatim>\<open>commit\<close> only; on any exception \<^verbatim>\<open>rollback\<close> gives back what
  \<^verbatim>\<open>BEGIN IMMEDIATE\<close> saw, and a rollback that itself fails replaces the exception, the work
  being dropped when the connection is closed.
\<close>

definition transaction :: "'a sql \<Rightarrow> bool list \<Rightarrow> db \<Rightarrow> (exn + 'a) \<times> db" where
  "transaction body p durable =
     (case bind_cmd open_connection (\<lambda>_. begin_immediate) \<lparr>work = durable, plan = p\<rparr> of
        (Inl e, c) \<Rightarrow> (Inl e, durable)
      | (Inr u, c) \<Rightarrow>
          (case bind_cmd body (\<lambda>x. bind_cmd commit (\<lambda>_. ret x)) c of
             (Inr x, c') \<Rightarrow> (Inr x, work c')
           | (Inl e, c') \<Rightarrow>
               (case fetch (\<lambda>_. ()) c' of
                  (Inl e', c'') \<Rightarrow> (Inl e', durable)
                | (Inr u', c'') \<Rightarrow> (Inl e, durable))))"

text \<open>The read methods open a connection and run one query outside a transaction.\<close>

definition reading :: "(db \<Rightarrow> 'a) \<Rightarrow> bool list \<Rightarrow> db \<Rightarrow> exn + 'a" where
  "reading q p durable =
     fst (bind_cmd open_connection (\<lambda>_. fetch q) \<lparr>work = durable, plan = p\<rparr>)"

section \<open>Faults only ever turn a result into an error\<close>

text \<open>
  A command is fault transparent when a run that returns under some plan returns the same under
  the plan without faults: storage errors can stop it, not change what it computes.
\<close>

definition fault_transparent :: "'a sql \<Rightarrow> bool" where
  "fault_transparent m \<longleftrightarrow>
     (\<forall>c x c'. m c = (Inr x, c') \<longrightarrow> m (c\<lparr>plan := []\<rparr>) = (Inr x, c'\<lparr>plan := []\<rparr>))"

named_theorems transparent

lemma transparent_ret [transparent]: "fault_transparent (ret x)"
  by (simp add: fault_transparent_def)

lemma transparent_raise [transparent]: "fault_transparent (raise e)"
  by (simp add: fault_transparent_def)

lemma transparent_of_result [transparent]: "fault_transparent (of_result r)"
  by (simp add: fault_transparent_def)

lemma transparent_fetch [transparent]: "fault_transparent (fetch q)"
  by (auto simp: fault_transparent_def fetch_def split: list.splits if_splits)

lemma transparent_bind [transparent]:
  assumes "fault_transparent m" and "\<And>x. fault_transparent (k x)"
  shows "fault_transparent (bind_cmd m k)"
proof -
  have "bind_cmd m k (c\<lparr>plan := []\<rparr>) = (Inr y, c'\<lparr>plan := []\<rparr>)"
    if run: "bind_cmd m k c = (Inr y, c')" for c y c'
  proof -
    obtain x d where "m c = (Inr x, d)" and "k x d = (Inr y, c')"
      using bind_cmd_InrE [OF run] .
    with assms show ?thesis
      unfolding fault_transparent_def by (auto simp: cmd_simps)
  qed
  then show ?thesis by (simp add: fault_transparent_def)
qed

lemma transparent_if [transparent]:
  "fault_transparent m \<Longrightarrow> fault_transparent n \<Longrightarrow> fault_transparent (if b then m else n)"
  by simp

lemma transparent_exec [transparent]: "fault_transparent (exec st)"
  by (auto simp: fault_transparent_def exec_def bind_cmd_def fetch_def
      split: list.splits if_splits sum.splits prod.splits)

lemma transparent_option [transparent]:
  "fault_transparent m \<Longrightarrow> (\<And>x. fault_transparent (k x)) \<Longrightarrow>
   fault_transparent (case z of None \<Rightarrow> m | Some x \<Rightarrow> k x)"
  by (simp split: option.split)

section \<open>Runs without faults\<close>

lemma fetch_nil [simp, cmd_simps]: "fetch q \<lparr>work = d, plan = []\<rparr> = (Inr (q d), \<lparr>work = d, plan = []\<rparr>)"
  by (simp add: fetch_def)

lemma exec_nil [simp, cmd_simps]:
  "exec st \<lparr>work = d, plan = []\<rparr> =
     (case st d of Inl e \<Rightarrow> (Inl e, \<lparr>work = d, plan = []\<rparr>)
                 | Inr (x, d') \<Rightarrow> (Inr x, \<lparr>work = d', plan = []\<rparr>))"
  by (simp add: exec_def bind_cmd_def split: sum.split prod.split)

lemma transaction_nil:
  "transaction body [] s =
     (case body \<lparr>work = s, plan = []\<rparr> of
        (Inr x, c) \<Rightarrow> (case commit c of (Inl e, c') \<Rightarrow> (Inl e, s) | (Inr u, c') \<Rightarrow> (Inr x, work c'))
      | (Inl e, c) \<Rightarrow> (case fetch (\<lambda>_. ()) c of (Inl e', c') \<Rightarrow> (Inl e', s) | (Inr u, c') \<Rightarrow> (Inl e, s)))"
  by (auto simp: transaction_def open_connection_def begin_immediate_def bind_cmd_def commit_def
      fetch_def split: sum.splits prod.splits list.splits if_splits)

lemma reading_nil [simp]: "reading q [] s = Inr (q s)"
  by (simp add: reading_def open_connection_def bind_cmd_def)

text \<open>All or nothing: a transaction returns what the fault-free one does, or leaves the file.\<close>

lemma transaction_atomic:
  assumes ft: "fault_transparent body" and run: "transaction body p s = (r, s')"
  shows "(\<exists>e. r = Inl e \<and> s' = s) \<or> (\<exists>x. r = Inr x \<and> transaction body [] s = (Inr x, s'))"
proof (cases r)
  case (Inl e)
  with run show ?thesis
    by (auto simp: transaction_def split: prod.splits sum.splits)
next
  case (Inr x)
  let ?c0 = "\<lparr>work = s, plan = p\<rparr>"
  let ?whole = "bind_cmd (bind_cmd open_connection (\<lambda>_. begin_immediate))
     (\<lambda>_. bind_cmd body (\<lambda>x. bind_cmd commit (\<lambda>_. ret x)))"
  have whole: "fault_transparent ?whole"
    by (intro transparent transparent_bind ft)
      (simp_all add: open_connection_def begin_immediate_def commit_def transparent)
  from run Inr obtain c where "?whole ?c0 = (Inr x, c)" and s': "s' = work c"
    by (auto simp: transaction_def bind_cmd_def split: prod.splits sum.splits)
  with whole have "?whole \<lparr>work = s, plan = []\<rparr> = (Inr x, c\<lparr>plan := []\<rparr>)"
    unfolding fault_transparent_def by fastforce
  with Inr s' show ?thesis
    by (auto simp: transaction_def bind_cmd_def split: prod.splits sum.splits)
qed

end
