(* ===== verification/Store.thy ===== *)
theory Store
  imports StoreDb
begin

text \<open>
  The operations of \<^verbatim>\<open>StateStore\<close> (\<^verbatim>\<open>sentinel/store.py\<close>), statement by statement. Each takes
  the fault plan of its statements, the readings of the clock it stores (\<open>now\<close>, and \<open>at\<close> for
  the audit row), its Python arguments and the contents of the state file, and returns the
  value or exception together with the contents afterwards.
\<close>

section \<open>Opening the store\<close>

text \<open>
  \<^verbatim>\<open>__init__\<close>: \<^verbatim>\<open>CREATE TABLE IF NOT EXISTS\<close> leaves existing tables alone, so the script only
  sets the version of a fresh file. \<open>mkdir\<close> is the outcome of creating the parent directory.
\<close>

definition migrate :: "unit statement" where
  "migrate d = Inr ((), d\<lparr>user_version := 1\<rparr>)"

definition open_body :: "unit sql" where
  "open_body =
     bind_cmd (fetch user_version) (\<lambda>version.
       if version \<noteq> 0 \<and> version \<noteq> 1
       then raise (ValueError ''Unsupported state schema version'')
       else bind_cmd (fetch (\<lambda>_. ())) (\<lambda>_.
         bind_cmd begin_immediate (\<lambda>_. bind_cmd (exec migrate) (\<lambda>_. commit))))"

definition open_store ::
    "bool list \<Rightarrow> unit result \<Rightarrow> string \<Rightarrow> db \<Rightarrow> (exn + unit) \<times> db" where
  "open_store p mkdir path s =
     (if path = '':memory:'' then (Inl (ValueError ''In-memory state is not durable''), s)
      else case bind_cmd (of_result mkdir) (\<lambda>_. bind_cmd open_connection (\<lambda>_. open_body))
                  \<lparr>work = s, plan = p\<rparr> of
             (Inl e, c) \<Rightarrow> (Inl e, s)
           | (Inr u, c) \<Rightarrow> (Inr u, work c))"

section \<open>Ingestion\<close>

definition audit_entry :: "string \<Rightarrow> string \<Rightarrow> string \<Rightarrow> string \<Rightarrow> unit sql" where
  "audit_entry at intent transition detail = exec (insert_audit at intent transition detail)"

definition cursor_behind :: "int \<Rightarrow> cursor_row option \<Rightarrow> bool sql" where
  "cursor_behind sequence cursor =
     (case cursor of
        None \<Rightarrow> ret True
      | Some row \<Rightarrow> bind_cmd (of_result (py_int 10 (cu_sequence row))) (\<lambda>n. ret (n < sequence)))"

definition ingest_body :: "string \<Rightarrow> string \<Rightarrow> int \<Rightarrow> int \<Rightarrow> string \<Rightarrow> bool sql" where
  "ingest_body source event_id sequence block payload =
     bind_cmd (fetch (\<lambda>d. map_of (events d) event_id)) (\<lambda>previous.
       case previous of
         Some row \<Rightarrow>
           bind_cmd (of_result (py_str sequence)) (\<lambda>q.
             if (ev_source row, ev_sequence row, ev_block row, ev_payload row)
                  \<noteq> (source, q, block, payload)
             then raise (ValueError ''Conflicting replay; reconciliation required'')
             else ret False)
       | None \<Rightarrow>
           bind_cmd (of_result (py_str sequence)) (\<lambda>q.
           bind_cmd (of_result (sql_int block)) (\<lambda>b.
           bind_cmd (exec (insert_event event_id
             \<lparr>ev_source = source, ev_sequence = q, ev_block = b, ev_payload = payload\<rparr>)) (\<lambda>_.
           bind_cmd (fetch (\<lambda>d. map_of (cursors d) source)) (\<lambda>cursor.
           bind_cmd (cursor_behind sequence cursor) (\<lambda>behind.
             if behind
             then bind_cmd (exec (upsert_cursor source \<lparr>cu_sequence = q, cu_block = b\<rparr>))
                    (\<lambda>_. ret True)
             else ret True))))))"

definition ingest ::
    "bool list \<Rightarrow> string \<Rightarrow> string \<Rightarrow> int \<Rightarrow> int \<Rightarrow> string \<Rightarrow> db \<Rightarrow> (exn + bool) \<times> db" where
  "ingest p source event_id sequence block payload s =
     (if sequence < 0 \<or> block < 0 \<or> source = [] \<or> event_id = []
      then (Inl (ValueError ''Invalid event position or identity''), s)
      else transaction (ingest_body source event_id sequence block payload) p s)"

definition cursor :: "bool list \<Rightarrow> string \<Rightarrow> db \<Rightarrow> exn + (int \<times> int) option" where
  "cursor p source s =
     (case reading (\<lambda>d. map_of (cursors d) source) p s of
        Inl e \<Rightarrow> Inl e
      | Inr None \<Rightarrow> Inr None
      | Inr (Some row) \<Rightarrow>
          (case py_int 10 (cu_sequence row) of
             Inl e \<Rightarrow> Inl e
           | Inr n \<Rightarrow> Inr (Some (n, cu_block row))))"

section \<open>Reservation\<close>

definition unfinished :: "status \<Rightarrow> bool" where
  "unfinished st \<longleftrightarrow> st \<in> {Reserved, Prepared, Broadcast, Indeterminate}"

definition any_unfinished :: "db \<Rightarrow> bool" where
  "any_unfinished d = (\<exists>(i, r) \<in> set (intents d). unfinished (in_status r))"

text \<open>The loop over the events: \<open>False\<close> when one is owned already, an exception when unknown.\<close>

fun check_events :: "string list \<Rightarrow> bool sql" where
  "check_events [] = ret True"
| "check_events (e # es) =
     bind_cmd (fetch (\<lambda>d. has_key e (intent_events d))) (\<lambda>owned.
       if owned then ret False
       else bind_cmd (fetch (\<lambda>d. has_key e (events d))) (\<lambda>known.
         if \<not> known then raise (ValueError ''Cannot reserve an unknown event'')
         else check_events es))"

fun insert_intent_events :: "string \<Rightarrow> string list \<Rightarrow> unit sql" where
  "insert_intent_events i [] = ret ()"
| "insert_intent_events i (e # es) =
     bind_cmd (exec (insert_intent_event e i)) (\<lambda>_. insert_intent_events i es)"

definition new_intent :: "string \<Rightarrow> string \<Rightarrow> intent_row" where
  "new_intent incident now =
     \<lparr>in_incident = incident, in_status = Reserved, in_created = now, in_nonce = None,
      in_tx = None, in_fee = None, in_evidence = None\<rparr>"

definition reserve_body ::
    "string \<Rightarrow> string \<Rightarrow> string \<Rightarrow> string \<Rightarrow> string list \<Rightarrow> bool sql" where
  "reserve_body now at intent incident event_ids =
     bind_cmd (fetch (\<lambda>d. latch d \<noteq> None)) (\<lambda>latched.
     bind_cmd (if latched then ret True else fetch any_unfinished) (\<lambda>busy.
       if busy then ret False
       else bind_cmd (fetch (\<lambda>d. has_key intent (intents d))) (\<lambda>taken.
         if taken then ret False
         else bind_cmd (check_events event_ids) (\<lambda>free.
           if \<not> free then ret False
           else
             bind_cmd (exec (insert_incident incident
               \<lparr>ic_created = now, ic_source_ids = json_string_list event_ids\<rparr>)) (\<lambda>_.
             bind_cmd (exec (insert_intent intent (new_intent incident now))) (\<lambda>_.
             bind_cmd (insert_intent_events intent event_ids) (\<lambda>_.
             bind_cmd (audit_entry at intent ''reserved''
               ''storage exclusivity passed; policy is external'') (\<lambda>_.
             ret True))))))))"

definition reserve ::
    "bool list \<Rightarrow> string \<Rightarrow> string \<Rightarrow> string \<Rightarrow> string \<Rightarrow> string list \<Rightarrow> db \<Rightarrow> (exn + bool) \<times> db" where
  "reserve p now at intent incident event_ids s =
     (if intent = [] \<or> incident = [] \<or> event_ids = []
         \<or> length (remdups event_ids) \<noteq> length event_ids
      then (Inl (ValueError ''A reservation requires unique source events and stable IDs''), s)
      else transaction (reserve_body now at intent incident event_ids) p s)"

section \<open>From reservation to broadcast\<close>

definition prepare_body :: "string \<Rightarrow> string \<Rightarrow> int \<Rightarrow> string \<Rightarrow> unit sql" where
  "prepare_body at intent nonce fee_data =
     bind_cmd (of_result (sql_int nonce)) (\<lambda>n.
     bind_cmd (exec (update_intents (\<lambda>i r. i = intent \<and> in_status r = Reserved)
       (\<lambda>r. r\<lparr>in_status := Prepared, in_nonce := Some n, in_fee := Some fee_data\<rparr>))) (\<lambda>rowcount.
       if rowcount \<noteq> 1 then raise (ValueError ''Intent is not reserved; do not send'')
       else audit_entry at intent ''prepared'' ''nonce and fee data persisted''))"

definition prepare ::
    "bool list \<Rightarrow> string \<Rightarrow> string \<Rightarrow> int \<Rightarrow> string \<Rightarrow> db \<Rightarrow> (exn + unit) \<times> db" where
  "prepare p at intent nonce fee_data s =
     (if nonce < 0 then (Inl (ValueError ''Nonce cannot be negative''), s)
      else transaction (prepare_body at intent nonce fee_data) p s)"

definition broadcast_body :: "string \<Rightarrow> string \<Rightarrow> string \<Rightarrow> unit sql" where
  "broadcast_body at intent tx_hash =
     bind_cmd (exec (update_intents (\<lambda>i r. i = intent \<and> in_status r = Prepared)
       (\<lambda>r. r\<lparr>in_status := Broadcast, in_tx := Some tx_hash\<rparr>))) (\<lambda>rowcount.
       if rowcount \<noteq> 1 then raise (ValueError ''Intent is not prepared; reconcile'')
       else audit_entry at intent ''broadcast'' tx_hash)"

definition broadcast ::
    "bool list \<Rightarrow> string \<Rightarrow> string \<Rightarrow> string \<Rightarrow> db \<Rightarrow> (exn + unit) \<times> db" where
  "broadcast p at intent tx_hash s =
     (if length tx_hash \<noteq> 66 \<or> \<not> startswith tx_hash ''0x''
      then (Inl (ValueError ''Invalid transaction hash''), s)
      else case py_int 16 (drop 2 tx_hash) of
             Inl e \<Rightarrow> (Inl e, s)
           | Inr v \<Rightarrow> transaction (broadcast_body at intent tx_hash) p s)"

section \<open>Outcomes\<close>

text \<open>\<^verbatim>\<open>Outcome\<close>: the texts \<^verbatim>\<open>finish\<close> accepts, as the statuses they store.\<close>

definition outcome_of :: "string \<Rightarrow> status option" where
  "outcome_of t =
     map_of (map (\<lambda>st. (status_text st, st)) [Success, Reverted, AlreadyDesired, Indeterminate]) t"

text \<open>The checks on the stored row, in the order of the source: the exception to raise, if any.\<close>

definition finish_guard :: "status \<Rightarrow> intent_row \<Rightarrow> exn option" where
  "finish_guard out r =
     (if \<not> unfinished (in_status r) then Some (ValueError ''No unfinished intent'')
      else if out \<in> {Success, Reverted} \<and> in_status r \<notin> {Broadcast, Indeterminate}
      then Some (ValueError ''A receipt outcome requires a broadcast or reconciliation'')
      else if out \<in> {Success, Reverted} \<and> in_tx r = None
      then Some (ValueError ''A receipt outcome requires a persisted transaction hash'')
      else if out = AlreadyDesired \<and> in_status r \<noteq> Reserved
      then Some (ValueError ''Already-desired is only valid before transaction preparation'')
      else None)"

definition finish_writes :: "string \<Rightarrow> string \<Rightarrow> status \<Rightarrow> string \<Rightarrow> unit sql" where
  "finish_writes at intent out evidence =
     bind_cmd (exec (update_intents (\<lambda>i _. i = intent)
       (\<lambda>r. r\<lparr>in_status := out, in_evidence := Some evidence\<rparr>))) (\<lambda>_.
     bind_cmd (if out = Indeterminate then exec (upsert_latch evidence) else ret ()) (\<lambda>_.
     bind_cmd (audit_entry at intent (status_text out) evidence) (\<lambda>_.
     exec (insert_outbox intent
       (json_object [(''intent'', intent), (''outcome'', status_text out)])))))"

definition finish_body :: "string \<Rightarrow> string \<Rightarrow> status \<Rightarrow> string \<Rightarrow> unit sql" where
  "finish_body at intent out evidence =
     bind_cmd (fetch (\<lambda>d. map_of (intents d) intent)) (\<lambda>row.
       case row of
         None \<Rightarrow> raise (ValueError ''No unfinished intent'')
       | Some r \<Rightarrow>
           (case finish_guard out r of
              Some e \<Rightarrow> raise e
            | None \<Rightarrow> finish_writes at intent out evidence))"

definition finish ::
    "bool list \<Rightarrow> string \<Rightarrow> string \<Rightarrow> string \<Rightarrow> string \<Rightarrow> db \<Rightarrow> (exn + unit) \<times> db" where
  "finish p at intent outcome evidence s =
     (case outcome_of outcome of
        None \<Rightarrow> (Inl (ValueError ''A recognized outcome and evidence are required''), s)
      | Some out \<Rightarrow>
          if evidence = []
          then (Inl (ValueError ''A recognized outcome and evidence are required''), s)
          else transaction (finish_body at intent out evidence) p s)"

section \<open>Queries\<close>

definition intent_lookup :: "bool list \<Rightarrow> string \<Rightarrow> db \<Rightarrow> exn + intent_row option" where
  "intent_lookup p i = reading (\<lambda>d. map_of (intents d) i) p"

definition is_latched :: "bool list \<Rightarrow> db \<Rightarrow> exn + bool" where
  "is_latched p = reading (\<lambda>d. latch d \<noteq> None) p"

end
