(* ===== verification/StoreSpec.thy ===== *)
theory StoreSpec
  imports Store
begin

text \<open>
  What each operation of the store does, as one equation per operation over the contents of the
  file (the runs without faults), and the bridge that reduces every run to them.
\<close>

section \<open>The bodies are fault transparent\<close>

lemma transparent_cursor_behind [transparent]: "fault_transparent (cursor_behind n c)"
  unfolding cursor_behind_def by (intro transparent)

lemma transparent_audit_entry [transparent]: "fault_transparent (audit_entry a i t x)"
  unfolding audit_entry_def by (intro transparent)

lemma transparent_check_events [transparent]: "fault_transparent (check_events es)"
proof (induction es)
  case Nil
  show ?case by (simp only: check_events.simps transparent_ret)
next
  case (Cons e es)
  then show ?case by (simp only: check_events.simps) (intro transparent)
qed

lemma transparent_insert_intent_events [transparent]:
  "fault_transparent (insert_intent_events i es)"
proof (induction es)
  case Nil
  show ?case by (simp only: insert_intent_events.simps transparent_ret)
next
  case (Cons e es)
  then show ?case by (simp only: insert_intent_events.simps) (intro transparent)
qed

lemma transparent_ingest_body [transparent]: "fault_transparent (ingest_body src e q b x)"
  unfolding ingest_body_def by (intro transparent)

lemma transparent_reserve_body [transparent]: "fault_transparent (reserve_body now a i c es)"
  unfolding reserve_body_def by (intro transparent)

lemma transparent_prepare_body [transparent]: "fault_transparent (prepare_body a i n f)"
  unfolding prepare_body_def by (intro transparent)

lemma transparent_broadcast_body [transparent]: "fault_transparent (broadcast_body a i h)"
  unfolding broadcast_body_def by (intro transparent)

lemma transparent_finish_writes [transparent]: "fault_transparent (finish_writes a i out ev)"
  unfolding finish_writes_def by (intro transparent)

lemma transparent_finish_body [transparent]: "fault_transparent (finish_body a i out ev)"
  unfolding finish_body_def by (intro transparent)

section \<open>Transactions without faults\<close>

lemma transaction_nil_result:
  assumes "body \<lparr>work = s, plan = []\<rparr> = (r, \<lparr>work = d, plan = []\<rparr>)"
  shows "transaction body [] s = (r, case r of Inl e \<Rightarrow> s | Inr x \<Rightarrow> d)"
  using assms by (simp add: transaction_nil commit_def split: sum.split)

text \<open>The loop over the events, as a fold over the tables.\<close>

definition owned :: "db \<Rightarrow> string \<Rightarrow> bool" where
  "owned d e = has_key e (intent_events d)"

definition known :: "db \<Rightarrow> string \<Rightarrow> bool" where
  "known d e = has_key e (events d)"

fun events_free :: "db \<Rightarrow> string list \<Rightarrow> bool result" where
  "events_free d [] = Inr True"
| "events_free d (e # es) =
     (if owned d e then Inr False
      else if \<not> known d e then Inl (ValueError ''Cannot reserve an unknown event'')
      else events_free d es)"

lemma check_events_nil:
  "check_events es \<lparr>work = d, plan = []\<rparr> = (events_free d es, \<lparr>work = d, plan = []\<rparr>)"
  by (induction es) (simp_all add: bind_cmd_def owned_def known_def)

lemma events_free_True:
  "events_free d es = Inr True \<longleftrightarrow> (\<forall>e \<in> set es. known d e \<and> \<not> owned d e)"
  by (induction es) auto

lemma has_key_snoc [simp]: "has_key k (t @ [(k', v)]) \<longleftrightarrow> has_key k t \<or> k = k'"
  by (auto simp: has_key_def split: option.split)

lemma insert_intent_events_nil:
  assumes "distinct es" and "\<forall>e \<in> set es. known d e \<and> \<not> owned d e" and "has_key i (intents d)"
  shows "insert_intent_events i es \<lparr>work = d, plan = []\<rparr> =
           (Inr (), \<lparr>work = d\<lparr>intent_events := intent_events d @ map (\<lambda>e. (e, i)) es\<rparr>, plan = []\<rparr>)"
  using assms
proof (induction es arbitrary: d)
  case Nil
  then show ?case by simp
next
  case (Cons e es)
  let ?d = "d\<lparr>intent_events := intent_events d @ [(e, i)]\<rparr>"
  have "\<forall>x \<in> set es. known ?d x \<and> \<not> owned ?d x"
    using Cons.prems by (auto simp: known_def owned_def)
  with Cons.prems Cons.IH [of ?d] show ?case
    by (simp add: bind_cmd_def insert_intent_event_def known_def owned_def)
qed

section \<open>One equation per operation\<close>

text \<open>\<^verbatim>\<open>ingest\<close>.\<close>

definition advance_cursor :: "string \<Rightarrow> int \<Rightarrow> string \<Rightarrow> int \<Rightarrow> db \<Rightarrow> db result" where
  "advance_cursor source sequence q block d =
     (let moved = d\<lparr>cursors := AList.update source \<lparr>cu_sequence = q, cu_block = block\<rparr> (cursors d)\<rparr>
      in case map_of (cursors d) source of
           None \<Rightarrow> Inr moved
         | Some row \<Rightarrow>
             (case py_int 10 (cu_sequence row) of
                Inl e \<Rightarrow> Inl e
              | Inr n \<Rightarrow> Inr (if n < sequence then moved else d)))"

definition ingest_spec ::
    "string \<Rightarrow> string \<Rightarrow> int \<Rightarrow> int \<Rightarrow> string \<Rightarrow> db \<Rightarrow> (exn + bool) \<times> db" where
  "ingest_spec source e sequence block payload s =
     (case (map_of (events s) e, py_str sequence) of
        (_, Inl x) \<Rightarrow> (Inl x, s)
      | (Some row, Inr q) \<Rightarrow>
          if row = \<lparr>ev_source = source, ev_sequence = q, ev_block = block, ev_payload = payload\<rparr>
          then (Inr False, s)
          else (Inl (ValueError ''Conflicting replay; reconciliation required''), s)
      | (None, Inr q) \<Rightarrow>
          (case sql_int block of
             Inl x \<Rightarrow> (Inl x, s)
           | Inr b \<Rightarrow>
               (case advance_cursor source sequence q b (s\<lparr>events := events s @
                       [(e, \<lparr>ev_source = source, ev_sequence = q, ev_block = b,
                              ev_payload = payload\<rparr>)]\<rparr>) of
                  Inl x \<Rightarrow> (Inl x, s)
                | Inr d \<Rightarrow> (Inr True, d))))"

lemma ingest_nil:
  "ingest [] source e sequence block payload s =
     (if sequence < 0 \<or> block < 0 \<or> source = [] \<or> e = []
      then (Inl (ValueError ''Invalid event position or identity''), s)
      else ingest_spec source e sequence block payload s)"
  by (auto simp: ingest_def transaction_nil ingest_body_def ingest_spec_def bind_cmd_def commit_def
      insert_event_def upsert_cursor_def cursor_behind_def advance_cursor_def has_key_def Let_def
      split: option.split sum.split)

text \<open>A new audit row, and the outbox row of a finished intent.\<close>

definition log_audit :: "string \<Rightarrow> string \<Rightarrow> string \<Rightarrow> string \<Rightarrow> db \<Rightarrow> db" where
  "log_audit at i transition detail d = d\<lparr>audit := audit d @
     [\<lparr>au_id = new_rowid (map au_id (audit d)), au_at = at, au_intent = i,
       au_transition = transition, au_detail = detail\<rparr>]\<rparr>"

definition queue_outcome :: "string \<Rightarrow> status \<Rightarrow> db \<Rightarrow> db" where
  "queue_outcome i out d = d\<lparr>outbox := outbox d @
     [\<lparr>ob_id = new_rowid (map ob_id (outbox d)), ob_intent = i,
       ob_payload = json_object [(''intent'', i), (''outcome'', status_text out)],
       ob_status = ''pending'', ob_attempts = 0, ob_next = None, ob_error = None\<rparr>]\<rparr>"

lemma audit_entry_nil:
  "audit_entry at i t x \<lparr>work = d, plan = []\<rparr> = (Inr (), \<lparr>work = log_audit at i t x d, plan = []\<rparr>)"
  by (simp add: audit_entry_def insert_audit_def log_audit_def)

text \<open>\<^verbatim>\<open>reserve\<close>.\<close>

definition reserved_db ::
    "string \<Rightarrow> string \<Rightarrow> string \<Rightarrow> string \<Rightarrow> string list \<Rightarrow> db \<Rightarrow> db" where
  "reserved_db now at i c es s =
     log_audit at i ''reserved'' ''storage exclusivity passed; policy is external''
       (s\<lparr>incidents := incidents s @ [(c, \<lparr>ic_created = now, ic_source_ids = json_string_list es\<rparr>)],
          intents := intents s @ [(i, new_intent c now)],
          intent_events := intent_events s @ map (\<lambda>e. (e, i)) es\<rparr>)"

definition reserve_spec ::
    "string \<Rightarrow> string \<Rightarrow> string \<Rightarrow> string \<Rightarrow> string list \<Rightarrow> db \<Rightarrow> (exn + bool) \<times> db" where
  "reserve_spec now at i c es s =
     (if latch s \<noteq> None \<or> any_unfinished s \<or> has_key i (intents s) then (Inr False, s)
      else case events_free s es of
             Inl e \<Rightarrow> (Inl e, s)
           | Inr False \<Rightarrow> (Inr False, s)
           | Inr True \<Rightarrow>
               if has_key c (incidents s) then (Inl IntegrityError, s)
               else (Inr True, reserved_db now at i c es s))"

lemma reserve_body_free:
  assumes "distinct es" and "\<not> (latch s \<noteq> None \<or> any_unfinished s \<or> has_key i (intents s))"
    and "events_free s es = Inr True" and "\<not> has_key c (incidents s)"
  shows "reserve_body now at i c es \<lparr>work = s, plan = []\<rparr> =
           (Inr True, \<lparr>work = reserved_db now at i c es s, plan = []\<rparr>)"
proof -
  let ?d = "s\<lparr>incidents := incidents s @ [(c, \<lparr>ic_created = now,
               ic_source_ids = json_string_list es\<rparr>)], intents := intents s @ [(i, new_intent c now)]\<rparr>"
  have "insert_intent_events i es \<lparr>work = ?d, plan = []\<rparr> =
          (Inr (), \<lparr>work = ?d\<lparr>intent_events := intent_events ?d @ map (\<lambda>e. (e, i)) es\<rparr>, plan = []\<rparr>)"
    using assms by (intro insert_intent_events_nil) (auto simp: events_free_True known_def owned_def)
  with assms show ?thesis
    by (simp add: reserve_body_def bind_cmd_def check_events_nil insert_incident_def
        insert_intent_def new_intent_def audit_entry_nil reserved_db_def)
qed

lemma reserve_nil:
  "reserve [] now at i c es s =
     (if i = [] \<or> c = [] \<or> es = [] \<or> \<not> distinct es
      then (Inl (ValueError ''A reservation requires unique source events and stable IDs''), s)
      else reserve_spec now at i c es s)"
proof (cases "i = [] \<or> c = [] \<or> es = [] \<or> \<not> distinct es")
  case True
  then show ?thesis by (auto simp: reserve_def)
next
  case False
  then have op: "reserve [] now at i c es s = transaction (reserve_body now at i c es) [] s"
    by (simp add: reserve_def distinct_remdups_id)
  show ?thesis
  proof (cases "\<not> (latch s \<noteq> None \<or> any_unfinished s \<or> has_key i (intents s))
                 \<and> events_free s es = Inr True \<and> \<not> has_key c (incidents s)")
    case True
    with False reserve_body_free [of es s i c now at] show ?thesis
      by (simp add: op transaction_nil_result reserve_spec_def)
  next
    case blocked: False
    with False show ?thesis
      by (auto simp: op transaction_nil reserve_body_def bind_cmd_def check_events_nil commit_def
          insert_incident_def reserve_spec_def split: sum.splits bool.splits)
  qed
qed

text \<open>\<^verbatim>\<open>prepare\<close>, \<^verbatim>\<open>broadcast\<close> and \<^verbatim>\<open>finish\<close> change one row of \<open>intents\<close>.\<close>

definition put_intent :: "string \<Rightarrow> intent_row \<Rightarrow> db \<Rightarrow> db" where
  "put_intent i r d = d\<lparr>intents := map (\<lambda>(k, x). (k, if k = i then r else x)) (intents d)\<rparr>"

lemma filter_key_None: "map_of t i = None \<Longrightarrow> filter (\<lambda>(k, r). k = i \<and> P r) t = []"
  by (induction t) (auto split: if_splits)

lemma filter_key_Some:
  "distinct (map fst t) \<Longrightarrow> map_of t i = Some r \<Longrightarrow>
   filter (\<lambda>(k, r). k = i \<and> P r) t = (if P r then [(i, r)] else [])"
proof (induction t)
  case (Cons kv t)
  obtain k v where kv: "kv = (k, v)" by fastforce
  show ?case
  proof (cases "k = i")
    case True
    with Cons.prems kv have "map_of t i = None" by (simp add: map_of_eq_None_iff)
    with True Cons.prems kv show ?thesis by (simp add: filter_key_None)
  next
    case False
    with Cons kv show ?thesis by simp
  qed
qed simp

lemma key_row:
  "distinct (map fst t) \<Longrightarrow> map_of t i = Some r \<Longrightarrow> (i, b) \<in> set t \<longleftrightarrow> b = r"
  by (metis in_set_map_of option.inject)

lemma map_key_Some:
  assumes d: "distinct (map fst t)" and r: "map_of t i = Some r"
  shows "map (\<lambda>(k, x). (k, if k = i \<and> P x then f x else x)) t
       = (if P r then map (\<lambda>(k, x). (k, if k = i then f r else x)) t else t)"
proof -
  have row: "x = r" if "(i, x) \<in> set t" for x
    using key_row [OF d r] that by blast
  show ?thesis
  proof (cases "P r")
    case True
    with row show ?thesis by auto
  next
    case False
    have "map (\<lambda>(k, x). (k, if k = i \<and> P x then f x else x)) t = map (\<lambda>x. x) t"
      using False row by (intro map_cong) auto
    with False show ?thesis by simp
  qed
qed

lemma update_intents_one:
  assumes "distinct (map fst (intents d))"
  shows "update_intents (\<lambda>k x. k = i \<and> P x) f d =
     (case map_of (intents d) i of
        None \<Rightarrow> Inr (0, d)
      | Some r \<Rightarrow> if P r then Inr (1, put_intent i (f r) d) else Inr (0, d))"
proof (cases "map_of (intents d) i")
  case None
  then have "\<forall>(k, x) \<in> set (intents d). k \<noteq> i" by (force simp: map_of_eq_None_iff)
  then have "map (\<lambda>(k, x). (k, if k = i \<and> P x then f x else x)) (intents d) = intents d"
    by (intro map_idI) auto
  with None show ?thesis by (simp add: update_intents_def filter_key_None)
next
  case (Some r)
  with assms show ?thesis
    by (simp add: update_intents_def filter_key_Some map_key_Some put_intent_def)
qed

lemma update_intents_key:
  "distinct (map fst (intents d)) \<Longrightarrow> map_of (intents d) i = Some r \<Longrightarrow>
   update_intents (\<lambda>k x. k = i) f d = Inr (1, put_intent i (f r) d)"
  using update_intents_one [of d i "\<lambda>_. True" f] by simp

definition prepare_spec :: "string \<Rightarrow> string \<Rightarrow> int \<Rightarrow> string \<Rightarrow> db \<Rightarrow> (exn + unit) \<times> db" where
  "prepare_spec at i nonce fee s =
     (case sql_int nonce of
        Inl e \<Rightarrow> (Inl e, s)
      | Inr n \<Rightarrow>
          (case map_of (intents s) i of
             Some r \<Rightarrow>
               if in_status r = Reserved
               then (Inr (), log_audit at i ''prepared'' ''nonce and fee data persisted''
                      (put_intent i (r\<lparr>in_status := Prepared, in_nonce := Some n,
                                       in_fee := Some fee\<rparr>) s))
               else (Inl (ValueError ''Intent is not reserved; do not send''), s)
           | None \<Rightarrow> (Inl (ValueError ''Intent is not reserved; do not send''), s)))"

lemma prepare_nil:
  "distinct (map fst (intents s)) \<Longrightarrow>
   prepare [] at i nonce fee s =
     (if nonce < 0 then (Inl (ValueError ''Nonce cannot be negative''), s)
      else prepare_spec at i nonce fee s)"
  by (auto simp: prepare_def transaction_nil prepare_body_def prepare_spec_def bind_cmd_def
      update_intents_one audit_entry_nil commit_def split: option.split sum.split)

definition broadcast_spec :: "string \<Rightarrow> string \<Rightarrow> string \<Rightarrow> db \<Rightarrow> (exn + unit) \<times> db" where
  "broadcast_spec at i h s =
     (case map_of (intents s) i of
        Some r \<Rightarrow>
          if in_status r = Prepared
          then (Inr (), log_audit at i ''broadcast'' h
                 (put_intent i (r\<lparr>in_status := Broadcast, in_tx := Some h\<rparr>) s))
          else (Inl (ValueError ''Intent is not prepared; reconcile''), s)
      | None \<Rightarrow> (Inl (ValueError ''Intent is not prepared; reconcile''), s))"

lemma broadcast_nil:
  "distinct (map fst (intents s)) \<Longrightarrow>
   broadcast [] at i h s =
     (if length h \<noteq> 66 \<or> \<not> startswith h ''0x'' then (Inl (ValueError ''Invalid transaction hash''), s)
      else case py_int 16 (drop 2 h) of Inl e \<Rightarrow> (Inl e, s) | Inr v \<Rightarrow> broadcast_spec at i h s)"
  by (auto simp: broadcast_def transaction_nil broadcast_body_def broadcast_spec_def bind_cmd_def
      update_intents_one audit_entry_nil commit_def split: option.split sum.split)

definition finished_db :: "string \<Rightarrow> string \<Rightarrow> status \<Rightarrow> string \<Rightarrow> intent_row \<Rightarrow> db \<Rightarrow> db" where
  "finished_db at i out ev r s =
     queue_outcome i out (log_audit at i (status_text out) ev
       ((put_intent i (r\<lparr>in_status := out, in_evidence := Some ev\<rparr>) s)
          \<lparr>latch := if out = Indeterminate then Some ev else latch s\<rparr>))"

definition finish_spec :: "string \<Rightarrow> string \<Rightarrow> status \<Rightarrow> string \<Rightarrow> db \<Rightarrow> (exn + unit) \<times> db" where
  "finish_spec at i out ev s =
     (case map_of (intents s) i of
        None \<Rightarrow> (Inl (ValueError ''No unfinished intent''), s)
      | Some r \<Rightarrow>
          (case finish_guard out r of
             Some e \<Rightarrow> (Inl e, s)
           | None \<Rightarrow> (Inr (), finished_db at i out ev r s)))"

lemma has_key_put: "has_key k (map (\<lambda>(k, x). (k, if k = i then r else x)) t) = has_key k t"
  by (simp add: has_key_def map_of_map_values [of "\<lambda>k x. if k = i then r else x"])

lemma finish_writes_nil:
  assumes "distinct (map fst (intents s))" and "map_of (intents s) i = Some r"
  shows "finish_writes at i out ev \<lparr>work = s, plan = []\<rparr> =
           (Inr (), \<lparr>work = finished_db at i out ev r s, plan = []\<rparr>)"
proof -
  have "has_key i (intents s)" using assms by (simp add: has_key_def)
  with assms show ?thesis
    by (auto simp: finish_writes_def bind_cmd_def update_intents_key
        upsert_latch_def audit_entry_nil insert_outbox_def finished_db_def queue_outcome_def
        log_audit_def put_intent_def has_key_put)
qed

lemma finish_body_nil:
  assumes "distinct (map fst (intents s))"
  shows "finish_body at i out ev \<lparr>work = s, plan = []\<rparr> =
     (fst (finish_spec at i out ev s), \<lparr>work = snd (finish_spec at i out ev s), plan = []\<rparr>)"
  using assms
  by (simp add: finish_body_def bind_cmd_def finish_spec_def finish_writes_nil split: option.split)

lemma finish_nil:
  assumes wf: "distinct (map fst (intents s))"
  shows "finish [] at i outcome ev s =
     (case outcome_of outcome of
        None \<Rightarrow> (Inl (ValueError ''A recognized outcome and evidence are required''), s)
      | Some out \<Rightarrow>
          if ev = [] then (Inl (ValueError ''A recognized outcome and evidence are required''), s)
          else finish_spec at i out ev s)"
proof -
  have "transaction (finish_body at i out ev) [] s = finish_spec at i out ev s" for out
    by (subst transaction_nil_result [where r = "fst (finish_spec at i out ev s)"
          and d = "snd (finish_spec at i out ev s)"])
      (simp_all add: finish_body_nil wf, simp add: finish_spec_def split: option.split)
  then show ?thesis by (simp add: finish_def split: option.split)
qed

end
