(* ===== verification/StoreRun.thy ===== *)
theory StoreRun
  imports StoreSpec "HOL-Library.Sublist"
begin

text \<open>
  Executions of the store: the public operations as calls, one step per call by any process
  that holds the file (a call that returns or raises, and a process that dies before or after
  its commit), and the order in which the contents grow. \<^verbatim>\<open>BEGIN IMMEDIATE\<close> lets one writer in at
  a time, so the calls of several processes interleave whole.
\<close>

section \<open>Calls\<close>

datatype call =
    OpenCall "unit result" string
  | IngestCall string string int int string
  | ReserveCall string string string string "string list"
  | PrepareCall string string int string
  | BroadcastCall string string string
  | FinishCall string string string string

definition acked :: "(exn + unit) \<times> db \<Rightarrow> (exn + bool) \<times> db" where
  "acked rs = (case rs of (Inl e, s) \<Rightarrow> (Inl e, s) | (Inr u, s) \<Rightarrow> (Inr True, s))"

fun run_call :: "bool list \<Rightarrow> call \<Rightarrow> db \<Rightarrow> (exn + bool) \<times> db" where
  "run_call p (OpenCall mkdir path) s = acked (open_store p mkdir path s)"
| "run_call p (IngestCall source e q b x) s = ingest p source e q b x s"
| "run_call p (ReserveCall now at i c es) s = reserve p now at i c es s"
| "run_call p (PrepareCall at i n fee) s = acked (prepare p at i n fee s)"
| "run_call p (BroadcastCall at i h) s = acked (broadcast p at i h s)"
| "run_call p (FinishCall at i out ev) s = acked (finish p at i out ev s)"

text \<open>The reply of a step: what the caller sees, or nothing when its process died.\<close>

inductive store_step :: "db \<Rightarrow> call \<Rightarrow> (exn + bool) option \<Rightarrow> db \<Rightarrow> bool" where
  replied: "run_call p c s = (r, s') \<Longrightarrow> store_step s c (Some r) s'"
| died_before_commit: "store_step s c None s"
| died_after_commit: "run_call [] c s = (Inr x, s') \<Longrightarrow> store_step s c None s'"

inductive store_run :: "db \<Rightarrow> (call \<times> (exn + bool) option) list \<Rightarrow> db \<Rightarrow> bool" where
  store_run_nil: "store_run s [] s"
| store_run_snoc: "store_run s tr t \<Longrightarrow> store_step t c r u \<Longrightarrow> store_run s (tr @ [(c, r)]) u"

definition store_reachable :: "db \<Rightarrow> bool" where
  "store_reachable s \<longleftrightarrow> (\<exists>tr. store_run empty_db tr s)"

inductive_cases store_step_repliedE: "store_step s c (Some r) s'"

section \<open>Every call is all or nothing\<close>

definition atomic_op :: "(bool list \<Rightarrow> db \<Rightarrow> (exn + 'a) \<times> db) \<Rightarrow> bool" where
  "atomic_op op \<longleftrightarrow> (\<forall>p s r s'. op p s = (r, s') \<longrightarrow>
     (\<exists>e. r = Inl e \<and> s' = s) \<or> (\<exists>x. r = Inr x \<and> op [] s = (Inr x, s')))"

named_theorems atomic

lemma atomic_opD:
  "atomic_op op \<Longrightarrow> op p s = (r, s') \<Longrightarrow>
   (\<exists>e. r = Inl e \<and> s' = s) \<or> (\<exists>x. r = Inr x \<and> op [] s = (Inr x, s'))"
  by (simp add: atomic_op_def)

lemma atomic_transaction [atomic]:
  "fault_transparent body \<Longrightarrow> atomic_op (\<lambda>p s. transaction body p s)"
  unfolding atomic_op_def by (blast dest: transaction_atomic)

lemma atomic_raise [atomic]: "atomic_op (\<lambda>p s. (Inl e, s))"
  by (simp add: atomic_op_def)

lemma atomic_if [atomic]:
  "atomic_op f \<Longrightarrow> atomic_op g \<Longrightarrow> atomic_op (\<lambda>p s. if b then f p s else g p s)"
  by (simp add: atomic_op_def)

lemma atomic_sum [atomic]:
  "(\<And>e. atomic_op (f e)) \<Longrightarrow> (\<And>x. atomic_op (g x)) \<Longrightarrow>
   atomic_op (\<lambda>p s. case z of Inl e \<Rightarrow> f e p s | Inr x \<Rightarrow> g x p s)"
  by (simp add: atomic_op_def split: sum.split)

lemma atomic_option [atomic]:
  "atomic_op f \<Longrightarrow> (\<And>x. atomic_op (g x)) \<Longrightarrow>
   atomic_op (\<lambda>p s. case z of None \<Rightarrow> f p s | Some x \<Rightarrow> g x p s)"
  by (simp add: atomic_op_def split: option.split)

lemma atomic_acked [atomic]:
  assumes "atomic_op op"
  shows "atomic_op (\<lambda>p s. acked (op p s))"
  unfolding atomic_op_def
proof (intro allI impI)
  fix p s r s'
  assume run: "acked (op p s) = (r, s')"
  obtain q t where "op p s = (q, t)" by fastforce
  with run atomic_opD [OF assms this] show
    "(\<exists>e. r = Inl e \<and> s' = s) \<or> (\<exists>x. r = Inr x \<and> acked (op [] s) = (Inr x, s'))"
    by (auto simp: acked_def)
qed

lemma atomic_open_store [atomic]: "atomic_op (\<lambda>p s. open_store p m path s)"
  unfolding atomic_op_def
proof (intro allI impI)
  fix p s r s'
  assume run: "open_store p m path s = (r, s')"
  let ?b = "bind_cmd (of_result m) (\<lambda>_. bind_cmd open_connection (\<lambda>_. open_body))"
  have ft: "fault_transparent ?b"
    unfolding open_connection_def open_body_def begin_immediate_def commit_def
    by (intro transparent)
  show "(\<exists>e. r = Inl e \<and> s' = s) \<or> (\<exists>x. r = Inr x \<and> open_store [] m path s = (Inr x, s'))"
  proof (cases "\<exists>x c. path \<noteq> '':memory:'' \<and> ?b \<lparr>work = s, plan = p\<rparr> = (Inr x, c)")
    case True
    then obtain x c where x: "path \<noteq> '':memory:''" "?b \<lparr>work = s, plan = p\<rparr> = (Inr x, c)" by blast
    with ft have "?b \<lparr>work = s, plan = []\<rparr> = (Inr x, c\<lparr>plan := []\<rparr>)"
      unfolding fault_transparent_def by fastforce
    with x run show ?thesis by (auto simp: open_store_def)
  next
    case False
    with run show ?thesis by (auto simp: open_store_def split: prod.splits sum.splits if_splits)
  qed
qed

lemma atomic_ops [atomic]:
  "atomic_op (\<lambda>p s. ingest p source e q b x s)"
  "atomic_op (\<lambda>p s. reserve p now at i c es s)"
  "atomic_op (\<lambda>p s. prepare p at i n fee s)"
  "atomic_op (\<lambda>p s. broadcast p at i h s)"
  "atomic_op (\<lambda>p s. finish p at i out ev s)"
  unfolding ingest_def reserve_def prepare_def broadcast_def finish_def
  by (intro atomic transparent)+

lemma atomic_run_call: "atomic_op (\<lambda>p s. run_call p c s)"
  by (cases c) (simp_all only: run_call.simps atomic)

section \<open>The lifecycle of an intent\<close>

text \<open>What the guards of \<^verbatim>\<open>prepare\<close>, \<^verbatim>\<open>broadcast\<close> and \<^verbatim>\<open>finish\<close> let through, by status alone.\<close>

inductive lifecycle :: "status \<Rightarrow> status \<Rightarrow> bool" where
  to_prepared: "lifecycle Reserved Prepared"
| to_broadcast: "lifecycle Prepared Broadcast"
| already_desired: "lifecycle Reserved AlreadyDesired"
| to_indeterminate: "unfinished st \<Longrightarrow> lifecycle st Indeterminate"
| receipt: "st \<in> {Broadcast, Indeterminate} \<Longrightarrow> out \<in> {Success, Reverted} \<Longrightarrow> lifecycle st out"

inductive_simps lifecycle_from_Reserved: "lifecycle Reserved st"
inductive_simps lifecycle_from_Prepared: "lifecycle Prepared st"
inductive_simps lifecycle_from_Broadcast: "lifecycle Broadcast st"
inductive_simps lifecycle_from_Indeterminate: "lifecycle Indeterminate st"
inductive_simps lifecycle_to_Reserved: "lifecycle st Reserved"

code_pred lifecycle .

fun status_rank :: "status \<Rightarrow> nat" where
  "status_rank Reserved = 0"
| "status_rank Prepared = 1"
| "status_rank Broadcast = 2"
| "status_rank Indeterminate = 3"
| "status_rank st = 4"

lemma lifecycle_rank:
  "lifecycle st st' \<Longrightarrow> status_rank st < status_rank st' \<or> st = Indeterminate \<and> st' = Indeterminate"
  by (induction rule: lifecycle.induct) (auto simp: unfinished_def)

lemma lifecycle_star_rank: "lifecycle\<^sup>*\<^sup>* st st' \<Longrightarrow> status_rank st \<le> status_rank st'"
proof (induction rule: rtranclp_induct)
  case (step y z)
  then show ?case using lifecycle_rank [of y z] by auto
qed simp

lemma lifecycle_star_terminal: "lifecycle\<^sup>*\<^sup>* st st' \<Longrightarrow> \<not> unfinished st \<Longrightarrow> st' = st"
  by (induction rule: rtranclp_induct) (auto simp: unfinished_def elim: lifecycle.cases)

section \<open>How the contents grow\<close>

text \<open>
  The order of every execution: rows are only appended, an event keeps its owner, a raised latch
  stays raised, and an intent's row moves along the lifecycle with its nonce, fee data and
  transaction hash fixed once written, and does not change at all once it is finished.
\<close>

definition kept :: "'a option \<Rightarrow> 'a option \<Rightarrow> bool" where
  "kept x y \<longleftrightarrow> x = None \<or> y = x"

definition row_grows :: "intent_row \<Rightarrow> intent_row \<Rightarrow> bool" where
  "row_grows r r' \<longleftrightarrow> lifecycle\<^sup>*\<^sup>* (in_status r) (in_status r') \<and> kept (in_nonce r) (in_nonce r')
     \<and> kept (in_fee r) (in_fee r') \<and> kept (in_tx r) (in_tx r')
     \<and> in_incident r' = in_incident r \<and> in_created r' = in_created r
     \<and> (\<not> unfinished (in_status r) \<longrightarrow> r' = r)
     \<and> (2 \<le> status_rank (in_status r) \<longrightarrow> in_tx r' = in_tx r)"

definition grows :: "db \<Rightarrow> db \<Rightarrow> bool" where
  "grows s s' \<longleftrightarrow>
     prefix (events s) (events s') \<and> prefix (incidents s) (incidents s')
     \<and> prefix (intent_events s) (intent_events s') \<and> prefix (outbox s) (outbox s')
     \<and> prefix (audit s) (audit s') \<and> (latch s \<noteq> None \<longrightarrow> latch s' \<noteq> None)
     \<and> (\<forall>i r. map_of (intents s) i = Some r \<longrightarrow>
          (\<exists>r'. map_of (intents s') i = Some r' \<and> row_grows r r'))"

lemma row_grows_refl: "row_grows r r"
  by (simp add: row_grows_def kept_def)

lemma kept_trans: "kept x y \<Longrightarrow> kept y z \<Longrightarrow> kept x z"
  by (auto simp: kept_def)

lemma row_grows_trans:
  assumes ab: "row_grows a b" and bc: "row_grows b c"
  shows "row_grows a c"
proof -
  have "status_rank (in_status a) \<le> status_rank (in_status b)"
    using ab lifecycle_star_rank by (simp add: row_grows_def)
  then have "2 \<le> status_rank (in_status a) \<longrightarrow> in_tx c = in_tx a"
    using ab bc by (simp add: row_grows_def)
  moreover have "\<not> unfinished (in_status a) \<longrightarrow> c = a"
    using ab bc by (auto simp: row_grows_def)
  moreover have "lifecycle\<^sup>*\<^sup>* (in_status a) (in_status c)"
    using ab bc rtranclp_trans unfolding row_grows_def by metis
  ultimately show ?thesis
    using ab bc kept_trans unfolding row_grows_def by metis
qed

lemma grows_refl: "grows s s"
  by (simp add: grows_def row_grows_refl)

lemma grows_trans: "grows a b \<Longrightarrow> grows b c \<Longrightarrow> grows a c"
  unfolding grows_def by (blast intro: prefix_order.trans row_grows_trans)

end
