(* ===== verification/StoreInv.thy ===== *)
theory StoreInv
  imports StoreRun
begin

text \<open>
  The invariant of the store's contents, kept by every operation on every path: unique keys and
  foreign keys, one unfinished intent, columns that agree with the status, the latch, the
  cursors, and an audit trail and an outbox from which the statuses can be replayed.
\<close>

section \<open>The invariant\<close>

definition keys_unique :: "db \<Rightarrow> bool" where
  "keys_unique s \<longleftrightarrow> distinct (map fst (cursors s)) \<and> distinct (map fst (events s))
     \<and> distinct (map fst (incidents s)) \<and> distinct (map fst (intents s))
     \<and> distinct (map fst (intent_events s))"

definition refs_ok :: "db \<Rightarrow> bool" where
  "refs_ok s \<longleftrightarrow> (\<forall>(i, r) \<in> set (intents s). has_key (in_incident r) (incidents s))
     \<and> (\<forall>(e, i) \<in> set (intent_events s). has_key e (events s) \<and> has_key i (intents s))
     \<and> (\<forall>o' \<in> set (outbox s). has_key (ob_intent o') (intents s))"

definition one_unfinished :: "db \<Rightarrow> bool" where
  "one_unfinished s \<longleftrightarrow> (\<forall>(i, r) \<in> set (intents s). \<forall>(j, x) \<in> set (intents s).
     unfinished (in_status r) \<and> unfinished (in_status x) \<longrightarrow> i = j)"

text \<open>A transaction hash as \<^verbatim>\<open>broadcast\<close> accepts it.\<close>

definition hash_ok :: "string \<Rightarrow> bool" where
  "hash_ok h \<longleftrightarrow> length h = 66 \<and> startswith h ''0x'' \<and> (\<exists>v. py_int 16 (drop 2 h) = Inr v)"

definition row_ok :: "intent_row \<Rightarrow> bool" where
  "row_ok r \<longleftrightarrow>
     (case in_status r of
        Reserved \<Rightarrow> in_nonce r = None \<and> in_tx r = None \<and> in_evidence r = None
      | Prepared \<Rightarrow> in_nonce r \<noteq> None \<and> in_tx r = None \<and> in_evidence r = None
      | Broadcast \<Rightarrow> in_nonce r \<noteq> None \<and> in_tx r \<noteq> None \<and> in_evidence r = None
      | Success \<Rightarrow> in_nonce r \<noteq> None \<and> in_tx r \<noteq> None \<and> in_evidence r \<noteq> None
      | Reverted \<Rightarrow> in_nonce r \<noteq> None \<and> in_tx r \<noteq> None \<and> in_evidence r \<noteq> None
      | AlreadyDesired \<Rightarrow> in_nonce r = None \<and> in_tx r = None \<and> in_evidence r \<noteq> None
      | Indeterminate \<Rightarrow> (in_tx r \<noteq> None \<longrightarrow> in_nonce r \<noteq> None) \<and> in_evidence r \<noteq> None)
     \<and> (in_nonce r = None \<longleftrightarrow> in_fee r = None)
     \<and> pred_option (\<lambda>n. 0 \<le> n \<and> n < 2 ^ 63) (in_nonce r)
     \<and> pred_option hash_ok (in_tx r)
     \<and> pred_option (\<lambda>ev. ev \<noteq> []) (in_evidence r)"

definition rows_ok :: "db \<Rightarrow> bool" where
  "rows_ok s \<longleftrightarrow> (\<forall>(i, r) \<in> set (intents s). row_ok r
     \<and> (in_status r = Indeterminate \<longrightarrow> latch s \<noteq> None))"

text \<open>The cursor of a source is the position of its event with the largest sequence.\<close>

definition seq_value :: "string \<Rightarrow> int" where
  "seq_value q = (case py_int 10 q of Inl e \<Rightarrow> -1 | Inr n \<Rightarrow> n)"

definition events_ok :: "db \<Rightarrow> bool" where
  "events_ok s \<longleftrightarrow> (\<forall>(e, r) \<in> set (events s). ev_source r \<noteq> [] \<and> 0 \<le> seq_value (ev_sequence r)
     \<and> 0 \<le> ev_block r \<and> ev_block r < 2 ^ 63)"

definition cursor_ok :: "db \<Rightarrow> string \<Rightarrow> cursor_row \<Rightarrow> bool" where
  "cursor_ok s src c \<longleftrightarrow>
     (\<exists>(e, r) \<in> set (events s). ev_source r = src \<and> ev_sequence r = cu_sequence c
        \<and> ev_block r = cu_block c)
     \<and> (\<forall>(e, r) \<in> set (events s). ev_source r = src \<longrightarrow>
          seq_value (ev_sequence r) \<le> seq_value (cu_sequence c))"

definition cursors_ok :: "db \<Rightarrow> bool" where
  "cursors_ok s \<longleftrightarrow> (\<forall>(src, c) \<in> set (cursors s). cursor_ok s src c)
     \<and> (\<forall>(e, r) \<in> set (events s). has_key (ev_source r) (cursors s))"

text \<open>The transitions the audit trail records for an intent, and the status they lead to.\<close>

definition transitions_of :: "string \<Rightarrow> db \<Rightarrow> string list" where
  "transitions_of i s = map au_transition (filter (\<lambda>a. au_intent a = i) (audit s))"

definition next_status :: "status \<Rightarrow> string \<Rightarrow> status option" where
  "next_status st t =
     (case filter (\<lambda>st'. status_text st' = t \<and> lifecycle st st')
        [Prepared, Broadcast, Success, Reverted, AlreadyDesired, Indeterminate] of
        [] \<Rightarrow> None | st' # sts \<Rightarrow> Some st')"

fun replay :: "status \<Rightarrow> string list \<Rightarrow> status option" where
  "replay st [] = Some st"
| "replay st (t # ts) = (case next_status st t of None \<Rightarrow> None | Some st' \<Rightarrow> replay st' ts)"

definition audit_replays :: "db \<Rightarrow> string \<Rightarrow> status \<Rightarrow> bool" where
  "audit_replays s i st \<longleftrightarrow>
     (\<exists>ts. transitions_of i s = ''reserved'' # ts \<and> replay Reserved ts = Some st)"

definition audit_ok :: "db \<Rightarrow> bool" where
  "audit_ok s \<longleftrightarrow> (\<forall>(i, r) \<in> set (intents s). audit_replays s i (in_status r))
     \<and> (\<forall>a \<in> set (audit s). has_key (au_intent a) (intents s))
     \<and> map au_id (audit s) = map int [1..<Suc (length (audit s))]"

text \<open>One outbox row for each outcome in the audit trail, in the same order.\<close>

definition outcome_message :: "audit_row \<Rightarrow> string \<times> string" where
  "outcome_message a = (au_intent a,
     json_object [(''intent'', au_intent a), (''outcome'', au_transition a)])"

definition outbox_ok :: "db \<Rightarrow> bool" where
  "outbox_ok s \<longleftrightarrow>
     map (\<lambda>o'. (ob_intent o', ob_payload o')) (outbox s)
       = map outcome_message (filter (\<lambda>a. outcome_of (au_transition a) \<noteq> None) (audit s))
     \<and> map ob_id (outbox s) = map int [1..<Suc (length (outbox s))]"

definition store_inv :: "db \<Rightarrow> bool" where
  "store_inv s \<longleftrightarrow> keys_unique s \<and> refs_ok s \<and> one_unfinished s \<and> rows_ok s \<and> events_ok s
     \<and> cursors_ok s \<and> audit_ok s \<and> outbox_ok s"

lemmas inv_defs = keys_unique_def refs_ok_def one_unfinished_def rows_ok_def events_ok_def
  cursors_ok_def audit_ok_def outbox_ok_def

lemma store_inv_empty: "store_inv empty_db"
  by (simp add: store_inv_def inv_defs empty_db_def)

lemma store_inv_keys: "store_inv s \<Longrightarrow> distinct (map fst (intents s))"
  by (simp add: store_inv_def keys_unique_def)

section \<open>Library facts\<close>

lemma has_key_iff: "has_key k t \<longleftrightarrow> k \<in> fst ` set t"
  by (simp add: has_key_def map_of_eq_None_iff)

lemma new_rowid_next: "ids = map int [1..<Suc n] \<Longrightarrow> new_rowid ids = int (Suc n)"
proof -
  have "foldr max (map int [1..<Suc n]) 0 = int n"
  proof (induction n)
    case (Suc n)
    have "foldr max xs (a :: int) = max (foldr max xs 0) a" if "0 \<le> a" for xs a
      using that by (induction xs) auto
    from this [of "int (Suc n)" "map int [1..<Suc n]"] Suc show ?case by simp
  qed simp
  then show "ids = map int [1..<Suc n] \<Longrightarrow> new_rowid ids = int (Suc n)"
    by (simp add: new_rowid_def del: upt_Suc)
qed

lemma replay_snoc:
  "replay st (ts @ [t]) = (case replay st ts of None \<Rightarrow> None | Some st' \<Rightarrow> next_status st' t)"
  by (induction ts arbitrary: st) (auto split: option.split)

lemma next_status_text: "lifecycle st st' \<Longrightarrow> st' \<noteq> Reserved \<Longrightarrow> next_status st (status_text st') = Some st'"
  by (cases st') (simp_all add: next_status_def)

lemma lifecycle_not_Reserved: "lifecycle st st' \<Longrightarrow> st' \<noteq> Reserved"
  by (auto elim: lifecycle.cases)

lemma outcome_of_text:
  "outcome_of (status_text st) = (if st \<in> {Success, Reverted, AlreadyDesired, Indeterminate} then Some st else None)"
  by (cases st) (simp_all add: outcome_of_def)

lemma outcome_of_cases: "outcome_of t = Some out \<Longrightarrow>
  out \<in> {Success, Reverted, AlreadyDesired, Indeterminate} \<and> status_text out = t"
  by (auto simp: outcome_of_def split: if_splits)

section \<open>Advancing one intent\<close>

text \<open>
  \<open>prepare\<close>, \<open>broadcast\<close> and \<open>finish\<close> all replace the row of one intent, append its audit row
  and, for an outcome, an outbox row: one lemma per part of the invariant serves the three.
\<close>

definition advance :: "string \<Rightarrow> string \<Rightarrow> intent_row \<Rightarrow> string \<Rightarrow> string option \<Rightarrow> db \<Rightarrow> db" where
  "advance at i r' x l s =
     (let d = log_audit at i (status_text (in_status r')) x ((put_intent i r' s)\<lparr>latch := l\<rparr>)
      in if outcome_of (status_text (in_status r')) \<noteq> None
         then queue_outcome i (in_status r') d else d)"

lemmas advance_defs = advance_def log_audit_def put_intent_def queue_outcome_def

lemma advance_fields:
  "cursors (advance at i r' x l s) = cursors s"
  "events (advance at i r' x l s) = events s"
  "incidents (advance at i r' x l s) = incidents s"
  "intent_events (advance at i r' x l s) = intent_events s"
  "intents (advance at i r' x l s) = map (\<lambda>(k, y). (k, if k = i then r' else y)) (intents s)"
  "latch (advance at i r' x l s) = l"
  "audit (advance at i r' x l s) = audit s @ [\<lparr>au_id = new_rowid (map au_id (audit s)),
     au_at = at, au_intent = i, au_transition = status_text (in_status r'), au_detail = x\<rparr>]"
  by (simp_all add: advance_defs Let_def)

lemma advance_outbox:
  "outbox (advance at i r' x l s) = outbox s @
     (if outcome_of (status_text (in_status r')) = None then []
      else [\<lparr>ob_id = new_rowid (map ob_id (outbox s)), ob_intent = i,
             ob_payload = json_object [(''intent'', i), (''outcome'', status_text (in_status r'))],
             ob_status = ''pending'', ob_attempts = 0, ob_next = None, ob_error = None\<rparr>])"
  by (simp add: advance_defs Let_def)

lemma map_fst_put: "map fst (map (\<lambda>(k, y). (k, if k = i then r' else y)) t) = map fst t"
  by (induction t) auto

lemma transitions_of_advance:
  "transitions_of k (advance at i r' x l s) =
     transitions_of k s @ (if k = i then [status_text (in_status r')] else [])"
  by (simp add: transitions_of_def advance_fields)

lemma has_key_advance: "has_key k (intents (advance at i r' x l s)) = has_key k (intents s)"
  by (simp add: advance_fields has_key_put)

lemma in_intents_advance:
  assumes "(k, y) \<in> set (intents (advance at i r' x l s))"
  shows "k = i \<and> y = r' \<or> k \<noteq> i \<and> (k, y) \<in> set (intents s)"
  using assms by (auto simp: advance_fields split: if_splits)

definition advances :: "db \<Rightarrow> string \<Rightarrow> intent_row \<Rightarrow> intent_row \<Rightarrow> string option \<Rightarrow> bool" where
  "advances s i r r' l \<longleftrightarrow> store_inv s \<and> map_of (intents s) i = Some r
     \<and> lifecycle (in_status r) (in_status r') \<and> row_ok r' \<and> row_grows r r'
     \<and> (latch s \<noteq> None \<or> in_status r' = Indeterminate \<longrightarrow> l \<noteq> None)"

lemma advancesD:
  assumes "advances s i r r' l"
  shows "store_inv s" and "map_of (intents s) i = Some r"
    and "lifecycle (in_status r) (in_status r')" and "row_ok r'" and "row_grows r r'"
    and "latch s \<noteq> None \<or> in_status r' = Indeterminate \<Longrightarrow> l \<noteq> None"
    and "unfinished (in_status r)" and "(i, r) \<in> set (intents s)" and "has_key i (intents s)"
  using assms
  by (auto simp: advances_def unfinished_def has_key_def elim: lifecycle.cases dest: map_of_SomeD)

lemma keys_unique_advance:
  assumes adv: "advances s i r r' l"
  shows "keys_unique (advance at i r' x l s)"
  using advancesD(1) [OF adv] by (simp add: store_inv_def keys_unique_def advance_fields map_fst_put del: map_map)

lemma refs_ok_advance:
  assumes adv: "advances s i r r' l"
  shows "refs_ok (advance at i r' x l s)"
proof -
  have inc: "has_key (in_incident r') (incidents s)"
    using advancesD(1) [OF adv] advancesD(8) [OF adv] advancesD(5) [OF adv] by (force simp: store_inv_def refs_ok_def row_grows_def)
  have key: "has_key i (intents s)" by (rule advancesD(9) [OF adv])
  from advancesD(1) [OF adv] inc key show ?thesis
    unfolding store_inv_def refs_ok_def
    by (auto simp: has_key_advance advance_outbox advance_fields(2,3,4) split: prod.splits
        dest!: in_intents_advance)
qed

lemma one_unfinished_advance:
  assumes adv: "advances s i r r' l"
  shows "one_unfinished (advance at i r' x l s)"
proof -
  have others: "\<not> unfinished (in_status y)" if "(k, y) \<in> set (intents s)" "k \<noteq> i" for k y
    using advancesD(1) [OF adv] that advancesD(8) [OF adv] advancesD(7) [OF adv] by (fastforce simp: store_inv_def one_unfinished_def)
  show ?thesis
    unfolding one_unfinished_def using others by (auto dest!: in_intents_advance)
qed

lemma rows_ok_advance:
  assumes adv: "advances s i r r' l"
  shows "rows_ok (advance at i r' x l s)"
  using advancesD(1) [OF adv] advancesD(4) [OF adv] advancesD(6) [OF adv]
  by (auto simp: rows_ok_def store_inv_def advance_fields(6) dest!: in_intents_advance)

lemma cursors_ok_advance:
  assumes adv: "advances s i r r' l"
  shows "events_ok (advance at i r' x l s) \<and> cursors_ok (advance at i r' x l s)"
  using advancesD(1) [OF adv] by (simp add: store_inv_def events_ok_def cursors_ok_def cursor_ok_def advance_fields)

lemma audit_ok_advance:
  assumes adv: "advances s i r r' l"
  shows "audit_ok (advance at i r' x l s)"
proof -
  have old: "audit_ok s" using advancesD(1) [OF adv] by (simp add: store_inv_def)
  have "audit_replays (advance at i r' x l s) i (in_status r')"
  proof -
    obtain ts where "transitions_of i s = ''reserved'' # ts" "replay Reserved ts = Some (in_status r)"
      using old advancesD(8) [OF adv] by (fastforce simp: audit_ok_def audit_replays_def)
    with advancesD(3) [OF adv] show ?thesis
      by (auto simp: audit_replays_def transitions_of_advance replay_snoc
          next_status_text lifecycle_not_Reserved)
  qed
  moreover have "audit_replays (advance at i r' x l s) k st = audit_replays s k st" if "k \<noteq> i" for k st
    using that by (simp add: audit_replays_def transitions_of_advance)
  ultimately have "\<forall>(k, y) \<in> set (intents (advance at i r' x l s)).
      audit_replays (advance at i r' x l s) k (in_status y)"
    using old by (auto simp: audit_ok_def dest!: in_intents_advance)
  moreover have "has_key i (intents s)" by (rule advancesD(9) [OF adv])
  ultimately show ?thesis
    using old
    by (simp add: audit_ok_def has_key_advance advance_fields(7) new_rowid_next del: upt_Suc)
      (simp add: upt_Suc_append)
qed

lemma outbox_ok_advance:
  assumes adv: "advances s i r r' l"
  shows "outbox_ok (advance at i r' x l s)"
  using advancesD(1) [OF adv] unfolding store_inv_def outbox_ok_def
  by (simp add: advance_outbox advance_fields(7) new_rowid_next outcome_message_def del: upt_Suc)
    (simp add: upt_Suc_append)

lemma advance_inv:
  assumes adv: "advances s i r r' l"
  shows "store_inv (advance at i r' x l s)"
  unfolding store_inv_def
  using keys_unique_advance [OF adv] refs_ok_advance [OF adv] one_unfinished_advance [OF adv]
    rows_ok_advance [OF adv] cursors_ok_advance [OF adv] audit_ok_advance [OF adv]
    outbox_ok_advance [OF adv]
  by simp

lemma advance_grows:
  assumes adv: "advances s i r r' l"
  shows "grows s (advance at i r' x l s)"
  using advancesD(2) [OF adv] advancesD(5) [OF adv] advancesD(6) [OF adv]
  by (auto simp: grows_def advance_fields advance_outbox row_grows_refl
      map_of_map_values [of "\<lambda>k y. if k = i then r' else y"])

section \<open>Prepare, broadcast, finish\<close>

lemma put_intent_latch: "(put_intent i r s)\<lparr>latch := latch s\<rparr> = put_intent i r s"
  by (simp add: put_intent_def)

lemma log_put_advance:
  "t = status_text (in_status r') \<Longrightarrow> outcome_of (status_text (in_status r')) = None \<Longrightarrow>
   log_audit at i t x (put_intent i r' s) = advance at i r' x (latch s) s"
  by (simp add: advance_def put_intent_latch)

lemma prepare_success:
  assumes inv: "store_inv s" and run: "prepare [] at i n fee s = (Inr u, s')"
  obtains r where "map_of (intents s) i = Some r" and "in_status r = Reserved"
    and "0 \<le> n" and "sql_int n = Inr n"
    and "s' = advance at i (r\<lparr>in_status := Prepared, in_nonce := Some n, in_fee := Some fee\<rparr>)
                ''nonce and fee data persisted'' (latch s) s"
proof -
  have n: "0 \<le> n" and run': "prepare_spec at i n fee s = (Inr u, s')"
    using run by (auto simp: prepare_nil store_inv_keys [OF inv] split: if_splits)
  from run' n that show thesis
    by (auto simp: prepare_spec_def sql_int_def log_put_advance outcome_of_def
        split: sum.splits option.splits if_splits)
qed

lemma prepare_advances:
  "store_inv s \<Longrightarrow> map_of (intents s) i = Some r \<Longrightarrow> in_status r = Reserved \<Longrightarrow> 0 \<le> n \<Longrightarrow>
   sql_int n = Inr n \<Longrightarrow>
   advances s i r (r\<lparr>in_status := Prepared, in_nonce := Some n, in_fee := Some fee\<rparr>) (latch s)"
  by (auto simp: advances_def row_ok_def row_grows_def kept_def lifecycle_from_Reserved store_inv_def
      rows_ok_def sql_int_def unfinished_def split: if_splits dest!: map_of_SomeD bspec)

lemma broadcast_success:
  assumes inv: "store_inv s" and run: "broadcast [] at i h s = (Inr u, s')"
  obtains r where "map_of (intents s) i = Some r" and "in_status r = Prepared" and "hash_ok h"
    and "s' = advance at i (r\<lparr>in_status := Broadcast, in_tx := Some h\<rparr>) h (latch s) s"
proof -
  have h: "hash_ok h" and run': "broadcast_spec at i h s = (Inr u, s')"
    using run by (auto simp: broadcast_nil store_inv_keys [OF inv] hash_ok_def split: if_splits sum.splits)
  from run' h that show thesis
    by (auto simp: broadcast_spec_def log_put_advance outcome_of_def
        split: option.splits if_splits)
qed

lemma broadcast_advances:
  "store_inv s \<Longrightarrow> map_of (intents s) i = Some r \<Longrightarrow> in_status r = Prepared \<Longrightarrow> hash_ok h \<Longrightarrow>
   advances s i r (r\<lparr>in_status := Broadcast, in_tx := Some h\<rparr>) (latch s)"
  by (auto simp: advances_def row_ok_def row_grows_def kept_def lifecycle_from_Prepared store_inv_def
      rows_ok_def unfinished_def dest!: map_of_SomeD bspec)

lemma finished_db_advance:
  "outcome_of (status_text out) \<noteq> None \<Longrightarrow>
   finished_db at i out ev r s =
     advance at i (r\<lparr>in_status := out, in_evidence := Some ev\<rparr>) ev
       (if out = Indeterminate then Some ev else latch s) s"
  by (simp add: finished_db_def advance_def)

lemma finish_success:
  assumes inv: "store_inv s" and run: "finish [] at i outcome ev s = (Inr u, s')"
  obtains r out where "outcome_of outcome = Some out" and "ev \<noteq> []"
    and "map_of (intents s) i = Some r" and "finish_guard out r = None"
    and "s' = advance at i (r\<lparr>in_status := out, in_evidence := Some ev\<rparr>) ev
                (if out = Indeterminate then Some ev else latch s) s"
proof -
  obtain out where out: "outcome_of outcome = Some out" "ev \<noteq> []"
    and run': "finish_spec at i out ev s = (Inr u, s')"
    using run by (auto simp: finish_nil store_inv_keys [OF inv] split: option.splits if_splits)
  have "outcome_of (status_text out) \<noteq> None" using out(1) outcome_of_cases by fastforce
  from run' finished_db_advance [OF this] out that show thesis
    by (auto simp: finish_spec_def split: option.splits)
qed

lemma finish_guard_lifecycle:
  "finish_guard out r = None \<Longrightarrow> out \<in> {Success, Reverted, AlreadyDesired, Indeterminate} \<Longrightarrow>
   lifecycle (in_status r) out"
  by (auto simp: finish_guard_def lifecycle.simps split: if_splits)

lemma finish_advances:
  assumes inv: "store_inv s" and row: "map_of (intents s) i = Some r"
    and guard: "finish_guard out r = None" and out: "outcome_of outcome = Some out" and ev: "ev \<noteq> []"
  shows "advances s i r (r\<lparr>in_status := out, in_evidence := Some ev\<rparr>)
           (if out = Indeterminate then Some ev else latch s)"
proof -
  have o4: "out \<in> {Success, Reverted, AlreadyDesired, Indeterminate}"
    using outcome_of_cases [OF out] by simp
  have "row_ok r" using inv row by (fastforce simp: store_inv_def rows_ok_def dest: map_of_SomeD)
  then have "row_ok (r\<lparr>in_status := out, in_evidence := Some ev\<rparr>)"
    using guard o4 ev
    by (auto simp: row_ok_def finish_guard_def unfinished_def split: if_splits status.splits)
  moreover have "unfinished (in_status r)" using guard by (simp add: finish_guard_def split: if_splits)
  ultimately show ?thesis
    using assms finish_guard_lifecycle [OF guard o4] by (auto simp: advances_def row_grows_def kept_def)
qed

section \<open>Ingestion\<close>

lemma ingest_success:
  assumes run: "ingest [] source e q b x s = (Inr y, s')"
  obtains "y = False" and "s' = s"
  | t where "y" and "map_of (events s) e = None" and "source \<noteq> []" and "0 \<le> q" and "0 \<le> b" and "b < 2 ^ 63"
      and "py_str q = Inr t"
      and "advance_cursor source q t b (s\<lparr>events := events s @ [(e, \<lparr>ev_source = source,
             ev_sequence = t, ev_block = b, ev_payload = x\<rparr>)]\<rparr>) = Inr s'"
proof -
  have run': "ingest_spec source e q b x s = (Inr y, s')" and "source \<noteq> []" "0 \<le> q" "0 \<le> b"
    using run by (auto simp: ingest_nil split: if_splits)
  with that show thesis
    by (auto simp: ingest_spec_def sql_int_def split: option.splits sum.splits if_splits)
qed

lemma in_alist_update:
  assumes "distinct (map fst t)"
  shows "(k', v') \<in> set (AList.update k v t) \<longleftrightarrow> (if k' = k then v' = v else (k', v') \<in> set t)"
proof -
  have "distinct (map fst (AList.update k v t))" using assms by (rule distinct_update)
  then have "(k', v') \<in> set (AList.update k v t) \<longleftrightarrow> map_of (AList.update k v t) k' = Some v'"
    by (rule in_set_map_of)
  also have "\<dots> \<longleftrightarrow> (if k' = k then v' = v else map_of t k' = Some v')"
    by (auto simp: update_conv')
  finally show ?thesis using in_set_map_of [OF assms] by simp
qed

lemma seq_value_py_str: "py_str q = Inr t \<Longrightarrow> seq_value t = q"
  by (simp add: seq_value_def py_int_py_str)

lemma has_key_update: "has_key k (AList.update k' v t) \<longleftrightarrow> k = k' \<or> has_key k t"
  by (auto simp: has_key_def update_conv')

text \<open>The new event and the cursor after it.\<close>

lemma advance_cursor_cases:
  assumes "advance_cursor source q t b d = Inr d'"
  obtains (moved) "map_of (cursors d) source = None \<or>
      (\<exists>c n. map_of (cursors d) source = Some c \<and> py_int 10 (cu_sequence c) = Inr n \<and> n < q)"
    and "d' = d\<lparr>cursors := AList.update source \<lparr>cu_sequence = t, cu_block = b\<rparr> (cursors d)\<rparr>"
  | (behind) c n where "map_of (cursors d) source = Some c" and "py_int 10 (cu_sequence c) = Inr n"
    and "q \<le> n" and "d' = d"
  using assms by (auto simp: advance_cursor_def Let_def split: option.splits sum.splits if_splits)

lemma advance_cursor_shape:
  assumes keys: "distinct (map fst (cursors d))" and run: "advance_cursor source q t b d = Inr d'"
  shows "\<exists>cs. d' = d\<lparr>cursors := cs\<rparr> \<and> distinct (map fst cs)"
  using run
proof (cases rule: advance_cursor_cases)
  case moved
  then show ?thesis using distinct_update [OF keys] by blast
next
  case (behind c n)
  then have "d' = d\<lparr>cursors := cursors d\<rparr>" by simp
  with keys show ?thesis by blast
qed

lemma cursors_ok_ingest:
  assumes keys: "distinct (map fst (cursors s))" and ok: "cursors_ok s"
    and new: "ev_source r = source" "ev_sequence r = t" "ev_block r = b" and t: "py_str q = Inr t"
    and run: "advance_cursor source q t b (s\<lparr>events := events s @ [(e, r)]\<rparr>) = Inr s'"
  shows "cursors_ok s'"
  using run
proof (cases rule: advance_cursor_cases)
  case moved
  have old: "\<forall>(e, r) \<in> set (events s). ev_source r = source \<longrightarrow> seq_value (ev_sequence r) \<le> q"
  proof (cases "map_of (cursors s) source")
    case None
    with ok show ?thesis by (fastforce simp: cursors_ok_def has_key_def)
  next
    case (Some c)
    with moved ok have "seq_value (cu_sequence c) < q" "cursor_ok s source c"
      by (auto simp: seq_value_def cursors_ok_def dest: map_of_SomeD)
    then show ?thesis by (fastforce simp: cursor_ok_def)
  qed
  have "cursor_ok s' src c" if c: "(src, c) \<in> set (cursors s')" for src c
  proof (cases "src = source")
    case True
    with c old new t moved(2) show ?thesis
      by (auto simp: cursor_ok_def in_alist_update keys seq_value_py_str)
  next
    case False
    with c have "cursor_ok s src c"
      using ok by (auto simp: cursors_ok_def moved(2) in_alist_update keys)
    with False new moved(2) show ?thesis by (auto simp: cursor_ok_def)
  qed
  moreover have "\<forall>(e, r) \<in> set (events s'). has_key (ev_source r) (cursors s')"
    using ok new moved(2) by (auto simp: cursors_ok_def has_key_update)
  ultimately show ?thesis by (auto simp: cursors_ok_def)
next
  case (behind c n)
  then have "seq_value t \<le> seq_value (cu_sequence c)"
    using t by (simp add: seq_value_py_str) (simp add: seq_value_def)
  moreover have "c' = c" if "(source, c') \<in> set (cursors s)" for c'
    using key_row [OF keys, of source c c'] behind(1) that by simp
  moreover have "has_key source (cursors s)" using behind(1) by (simp add: has_key_def)
  ultimately show ?thesis
    using ok new behind(4) by (fastforce simp: cursors_ok_def cursor_ok_def)
qed

lemma ingest_keeps:
  assumes inv: "store_inv s" and run: "ingest [] source e q b x s = (Inr y, s')"
  shows "store_inv s' \<and> grows s s'"
  using run
proof (cases rule: ingest_success)
  case 1
  with inv show ?thesis by (simp add: grows_refl)
next
  case (2 t)
  let ?r = "\<lparr>ev_source = source, ev_sequence = t, ev_block = b, ev_payload = x\<rparr>"
  obtain cs where s': "s' = s\<lparr>events := events s @ [(e, ?r)], cursors := cs\<rparr>"
    and cs: "distinct (map fst cs)"
    using advance_cursor_shape [OF _ 2(8)] inv by (auto simp: store_inv_def keys_unique_def)
  have "cursors_ok s'"
    using inv cursors_ok_ingest [OF _ _ _ _ _ 2(7) 2(8)] by (simp add: store_inv_def keys_unique_def)
  moreover have "e \<notin> fst ` set (events s)" using 2(2) by (simp add: map_of_eq_None_iff)
  ultimately have "store_inv s'"
    using inv 2 cs unfolding store_inv_def
    by (auto simp: inv_defs s' seq_value_py_str audit_replays_def transitions_of_def)
  moreover have "grows s s'" by (simp add: grows_def s' row_grows_refl)
  ultimately show ?thesis ..
qed

section \<open>Reservation\<close>

lemma reserve_success:
  assumes run: "reserve [] now at i c es s = (Inr y, s')"
  obtains "y = False" and "s' = s"
  | "y" and "i \<noteq> []" and "c \<noteq> []" and "es \<noteq> []" and "distinct es" and "latch s = None"
    and "\<not> any_unfinished s" and "\<not> has_key i (intents s)" and "\<not> has_key c (incidents s)"
    and "\<forall>e \<in> set es. known s e \<and> \<not> owned s e" and "s' = reserved_db now at i c es s"
proof -
  have spec: "reserve_spec now at i c es s = (Inr y, s')"
    and args: "distinct es" "i \<noteq> []" "c \<noteq> []" "es \<noteq> []"
    using run by (simp_all add: reserve_nil split: if_splits)
  show thesis
  proof (cases "latch s \<noteq> None \<or> any_unfinished s \<or> has_key i (intents s)
                \<or> events_free s es \<noteq> Inr True")
    case True
    with spec have "y = False \<and> s' = s"
      by (auto simp: reserve_spec_def split: if_splits sum.splits bool.splits)
    then show ?thesis by (intro that(1)) simp_all
  next
    case False
    with spec have "y \<and> \<not> has_key c (incidents s) \<and> s' = reserved_db now at i c es s"
      by (simp add: reserve_spec_def split: if_splits)
    with False args show ?thesis
      by (intro that(2)) (simp_all add: events_free_True)
  qed
qed

lemma reserved_db_fields:
  "cursors (reserved_db now at i c es s) = cursors s"
  "events (reserved_db now at i c es s) = events s"
  "incidents (reserved_db now at i c es s) =
     incidents s @ [(c, \<lparr>ic_created = now, ic_source_ids = json_string_list es\<rparr>)]"
  "intents (reserved_db now at i c es s) = intents s @ [(i, new_intent c now)]"
  "intent_events (reserved_db now at i c es s) = intent_events s @ map (\<lambda>e. (e, i)) es"
  "latch (reserved_db now at i c es s) = latch s"
  "outbox (reserved_db now at i c es s) = outbox s"
  "audit (reserved_db now at i c es s) = audit s @ [\<lparr>au_id = new_rowid (map au_id (audit s)),
     au_at = at, au_intent = i, au_transition = ''reserved'',
     au_detail = ''storage exclusivity passed; policy is external''\<rparr>]"
  by (simp_all add: reserved_db_def log_audit_def)

lemma transitions_of_reserved:
  "transitions_of k (reserved_db now at i c es s) =
     transitions_of k s @ (if k = i then [''reserved''] else [])"
  by (simp add: transitions_of_def reserved_db_fields)

lemma no_trail: "audit_ok s \<Longrightarrow> \<not> has_key i (intents s) \<Longrightarrow> transitions_of i s = []"
  by (auto simp: transitions_of_def audit_ok_def filter_empty_conv)

lemma audit_ok_reserved:
  assumes ok: "audit_ok s" and fresh: "\<not> has_key i (intents s)"
  shows "audit_ok (reserved_db now at i c es s)"
proof -
  let ?d = "reserved_db now at i c es s"
  have "audit_replays ?d k (in_status r)" if mem: "(k, r) \<in> set (intents ?d)" for k r
  proof (cases "k = i")
    case True
    with mem fresh have "r = new_intent c now"
      by (auto simp: reserved_db_fields(4) has_key_iff image_iff)
    with True no_trail [OF ok fresh] show ?thesis
      by (simp add: audit_replays_def transitions_of_reserved new_intent_def)
  next
    case False
    with mem have "(k, r) \<in> set (intents s)" by (simp add: reserved_db_fields(4))
    with ok have "audit_replays s k (in_status r)" by (auto simp: audit_ok_def)
    with False show ?thesis by (simp add: audit_replays_def transitions_of_reserved)
  qed
  with ok show ?thesis
    by (auto simp: audit_ok_def reserved_db_fields(4,8) new_rowid_next simp del: upt_Suc)
      (simp_all add: upt_Suc_append)
qed

lemma reserve_keeps:
  assumes inv: "store_inv s" and run: "reserve [] now at i c es s = (Inr y, s')"
  shows "store_inv s' \<and> grows s s'"
  using run
proof (cases rule: reserve_success)
  case 1
  with inv show ?thesis by (simp add: grows_refl)
next
  case 2
  let ?d = "reserved_db now at i c es s"
  have keys: "keys_unique ?d"
    using inv 2 by (auto simp: store_inv_def keys_unique_def reserved_db_fields has_key_iff owned_def
        comp_def)
  have refs: "refs_ok ?d"
    using inv 2 by (auto simp: store_inv_def refs_ok_def reserved_db_fields known_def new_intent_def
        split: prod.splits)
  have one: "one_unfinished ?d"
    using 2 by (fastforce simp: one_unfinished_def reserved_db_fields any_unfinished_def)
  have rows: "rows_ok ?d"
    using inv 2 by (auto simp: store_inv_def rows_ok_def reserved_db_fields row_ok_def new_intent_def)
  have rest: "events_ok ?d \<and> cursors_ok ?d \<and> outbox_ok ?d"
    using inv by (simp add: store_inv_def events_ok_def cursors_ok_def cursor_ok_def outbox_ok_def
        reserved_db_fields outcome_of_def)
  have "audit_ok ?d" using inv 2 by (simp add: store_inv_def audit_ok_reserved)
  with keys refs one rows rest have "store_inv s'" using 2 by (simp add: store_inv_def)
  moreover have "grows s s'"
    using 2 by (auto simp: grows_def reserved_db_fields row_grows_refl has_key_def split: option.split)
  ultimately show ?thesis ..
qed

section \<open>The contract every operation meets\<close>

text \<open>
  What a client of the store relies on, whatever the operation: it is all or nothing, a
  successful run keeps the invariant, and the contents only grow.
\<close>

locale store_operation =
  fixes op :: "bool list \<Rightarrow> db \<Rightarrow> (exn + 'a) \<times> db"
  assumes all_or_nothing: "atomic_op op"
    and keeps: "store_inv s \<Longrightarrow> op [] s = (Inr x, s') \<Longrightarrow> store_inv s' \<and> grows s s'"
begin

lemma safe_run:
  assumes "store_inv s" and "op p s = (r, s')"
  shows "store_inv s' \<and> grows s s'"
  using atomic_opD [OF all_or_nothing assms(2)] assms(1) keeps by (auto simp: grows_refl)

lemma failure_changes_nothing: "op p s = (Inl e, s') \<Longrightarrow> s' = s"
  using atomic_opD [OF all_or_nothing, of p s "Inl e" s'] by auto

end

interpretation ingest_op: store_operation "\<lambda>p s. ingest p source e q b x s" for source e q b x
  by unfold_locales (auto intro: atomic dest: ingest_keeps)

interpretation reserve_op: store_operation "\<lambda>p s. reserve p now at i c es s" for now at i c es
  by unfold_locales (auto intro: atomic dest: reserve_keeps)

interpretation prepare_op: store_operation "\<lambda>p s. prepare p at i n fee s" for at i n fee
proof unfold_locales
  show "atomic_op (\<lambda>p s. prepare p at i n fee s)" by (intro atomic)
  fix s x s'
  assume inv: "store_inv s" and run: "prepare [] at i n fee s = (Inr x, s')"
  from inv run show "store_inv s' \<and> grows s s'"
    by (rule prepare_success)
      (simp add: advance_inv [OF prepare_advances] advance_grows [OF prepare_advances] inv)
qed

interpretation broadcast_op: store_operation "\<lambda>p s. broadcast p at i h s" for at i h
proof unfold_locales
  show "atomic_op (\<lambda>p s. broadcast p at i h s)" by (intro atomic)
  fix s x s'
  assume inv: "store_inv s" and run: "broadcast [] at i h s = (Inr x, s')"
  from inv run show "store_inv s' \<and> grows s s'"
    by (rule broadcast_success)
      (simp add: advance_inv [OF broadcast_advances] advance_grows [OF broadcast_advances] inv)
qed

interpretation finish_op: store_operation "\<lambda>p s. finish p at i out ev s" for at i out ev
proof unfold_locales
  show "atomic_op (\<lambda>p s. finish p at i out ev s)" by (intro atomic)
  fix s x s'
  assume inv: "store_inv s" and run: "finish [] at i out ev s = (Inr x, s')"
  from inv run show "store_inv s' \<and> grows s s'"
    by (rule finish_success)
      (simp only: advance_inv [OF finish_advances] advance_grows [OF finish_advances] inv simp_thms)
qed

lemma open_store_nil:
  "open_store [] m path s =
     (if path = '':memory:'' then (Inl (ValueError ''In-memory state is not durable''), s)
      else case m of
             Inl e \<Rightarrow> (Inl e, s)
           | Inr u \<Rightarrow>
               if user_version s \<noteq> 0 \<and> user_version s \<noteq> 1
               then (Inl (ValueError ''Unsupported state schema version''), s)
               else (Inr (), s\<lparr>user_version := 1\<rparr>))"
  by (auto simp: open_store_def bind_cmd_def open_connection_def open_body_def migrate_def
      begin_immediate_def commit_def split: sum.split)

interpretation open_op: store_operation "\<lambda>p s. open_store p m path s" for m path
proof unfold_locales
  show "atomic_op (\<lambda>p s. open_store p m path s)" by (intro atomic)
  fix s x s'
  assume inv: "store_inv s" and run: "open_store [] m path s = (Inr x, s')"
  have "s' = s\<lparr>user_version := 1\<rparr>"
    using run by (auto simp: open_store_nil split: if_splits sum.splits)
  with inv show "store_inv s' \<and> grows s s'"
    by (simp add: store_inv_def inv_defs cursor_ok_def audit_replays_def transitions_of_def
        grows_def row_grows_refl)
qed

section \<open>Executions\<close>

lemma acked_eq: "acked op = (r, s') \<Longrightarrow> \<exists>q. op = (q, s')"
  by (auto simp: acked_def split: prod.splits sum.splits)

lemma run_call_safe:
  assumes "store_inv s" and "run_call p c s = (r, s')"
  shows "store_inv s' \<and> grows s s'"
proof (cases c)
  case (IngestCall source e q b x)
  with assms ingest_op.safe_run show ?thesis by fastforce
next
  case (ReserveCall now at i inc es)
  with assms reserve_op.safe_run show ?thesis by fastforce
next
  case (OpenCall m path)
  with assms(2) show ?thesis
    using open_op.safe_run [OF assms(1)] by (auto dest!: acked_eq)
next
  case (PrepareCall at i n fee)
  with assms(2) show ?thesis
    using prepare_op.safe_run [OF assms(1)] by (auto dest!: acked_eq)
next
  case (BroadcastCall at i h)
  with assms(2) show ?thesis
    using broadcast_op.safe_run [OF assms(1)] by (auto dest!: acked_eq)
next
  case (FinishCall at i out ev)
  with assms(2) show ?thesis
    using finish_op.safe_run [OF assms(1)] by (auto dest!: acked_eq)
qed

lemma store_step_safe: "store_step s c r s' \<Longrightarrow> store_inv s \<Longrightarrow> store_inv s' \<and> grows s s'"
  by (induction rule: store_step.induct) (auto simp: grows_refl dest: run_call_safe)

lemma store_run_safe: "store_run s tr s' \<Longrightarrow> store_inv s \<Longrightarrow> store_inv s' \<and> grows s s'"
proof (induction rule: store_run.induct)
  case (store_run_snoc s tr t c r u)
  then show ?case using store_step_safe grows_trans by blast
qed (simp add: grows_refl)

lemma store_reachable_inv: "store_reachable s \<Longrightarrow> store_inv s"
  unfolding store_reachable_def using store_run_safe store_inv_empty by blast

end
