(* ===== verification/StoreSafety.thy ===== *)
theory StoreSafety
  imports StoreInv
begin

text \<open>
  The safety of the durable core: the properties of \<^verbatim>\<open>specs/002-ethonline-sentinel\<close> that its
  storage layer is responsible for, over every execution (any interleaving of calls, any storage
  faults, any crashes), and the abstract ledger the store refines.
\<close>

section \<open>Fault-free runs, for examples\<close>

fun run_calls :: "call list \<Rightarrow> db \<Rightarrow> db" where
  "run_calls [] s = s"
| "run_calls (c # cs) s = run_calls cs (snd (run_call [] c s))"

lemma run_calls_store_run: "store_run s0 tr s \<Longrightarrow> \<exists>tr'. store_run s0 tr' (run_calls cs s)"
proof (induction cs arbitrary: s tr)
  case (Cons c cs)
  have "store_step s c (Some (fst (run_call [] c s))) (snd (run_call [] c s))"
    by (rule replied [of "[]"]) simp
  from store_run_snoc [OF Cons.prems this] Cons.IH show ?case by simp
qed auto

lemma run_calls_reachable: "store_reachable (run_calls cs empty_db)"
  unfolding store_reachable_def by (rule run_calls_store_run [OF store_run_nil])

lemma store_reachable_run: "store_reachable s \<Longrightarrow> store_run s tr s' \<Longrightarrow> store_reachable s'"
proof -
  have "store_run s0 (tr0 @ tr) s'" if "store_run s tr s'" "store_run s0 tr0 s" for s0 tr0
    using that
  proof (induction rule: store_run.induct)
    case (store_run_snoc s tr t c r u)
    then have "store_run s0 ((tr0 @ tr) @ [(c, r)]) u" by (metis store_run.store_run_snoc)
    then show ?case by simp
  qed simp
  then show "store_reachable s \<Longrightarrow> store_run s tr s' \<Longrightarrow> store_reachable s'"
    unfolding store_reachable_def by blast
qed

lemma store_reachable_step: "store_reachable s \<Longrightarrow> store_step s c r s' \<Longrightarrow> store_reachable s'"
  using store_reachable_run [of s "[] @ [(c, r)]" s'] store_run_snoc [OF store_run_nil] by blast

section \<open>What a successful step says\<close>

lemma step_success:
  assumes "store_step s c (Some (Inr x)) s'"
  shows "run_call [] c s = (Inr x, s')"
proof -
  obtain p where "run_call p c s = (Inr x, s')"
    using assms by (auto elim: store_step_repliedE)
  from atomic_opD [OF atomic_run_call this] show ?thesis by simp
qed

lemma acked_Inr: "acked op = (Inr x, s') \<Longrightarrow> op = (Inr (), s') \<and> x"
  by (auto simp: acked_def split: prod.splits sum.splits)

lemma step_reserve:
  assumes "store_step s (ReserveCall now at i c es) (Some (Inr True)) s'"
  shows "latch s = None" and "\<not> any_unfinished s" and "\<not> has_key i (intents s)"
    and "\<forall>e \<in> set es. known s e \<and> \<not> owned s e" and "distinct es"
    and "s' = reserved_db now at i c es s"
proof -
  have "reserve [] now at i c es s = (Inr True, s')" using step_success [OF assms] by simp
  then show "latch s = None" and "\<not> any_unfinished s" and "\<not> has_key i (intents s)"
    and "\<forall>e \<in> set es. known s e \<and> \<not> owned s e" and "distinct es"
    and "s' = reserved_db now at i c es s"
    by (auto elim: reserve_success)
qed

lemma step_prepare:
  assumes inv: "store_inv s" and step: "store_step s (PrepareCall at i n fee) (Some (Inr x)) s'"
  obtains r where "map_of (intents s) i = Some r" and "in_status r = Reserved"
    and "map_of (intents s') i = Some (r\<lparr>in_status := Prepared, in_nonce := Some n, in_fee := Some fee\<rparr>)"
proof -
  have "prepare [] at i n fee s = (Inr (), s')"
    using step_success [OF step] acked_Inr by fastforce
  with inv show thesis
    by (rule prepare_success)
      (use that in \<open>simp add: advance_fields map_of_map_values [of "\<lambda>k y. if k = i then _ else y"]\<close>)
qed

lemma step_finish:
  assumes inv: "store_inv s" and step: "store_step s (FinishCall at i outcome ev) (Some (Inr x)) s'"
  obtains r out where "outcome_of outcome = Some out" and "map_of (intents s) i = Some r"
    and "finish_guard out r = None"
    and "map_of (intents s') i = Some (r\<lparr>in_status := out, in_evidence := Some ev\<rparr>)"
    and "latch s' = (if out = Indeterminate then Some ev else latch s)"
proof -
  have "finish [] at i outcome ev s = (Inr (), s')"
    using step_success [OF step] acked_Inr by fastforce
  with inv show thesis
    by (rule finish_success)
      (use that in \<open>simp add: advance_fields map_of_map_values [of "\<lambda>k y. if k = i then _ else y"]\<close>)
qed

lemma grows_owner:
  "grows s s' \<Longrightarrow> map_of (intent_events s) e = Some i \<Longrightarrow> map_of (intent_events s') e = Some i"
  by (auto simp: grows_def prefix_def map_add_def)

lemma grows_row:
  "grows s s' \<Longrightarrow> map_of (intents s) i = Some r \<Longrightarrow>
   \<exists>r'. map_of (intents s') i = Some r' \<and> row_grows r r'"
  by (simp add: grows_def)

lemma grows_event:
  "grows s s' \<Longrightarrow> map_of (events s) e = Some r \<Longrightarrow> map_of (events s') e = Some r"
  by (auto simp: grows_def prefix_def map_add_def)

section \<open>Properties\<close>

lemma reserved_owner:
  assumes "\<forall>e \<in> set es. \<not> owned s e" and "e \<in> set es"
  shows "map_of (intent_events (reserved_db now at i c es s)) e = Some i"
proof -
  have "map_of (intent_events s) e = None" using assms by (simp add: owned_def has_key_def)
  moreover have "map_of (map (\<lambda>e. (e, i)) es) e = Some i"
    using assms(2) by (induction es) auto
  ultimately show ?thesis by (simp add: reserved_db_fields map_add_def)
qed

text \<open>
  C1. One event, at most one action: once a reservation has succeeded, no reservation that
  succeeds later in any execution, under any storage faults and process deaths and in any
  interleaving of calls, takes one of its events or its intent id again.
\<close>

theorem event_reserved_once:
  assumes reach: "store_reachable s0"
    and first: "store_step s0 (ReserveCall n1 a1 i1 c1 es1) (Some (Inr True)) s1"
    and between: "store_run s1 tr s2"
    and second: "store_step s2 (ReserveCall n2 a2 i2 c2 es2) (Some (Inr True)) s3"
  shows "set es1 \<inter> set es2 = {} \<and> i1 \<noteq> i2"
proof -
  have inv1: "store_inv s1"
    using store_reachable_inv [OF store_reachable_step [OF reach first]] .
  have g: "grows s1 s2" using store_run_safe [OF between inv1] by simp
  note f = step_reserve [OF first] and t = step_reserve [OF second]
  have "owned s2 e" if "e \<in> set es1" for e
  proof -
    have "map_of (intent_events s1) e = Some i1"
      using f(4,6) that by (simp add: reserved_owner)
    from grows_owner [OF g this] show ?thesis by (simp add: owned_def has_key_def)
  qed
  moreover have "has_key i1 (intents s2)"
  proof -
    have "map_of (intents s1) i1 = Some (new_intent c1 n1)"
      using f(3,6) by (simp add: reserved_db_fields has_key_def map_add_def)
    from grows_row [OF g this] show ?thesis by (auto simp: has_key_def)
  qed
  ultimately show ?thesis using t(3,4) by blast
qed

definition demo_ready :: db where
  "demo_ready = run_calls
     [OpenCall (Inr ()) ''state.sqlite3'', IngestCall ''vault'' ''e1'' 7 100 ''{}'',
      IngestCall ''vault'' ''e2'' 9 101 ''{}''] empty_db"

definition demo_hash :: string where
  "demo_hash = ''0x'' @ replicate 64 CHR ''a''"

definition demo_reserve :: call where
  "demo_reserve = ReserveCall ''t1'' ''t2'' ''i1'' ''c1'' [''e1'']"

definition demo_pause :: "call list" where
  "demo_pause = [PrepareCall ''t3'' ''i1'' 4 ''{}'', BroadcastCall ''t4'' ''i1'' demo_hash,
     FinishCall ''t5'' ''i1'' ''success'' ''receipt'']"

definition demo_again :: call where
  "demo_again = ReserveCall ''t6'' ''t7'' ''i2'' ''c2'' [''e2'']"

lemmas demo_defs = demo_ready_def demo_hash_def demo_reserve_def demo_pause_def demo_again_def

lemma demo_steps:
  "fst (run_call [] demo_reserve demo_ready) = Inr True"
  "fst (run_call [] demo_again (run_calls demo_pause (snd (run_call [] demo_reserve demo_ready)))) = Inr True"
  by code_simp+

lemma step_of_value:
  "fst (run_call [] c s) = r \<Longrightarrow> store_step s c (Some r) (snd (run_call [] c s))"
  by (rule replied [of "[]"]) auto

theorem event_reserved_once_witness:
  "store_reachable demo_ready
   \<and> store_step demo_ready demo_reserve (Some (Inr True)) (snd (run_call [] demo_reserve demo_ready))
   \<and> set [''e1''] \<inter> set [''e2''] = {} \<and> ''i1'' \<noteq> ''i2''"
proof -
  have reach: "store_reachable demo_ready"
    unfolding demo_ready_def by (rule run_calls_reachable)
  note first = step_of_value [OF demo_steps(1)] and second = step_of_value [OF demo_steps(2)]
  obtain tr where "store_run (snd (run_call [] demo_reserve demo_ready)) tr
      (run_calls demo_pause (snd (run_call [] demo_reserve demo_ready)))"
    using run_calls_store_run [OF store_run_nil] by blast
  from event_reserved_once [OF reach first [unfolded demo_reserve_def] _ second [unfolded demo_again_def]]
  have "set [''e1''] \<inter> set [''e2''] = {} \<and> ''i1'' \<noteq> ''i2''"
    using \<open>store_run _ tr _\<close> unfolding demo_reserve_def by blast
  with reach first show ?thesis by blast
qed

text \<open>
  C7. The invariant of the file holds in every reachable state: unique and valid keys, at most
  one unfinished intent, nonce, fee data, hash and evidence present exactly as the status says,
  an indeterminate intent only under the latch, cursors at the newest event of their source, an
  audit trail that replays to the stored status and an outbox that mirrors the outcomes.
\<close>

theorem reachable_store_inv: "store_reachable s \<Longrightarrow> store_inv s"
  by (rule store_reachable_inv)

theorem reachable_store_inv_witness:
  "store_reachable (run_calls (demo_reserve # demo_pause) demo_ready)
   \<and> store_inv (run_calls (demo_reserve # demo_pause) demo_ready)"
proof -
  have "store_reachable (run_calls (demo_reserve # demo_pause) demo_ready)"
    using store_reachable_run run_calls_reachable run_calls_store_run [OF store_run_nil]
    unfolding demo_ready_def by blast
  with reachable_store_inv show ?thesis by blast
qed

text \<open>
  C12. Every public operation is one transaction: whichever statement a storage fault hits, a call
  that raises leaves the file as it was, and a call that returns has done exactly what the call
  without faults does.
\<close>

theorem call_all_or_nothing:
  assumes "run_call p c s = (r, s')"
  shows "(case r of Inl e \<Rightarrow> s' = s | Inr x \<Rightarrow> run_call [] c s = (Inr x, s'))"
  using atomic_opD [OF atomic_run_call assms] by auto

theorem call_all_or_nothing_witness:
  "run_call (replicate 12 False @ [True]) demo_reserve demo_ready = (Inl SqliteError, demo_ready)"
proof -
  have v: "fst (run_call (replicate 12 False @ [True]) demo_reserve demo_ready) = Inl SqliteError"
    by code_simp
  obtain r s' where run: "run_call (replicate 12 False @ [True]) demo_reserve demo_ready = (r, s')"
    by fastforce
  from call_all_or_nothing [OF run] v run show ?thesis by simp
qed

lemma reserve_blocked:
  assumes blocked: "any_unfinished s \<or> latch s \<noteq> None"
    and run: "reserve p now at i c es s = (r, s')"
  shows "(r = Inr False \<or> (\<exists>e. r = Inl e)) \<and> s' = s"
proof (cases r)
  case (Inl e)
  with run reserve_op.failure_changes_nothing show ?thesis by blast
next
  case (Inr x)
  with run have "reserve [] now at i c es s = (Inr x, s')"
    using atomic_opD [OF atomic_ops(2) run] by simp
  then show ?thesis using blocked Inr by (auto elim!: reserve_success)
qed



text \<open>
  C2. Uncertainty latches for good: once an outcome has been recorded as indeterminate, the latch
  is up in every later state of every execution and no reservation succeeds again.
\<close>

theorem indeterminate_latches_forever:
  assumes reach: "store_reachable s0"
    and step: "store_step s0 (FinishCall at i ''indeterminate'' ev) (Some (Inr x)) s1"
    and later: "store_run s1 tr s2"
  shows "is_latched [] s2 = Inr True
         \<and> (\<forall>now at' i' c es r s3. store_step s2 (ReserveCall now at' i' c es) (Some r) s3
              \<longrightarrow> r \<noteq> Inr True \<and> s3 = s2)"
proof -
  note inv0 = store_reachable_inv [OF reach]
  have "latch s1 \<noteq> None"
    using inv0 step by (rule step_finish) (simp add: outcome_of_def)
  moreover have "store_inv s1" using store_step_safe [OF step inv0] ..
  ultimately have l: "latch s2 \<noteq> None" using store_run_safe [OF later] by (simp add: grows_def)
  then have "r \<noteq> Inr True \<and> s3 = s2"
    if "store_step s2 (ReserveCall now at' i' c es) (Some r) s3" for now at' i' c es r s3
    using that reserve_blocked [of s2] by (force elim!: store_step_repliedE)
  with l show ?thesis by (simp add: is_latched_def)
qed

definition demo_stuck :: "call list" where
  "demo_stuck = [PrepareCall ''t3'' ''i1'' 4 ''{}'', BroadcastCall ''t4'' ''i1'' demo_hash]"

definition demo_timeout :: call where
  "demo_timeout = FinishCall ''t5'' ''i1'' ''indeterminate'' ''receipt timeout''"

lemma demo_reachable: "store_reachable (run_calls cs demo_ready)"
  using store_reachable_run run_calls_reachable run_calls_store_run [OF store_run_nil]
  unfolding demo_ready_def by blast

theorem indeterminate_latches_forever_witness:
  "is_latched [] (snd (run_call [] demo_timeout (run_calls (demo_reserve # demo_stuck) demo_ready)))
     = Inr True"
proof -
  have "fst (run_call [] demo_timeout (run_calls (demo_reserve # demo_stuck) demo_ready)) = Inr True"
    by code_simp
  from indeterminate_latches_forever [OF demo_reachable step_of_value
      [OF this, unfolded demo_timeout_def] store_run_nil]
  show ?thesis unfolding demo_timeout_def by blast
qed

text \<open>
  C29. No blind second send: once \<^verbatim>\<open>prepare\<close> has stored a nonce for an intent, the nonce and the fee
  data stay in its row in every later state, the intent is never back to reserved, and a second
  \<^verbatim>\<open>prepare\<close> of it raises.
\<close>

theorem prepared_once:
  assumes reach: "store_reachable s0"
    and step: "store_step s0 (PrepareCall at i n fee) (Some (Inr x)) s1"
    and later: "store_run s1 tr s2"
  shows "(\<exists>r. intent_lookup [] i s2 = Inr (Some r) \<and> in_nonce r = Some n \<and> in_fee r = Some fee
             \<and> in_status r \<noteq> Reserved)
         \<and> (\<forall>at' n' fee' a s3. store_step s2 (PrepareCall at' i n' fee') (Some a) s3
              \<longrightarrow> (\<exists>e. a = Inl e) \<and> s3 = s2)"
proof -
  note inv0 = store_reachable_inv [OF reach]
  have inv1: "store_inv s1" and inv2: "store_inv s2" and g: "grows s1 s2"
    using store_step_safe [OF step inv0] store_run_safe [OF later] by auto
  obtain r1 where r1: "map_of (intents s1) i = Some r1" "in_status r1 = Prepared"
      "in_nonce r1 = Some n" "in_fee r1 = Some fee"
    using inv0 step by (rule step_prepare) simp
  from grows_row [OF g r1(1)] obtain r2 where r2: "map_of (intents s2) i = Some r2"
    and rg: "row_grows r1 r2" by blast
  have st: "in_status r2 \<noteq> Reserved"
    using lifecycle_star_rank [of Prepared "in_status r2"] rg r1(2) by (auto simp: row_grows_def)
  have "(\<exists>e. a = Inl e) \<and> s3 = s2"
    if again: "store_step s2 (PrepareCall at' i n' fee') (Some a) s3" for at' n' fee' a s3
  proof (cases a)
    case (Inl e)
    with again show ?thesis
      using atomic_opD [OF atomic_run_call] by (fastforce elim!: store_step_repliedE)
  next
    case (Inr y)
    with again step_prepare [OF inv2] st r2 show ?thesis by fastforce
  qed
  with st r2 rg r1 show ?thesis by (auto simp: intent_lookup_def row_grows_def kept_def)
qed

theorem prepared_once_witness:
  "\<exists>r. intent_lookup [] ''i1'' (run_calls demo_stuck (run_calls [demo_reserve] demo_ready)) = Inr (Some r)
       \<and> in_nonce r = Some 4"
proof -
  let ?c = "PrepareCall ''t3'' ''i1'' 4 ''{}''"
  let ?s = "run_calls [demo_reserve] demo_ready"
  have "fst (run_call [] ?c ?s) = Inr True" by code_simp
  note step = step_of_value [OF this]
  obtain tr where "store_run (snd (run_call [] ?c ?s)) tr
      (run_calls [BroadcastCall ''t4'' ''i1'' demo_hash] (snd (run_call [] ?c ?s)))"
    using run_calls_store_run [OF store_run_nil] by blast
  from prepared_once [OF demo_reachable step this]
  show ?thesis unfolding demo_stuck_def by auto
qed

text \<open>
  Outcomes are final: a finished intent keeps its whole row, status, nonce, hash and evidence,
  in every later state.
\<close>

theorem finished_is_final:
  assumes reach: "store_reachable s" and row: "intent_lookup [] i s = Inr (Some r)"
    and fin: "in_status r \<in> {Success, Reverted, AlreadyDesired}" and later: "store_run s tr s'"
  shows "intent_lookup [] i s' = Inr (Some r)"
proof -
  have "grows s s'" using store_run_safe [OF later store_reachable_inv [OF reach]] by simp
  moreover have "map_of (intents s) i = Some r" using row by (simp add: intent_lookup_def)
  ultimately obtain r' where "map_of (intents s') i = Some r'" "row_grows r r'"
    using grows_row by blast
  with fin show ?thesis by (auto simp: intent_lookup_def row_grows_def unfinished_def)
qed

theorem finished_is_final_witness:
  "map_sum id (map_option in_status)
     (intent_lookup [] ''i1'' (run_calls [demo_again] (run_calls (demo_reserve # demo_pause) demo_ready)))
   = Inr (Some Success)"
proof -
  let ?s = "run_calls (demo_reserve # demo_pause) demo_ready"
  have "map_sum id (map_option in_status) (intent_lookup [] ''i1'' ?s) = Inr (Some Success)"
    by code_simp
  then obtain r where r: "intent_lookup [] ''i1'' ?s = Inr (Some r)" "in_status r = Success"
    by (auto simp: intent_lookup_def simp del: run_calls.simps)
  obtain tr where "store_run ?s tr (run_calls [demo_again] ?s)"
    using run_calls_store_run [OF store_run_nil] by blast
  from finished_is_final [OF demo_reachable r(1) _ this] r(2) show ?thesis by simp
qed

text \<open>
  Persist before the irreversible step: in every reachable state an intent with a receipt
  outcome has a stored nonce, fee data, transaction hash of the accepted shape and evidence.
\<close>

theorem receipt_has_transaction:
  assumes "store_reachable s" and "intent_lookup [] i s = Inr (Some r)"
    and "in_status r \<in> {Success, Reverted}"
  shows "in_nonce r \<noteq> None \<and> in_fee r \<noteq> None \<and> in_evidence r \<noteq> None
         \<and> (\<exists>h. in_tx r = Some h \<and> hash_ok h)"
proof -
  have "map_of (intents s) i = Some r" using assms(2) by (simp add: intent_lookup_def)
  then have "row_ok r"
    using store_reachable_inv [OF assms(1)] by (fastforce simp: store_inv_def rows_ok_def dest: map_of_SomeD)
  with assms(3) show ?thesis by (auto simp: row_ok_def)
qed

theorem receipt_has_transaction_witness:
  "\<exists>r. intent_lookup [] ''i1'' (run_calls (demo_reserve # demo_pause) demo_ready) = Inr (Some r)
       \<and> in_status r = Success \<and> in_nonce r \<noteq> None"
proof -
  let ?s = "run_calls (demo_reserve # demo_pause) demo_ready"
  have "map_sum id (map_option in_status) (intent_lookup [] ''i1'' ?s) = Inr (Some Success)"
    by code_simp
  then obtain r where r: "intent_lookup [] ''i1'' ?s = Inr (Some r)" "in_status r = Success"
    by (auto simp: intent_lookup_def simp del: run_calls.simps)
  with receipt_has_transaction [OF demo_reachable r(1)] show ?thesis by blast
qed

lemma events_ok_sequence:
  "events_ok s \<Longrightarrow> (e, r) \<in> set (events s) \<Longrightarrow> py_int 10 (ev_sequence r) = Inr (seq_value (ev_sequence r))"
  by (auto simp: events_ok_def seq_value_def split: sum.splits)

text \<open>
  The cursor of a source never raises and is exact: absent when no event of the source is
  stored, and otherwise the sequence and block of the stored event with the largest sequence,
  compared as numbers of any size although they are stored as text.
\<close>

theorem cursor_is_newest_event:
  assumes "store_reachable s"
  shows "case cursor [] src s of
           Inl e \<Rightarrow> False
         | Inr None \<Rightarrow> (\<forall>(e, r) \<in> set (events s). ev_source r \<noteq> src)
         | Inr (Some (n, b)) \<Rightarrow>
             (\<exists>(e, r) \<in> set (events s). ev_source r = src \<and> seq_value (ev_sequence r) = n \<and> ev_block r = b)
             \<and> (\<forall>(e, r) \<in> set (events s). ev_source r = src \<longrightarrow> seq_value (ev_sequence r) \<le> n)"
proof (cases "map_of (cursors s) src")
  case None
  then show ?thesis
    using store_reachable_inv [OF assms]
    by (fastforce simp: cursor_def store_inv_def cursors_ok_def has_key_def)
next
  case (Some c)
  have ok: "cursor_ok s src c" and ev: "events_ok s"
    using store_reachable_inv [OF assms] Some
    by (auto simp: store_inv_def cursors_ok_def dest: map_of_SomeD)
  then have "py_int 10 (cu_sequence c) = Inr (seq_value (cu_sequence c))"
    by (auto simp: cursor_ok_def dest: events_ok_sequence)
  with Some ok show ?thesis by (auto simp: cursor_def cursor_ok_def)
qed

theorem cursor_is_newest_event_witness:
  "cursor [] ''vault'' demo_ready = Inr (Some (9, 101))
   \<and> list_all (\<lambda>(e, r). ev_source r = ''vault'' \<longrightarrow> seq_value (ev_sequence r) \<le> 9) (events demo_ready)"
proof -
  have v: "cursor [] ''vault'' demo_ready = Inr (Some (9, 101))" by code_simp
  have "store_reachable demo_ready" using demo_reachable [of "[]"] by simp
  from cursor_is_newest_event [OF this, of "''vault''"] v show ?thesis by (simp add: list_all_iff)
qed

lemma ingest_stores:
  assumes "ingest [] source e q b x s = (Inr y, s')"
  shows "\<exists>t. py_str q = Inr t \<and> 0 \<le> q \<and> 0 \<le> b \<and> source \<noteq> [] \<and> e \<noteq> [] \<and>
    map_of (events s') e = Some \<lparr>ev_source = source, ev_sequence = t, ev_block = b, ev_payload = x\<rparr>"
  using assms
  by (auto simp: ingest_nil ingest_spec_def advance_cursor_def sql_int_def Let_def map_add_def
      split: if_splits option.splits sum.splits)

lemma ingest_replay:
  assumes row: "map_of (events s) e =
      Some \<lparr>ev_source = source, ev_sequence = t, ev_block = b, ev_payload = x\<rparr>"
    and t: "py_str q = Inr t" and other: "(source', q', b', x') \<noteq> (source, q, b, x)"
  shows "\<exists>m. ingest [] source' e q' b' x' s = (Inl m, s)"
proof (cases "py_str q'")
  case (Inr t')
  have "q' = q" if "t' = t" using py_str_inject t Inr that by blast
  with row other Inr show ?thesis by (auto simp: ingest_nil ingest_spec_def)
qed (use row in \<open>auto simp: ingest_nil ingest_spec_def\<close>)

text \<open>
  C39. At-least-once delivery is safe: after an event has been ingested, ingesting it again, at any
  later time, returns False and writes nothing, and ingesting its id with any other source,
  sequence, block or payload raises and writes nothing.
\<close>

theorem ingest_is_idempotent:
  assumes reach: "store_reachable s0"
    and step: "store_step s0 (IngestCall source e q b x) (Some (Inr y)) s1"
    and later: "store_run s1 tr s2"
  shows "ingest [] source e q b x s2 = (Inr False, s2)
         \<and> (\<forall>source' q' b' x'. (source', q', b', x') \<noteq> (source, q, b, x) \<longrightarrow>
              (\<exists>m. ingest [] source' e q' b' x' s2 = (Inl m, s2)))"
proof -
  obtain t where t: "py_str q = Inr t" "0 \<le> q" "0 \<le> b" "source \<noteq> []" "e \<noteq> []"
    and row: "map_of (events s1) e =
      Some \<lparr>ev_source = source, ev_sequence = t, ev_block = b, ev_payload = x\<rparr>"
    using step_success [OF step] ingest_stores by fastforce
  have "grows s1 s2"
    using store_run_safe [OF later] store_step_safe [OF step store_reachable_inv [OF reach]] by simp
  from grows_event [OF this row] have row2: "map_of (events s2) e =
      Some \<lparr>ev_source = source, ev_sequence = t, ev_block = b, ev_payload = x\<rparr>" .
  then have "ingest [] source e q b x s2 = (Inr False, s2)"
    using t by (simp add: ingest_nil ingest_spec_def)
  with ingest_replay [OF row2 t(1)] show ?thesis by blast
qed

theorem ingest_is_idempotent_witness:
  "ingest [] ''vault'' ''e3'' (2 ^ 70) 102 ''{}'' (snd (ingest [] ''vault'' ''e3'' (2 ^ 70) 102 ''{}'' demo_ready))
     = (Inr False, snd (ingest [] ''vault'' ''e3'' (2 ^ 70) 102 ''{}'' demo_ready))"
proof -
  let ?c = "IngestCall ''vault'' ''e3'' (2 ^ 70) 102 ''{}''"
  have "map_of (events demo_ready) ''e3'' = None"
    "map_of (cursors demo_ready) ''vault'' = Some \<lparr>cu_sequence = ''9'', cu_block = 101\<rparr>"
    "py_int 10 ''9'' = Inr 9"
    by code_simp+
  then have "fst (run_call [] ?c demo_ready) = Inr True"
    by (simp add: ingest_nil ingest_spec_def advance_cursor_def py_str_beyond_64_bits [simplified]
        sql_int_def)
  from ingest_is_idempotent [OF demo_reachable [of "[]"] _ store_run_nil] step_of_value [OF this]
  show ?thesis by simp
qed

text \<open>
  A limit of the reconciliation: an intent recorded as indeterminate before any broadcast stays
  indeterminate in every later state, since a receipt outcome needs a hash and no operation can
  store one any more.
\<close>

theorem indeterminate_without_hash_stays:
  assumes reach: "store_reachable s" and row: "intent_lookup [] i s = Inr (Some r)"
    and st: "in_status r = Indeterminate" and tx: "in_tx r = None" and later: "store_run s tr s'"
  shows "\<exists>r'. intent_lookup [] i s' = Inr (Some r') \<and> in_status r' = Indeterminate \<and> in_tx r' = None"
proof -
  have inv: "store_inv s'" and "grows s s'"
    using store_run_safe [OF later store_reachable_inv [OF reach]] by auto
  moreover have "map_of (intents s) i = Some r" using row by (simp add: intent_lookup_def)
  ultimately obtain r' where r': "map_of (intents s') i = Some r'" and g: "row_grows r r'"
    using grows_row by blast
  have "in_tx r' = None" and rank: "3 \<le> status_rank (in_status r')"
    using g st tx lifecycle_star_rank [of Indeterminate "in_status r'"] by (auto simp: row_grows_def)
  moreover have "lifecycle\<^sup>*\<^sup>* Indeterminate (in_status r')" using g st by (simp add: row_grows_def)
  then have "in_status r' \<noteq> AlreadyDesired"
    by (rule rtranclp.cases) (auto elim!: lifecycle.cases dest!: lifecycle_star_rank)
  moreover have "row_ok r'"
    using inv r' by (fastforce simp: store_inv_def rows_ok_def dest: map_of_SomeD)
  ultimately have "in_status r' = Indeterminate"
    by (cases "in_status r'") (auto simp: row_ok_def)
  with r' \<open>in_tx r' = None\<close> show ?thesis by (auto simp: intent_lookup_def)
qed

theorem indeterminate_without_hash_stays_witness:
  "\<exists>r'. intent_lookup [] ''i1'' (run_calls [demo_reserve, demo_timeout, demo_again] demo_ready) = Inr (Some r')
        \<and> in_status r' = Indeterminate \<and> in_tx r' = None"
proof -
  let ?s = "run_calls [demo_reserve, demo_timeout] demo_ready"
  have "map_sum id (map_option (\<lambda>r. (in_status r, in_tx r))) (intent_lookup [] ''i1'' ?s)
      = Inr (Some (Indeterminate, None))"
    by code_simp
  then obtain r where r: "intent_lookup [] ''i1'' ?s = Inr (Some r)"
      "in_status r = Indeterminate" "in_tx r = None"
    by (auto simp: intent_lookup_def simp del: run_calls.simps)
  obtain tr where "store_run ?s tr (run_calls [demo_again] ?s)"
    using run_calls_store_run [OF store_run_nil] by blast
  from indeterminate_without_hash_stays [OF demo_reachable r this] show ?thesis by simp
qed

section \<open>The ledger\<close>

text \<open>
  What the store promises its client, without tables: which events are known, which intent owns
  an event, where each intent stands, and whether the latch is up.
\<close>

record ledger =
  lg_known :: "string set"
  lg_owner :: "string \<rightharpoonup> string"
  lg_status :: "string \<rightharpoonup> status"
  lg_latched :: bool

inductive ledger_step :: "ledger \<Rightarrow> ledger \<Rightarrow> bool" where
  idle: "ledger_step l l"
| learn: "ledger_step l (l\<lparr>lg_known := insert e (lg_known l)\<rparr>)"
| claim: "\<not> lg_latched l \<Longrightarrow> (\<And>j st. lg_status l j = Some st \<Longrightarrow> \<not> unfinished st) \<Longrightarrow>
    lg_status l i = None \<Longrightarrow> E \<noteq> {} \<Longrightarrow> E \<subseteq> lg_known l - dom (lg_owner l) \<Longrightarrow>
    ledger_step l (l\<lparr>lg_owner := (\<lambda>e. if e \<in> E then Some i else lg_owner l e),
                      lg_status := (lg_status l)(i \<mapsto> Reserved)\<rparr>)"
| progress: "lg_status l i = Some st \<Longrightarrow> lifecycle st st' \<Longrightarrow>
    ledger_step l (l\<lparr>lg_status := (lg_status l)(i \<mapsto> st'),
                      lg_latched := lg_latched l \<or> st' = Indeterminate\<rparr>)"

definition ledger_of :: "db \<Rightarrow> ledger" where
  "ledger_of s = \<lparr>lg_known = fst ` set (events s), lg_owner = map_of (intent_events s),
     lg_status = (\<lambda>i. map_option in_status (map_of (intents s) i)), lg_latched = latch s \<noteq> None\<rparr>"

lemma map_option_If_False [simp]: "map_option (If False r) z = z"
  by (cases z) auto

lemma ledger_advance:
  assumes adv: "advances s i r r' l"
    and l: "(l \<noteq> None) = (latch s \<noteq> None \<or> in_status r' = Indeterminate)"
  shows "ledger_step (ledger_of s) (ledger_of (advance at i r' x l s))"
proof -
  note row = advancesD(2) [OF adv]
  have "ledger_of (advance at i r' x l s) = (ledger_of s)\<lparr>
      lg_status := (lg_status (ledger_of s))(i \<mapsto> in_status r'),
      lg_latched := lg_latched (ledger_of s) \<or> in_status r' = Indeterminate\<rparr>"
    using row l
    by (simp add: ledger_of_def advance_fields fun_eq_iff
        map_of_map_values [of "\<lambda>k y. if k = i then r' else y"])
  moreover have "lg_status (ledger_of s) i = Some (in_status r)" using row by (simp add: ledger_of_def)
  ultimately show ?thesis using progress advancesD(3) [OF adv] by metis
qed

lemma ledger_reserved:
  assumes "latch s = None" and "\<not> any_unfinished s" and "\<not> has_key i (intents s)" and "es \<noteq> []"
    and "\<forall>e \<in> set es. known s e \<and> \<not> owned s e"
  shows "ledger_step (ledger_of s) (ledger_of (reserved_db now at i c es s))"
proof -
  have own: "map_of (intent_events s @ map (\<lambda>e. (e, i)) es)
      = (\<lambda>e. if e \<in> set es then Some i else map_of (intent_events s) e)"
  proof
    fix e
    have "map_of (map (\<lambda>e. (e, i)) es) e = (if e \<in> set es then Some i else None)"
      by (induction es) auto
    then show "map_of (intent_events s @ map (\<lambda>e. (e, i)) es) e
        = (if e \<in> set es then Some i else map_of (intent_events s) e)"
      using assms(5) by (auto simp: map_add_def owned_def has_key_def split: option.split)
  qed
  have st: "map_option in_status (map_of (intents s @ [(i, new_intent c now)]) j)
      = ((\<lambda>j. map_option in_status (map_of (intents s) j))(i \<mapsto> Reserved)) j" for j
    using assms(3) by (cases "map_of (intents s) j") (auto simp: has_key_def new_intent_def map_add_def)
  have "ledger_of (reserved_db now at i c es s) = (ledger_of s)\<lparr>
      lg_owner := (\<lambda>e. if e \<in> set es then Some i else lg_owner (ledger_of s) e),
      lg_status := (lg_status (ledger_of s))(i \<mapsto> Reserved)\<rparr>"
    unfolding ledger_of_def reserved_db_fields own ext [OF st] by (simp add: fun_eq_iff)
  moreover have "ledger_step (ledger_of s) \<dots>"
  proof (intro claim)
    show "\<not> lg_latched (ledger_of s)" "lg_status (ledger_of s) i = None" "set es \<noteq> {}"
      using assms by (auto simp: ledger_of_def has_key_def)
    show "\<not> unfinished st" if "lg_status (ledger_of s) j = Some st" for j st
      using that assms(2) by (fastforce simp: ledger_of_def any_unfinished_def dest: map_of_SomeD)
    show "set es \<subseteq> lg_known (ledger_of s) - dom (lg_owner (ledger_of s))"
    proof
      fix e
      assume "e \<in> set es"
      then have "known s e" "\<not> owned s e" using assms(5) by auto
      then show "e \<in> lg_known (ledger_of s) - dom (lg_owner (ledger_of s))"
        by (auto simp: ledger_of_def known_def owned_def has_key_def domIff dest: map_of_SomeD intro: rev_image_eqI)
    qed
  qed
  ultimately show ?thesis by simp
qed

lemma ledger_ingest:
  assumes "ingest [] source e q b x s = (Inr y, s')"
  shows "ledger_step (ledger_of s) (ledger_of s')"
  using assms
proof (cases rule: ingest_success)
  case 1
  then show ?thesis by (simp add: idle)
next
  case (2 t)
  then have "ledger_of s' = (ledger_of s)\<lparr>lg_known := insert e (lg_known (ledger_of s))\<rparr>"
    by (auto simp: ledger_of_def advance_cursor_def Let_def split: option.splits sum.splits if_splits)
  then show ?thesis using learn by metis
qed

text \<open>
  C8. Refinement: every step of the store, whatever faults and crashes it meets, is a step of the
  ledger, which claims events only when nothing is unfinished and the latch is down, never claims
  an event twice, and moves intents along the lifecycle only.
\<close>

theorem store_refines_ledger:
  assumes reach: "store_reachable s" and step: "store_step s c r s'"
  shows "ledger_step (ledger_of s) (ledger_of s')"
proof -
  note inv = store_reachable_inv [OF reach]
  have "s' = s \<or> (\<exists>x. run_call [] c s = (Inr x, s'))"
    using step by cases (use atomic_opD [OF atomic_run_call] in blast)+
  then show ?thesis
  proof
    assume "\<exists>x. run_call [] c s = (Inr x, s')"
    then obtain x where run: "run_call [] c s = (Inr x, s')" ..
    show ?thesis
    proof (cases c)
      case (OpenCall m path)
      with run show ?thesis
        by (auto simp: open_store_nil ledger_of_def idle dest!: acked_Inr split: if_splits sum.splits)
    next
      case (IngestCall source e q b x)
      with run ledger_ingest show ?thesis by simp
    next
      case (ReserveCall now at i inc es)
      with run show ?thesis by (auto elim!: reserve_success simp: idle ledger_reserved)
    next
      case (PrepareCall at i n fee)
      with run have "prepare [] at i n fee s = (Inr (), s')" by (auto dest: acked_Inr)
      with inv show ?thesis
        by (rule prepare_success) (simp add: ledger_advance [OF prepare_advances] inv)
    next
      case (BroadcastCall at i h)
      with run have "broadcast [] at i h s = (Inr (), s')" by (auto dest: acked_Inr)
      with inv show ?thesis
        by (rule broadcast_success) (simp add: ledger_advance [OF broadcast_advances] inv)
    next
      case (FinishCall at i outcome ev)
      with run have "finish [] at i outcome ev s = (Inr (), s')" by (auto dest: acked_Inr)
      with inv show ?thesis
        by (rule finish_success)
          (use ledger_advance [OF finish_advances [OF inv]] in \<open>auto simp del: if_split split: if_splits\<close>)
    qed
  qed (simp add: idle)
qed

theorem store_refines_ledger_witness:
  "ledger_step (ledger_of demo_ready) (ledger_of (snd (run_call [] demo_reserve demo_ready)))"
  by (rule store_refines_ledger [OF demo_reachable [of "[]", simplified] step_of_value [OF demo_steps(1)]])

section \<open>The intended path, and what the hash guard lets through\<close>

lemma advanced_intent:
  "map_of (intents (advance at i r' x l s)) j
     = (if j = i then map_option (\<lambda>_. r') (map_of (intents s) i) else map_of (intents s) j)"
  by (simp add: advance_fields map_of_map_values [of "\<lambda>k y. if k = i then r' else y"] option.map_ident
      del: map_map)

definition only_unfinished :: "string \<Rightarrow> db \<Rightarrow> bool" where
  "only_unfinished i s \<longleftrightarrow> (\<forall>j x. map_of (intents s) j = Some x \<longrightarrow> j \<noteq> i \<longrightarrow> \<not> unfinished (in_status x))"

lemma only_unfinished_advance: "only_unfinished i s \<Longrightarrow> only_unfinished i (advance at i r' x l s)"
  by (simp add: only_unfinished_def advanced_intent)

lemma none_unfinished:
  assumes inv: "store_inv s" and only: "only_unfinished i s" and row: "map_of (intents s) i = Some r"
    and fin: "\<not> unfinished (in_status r)"
  shows "\<not> any_unfinished s"
proof
  assume "any_unfinished s"
  then obtain j x where "(j, x) \<in> set (intents s)" "unfinished (in_status x)"
    by (auto simp: any_unfinished_def)
  moreover have "distinct (map fst (intents s))" using inv by (rule store_inv_keys)
  ultimately have "map_of (intents s) j = Some x" "unfinished (in_status x)" by simp_all
  with only row fin show False by (cases "j = i") (auto simp: only_unfinished_def)
qed

lemma prepare_accepts:
  "store_inv s \<Longrightarrow> map_of (intents s) i = Some r \<Longrightarrow> in_status r = Reserved \<Longrightarrow> 0 \<le> n \<Longrightarrow> n < 2 ^ 63 \<Longrightarrow>
   prepare [] at i n fee s =
     (Inr (), advance at i (r\<lparr>in_status := Prepared, in_nonce := Some n, in_fee := Some fee\<rparr>)
                ''nonce and fee data persisted'' (latch s) s)"
  by (simp add: prepare_nil store_inv_keys prepare_spec_def sql_int_def log_put_advance outcome_of_def)

lemma broadcast_accepts:
  "store_inv s \<Longrightarrow> map_of (intents s) i = Some r \<Longrightarrow> in_status r = Prepared \<Longrightarrow> hash_ok h \<Longrightarrow>
   broadcast [] at i h s = (Inr (), advance at i (r\<lparr>in_status := Broadcast, in_tx := Some h\<rparr>) h (latch s) s)"
  by (auto simp: broadcast_nil store_inv_keys broadcast_spec_def hash_ok_def log_put_advance outcome_of_def)

lemma finish_accepts:
  "store_inv s \<Longrightarrow> map_of (intents s) i = Some r \<Longrightarrow> in_status r = Broadcast \<Longrightarrow> in_tx r \<noteq> None \<Longrightarrow> ev \<noteq> [] \<Longrightarrow>
   finish [] at i ''success'' ev s =
     (Inr (), advance at i (r\<lparr>in_status := Success, in_evidence := Some ev\<rparr>) ev (latch s) s)"
  by (simp add: finish_nil store_inv_keys finish_spec_def outcome_of_def finish_guard_def unfinished_def
      finished_db_advance)

text \<open>
  C40. Progress: from any reachable state with no unfinished intent and the latch down, the calls
  reserve, prepare, broadcast and finish on fresh ids and known, unowned events all return, in
  this order, and leave the intent successful, the events owned, and the store ready for the next
  reservation.
\<close>

theorem pause_path_succeeds:
  assumes reach: "store_reachable s" and idle: "\<not> any_unfinished s" "latch s = None"
    and ids: "i \<noteq> []" "c \<noteq> []" "\<not> has_key i (intents s)" "\<not> has_key c (incidents s)"
    and es: "es \<noteq> []" "distinct es" "\<forall>e \<in> set es. known s e \<and> \<not> owned s e"
    and args: "0 \<le> n" "n < 2 ^ 63" "hash_ok h" "ev \<noteq> []"
  shows "let s1 = run_calls [ReserveCall now a i c es] s; s2 = run_calls [PrepareCall a i n fee] s1;
             s3 = run_calls [BroadcastCall a i h] s2; s4 = run_calls [FinishCall a i ''success'' ev] s3
         in run_call [] (ReserveCall now a i c es) s = (Inr True, s1)
            \<and> run_call [] (PrepareCall a i n fee) s1 = (Inr True, s2)
            \<and> run_call [] (BroadcastCall a i h) s2 = (Inr True, s3)
            \<and> run_call [] (FinishCall a i ''success'' ev) s3 = (Inr True, s4)
            \<and> map_option in_status (map_of (intents s4) i) = Some Success
            \<and> (\<forall>e \<in> set es. map_of (intent_events s4) e = Some i)
            \<and> \<not> any_unfinished s4 \<and> latch s4 = None"
proof -
  obtain s1 where s1: "s1 = reserved_db now a i c es s" by simp
  have inv: "store_inv s" by (rule store_reachable_inv [OF reach])
  have c1: "reserve [] now a i c es s = (Inr True, s1)"
    using idle ids es by (simp add: s1 reserve_nil reserve_spec_def events_free_True [THEN iffD2])
  have m1: "map_of (intents s1) i = Some (new_intent c now)"
    using ids by (simp add: s1 reserved_db_fields has_key_def map_add_def)
  have u1: "only_unfinished i s1"
    using idle(1) by (auto simp: only_unfinished_def s1 reserved_db_fields any_unfinished_def
        dest: map_of_SomeD split: option.splits if_splits)
  have o1: "\<forall>e \<in> set es. map_of (intent_events s1) e = Some i" "latch s1 = None"
    using es idle(2) by (simp_all add: s1 reserved_owner reserved_db_fields(6))
  have i1: "store_inv s1" using reserve_keeps [OF inv c1] by simp
  obtain r2 where r2: "r2 = (new_intent c now)\<lparr>in_status := Prepared, in_nonce := Some n, in_fee := Some fee\<rparr>"
    by simp
  obtain s2 where s2: "s2 = advance a i r2 ''nonce and fee data persisted'' (latch s1) s1" by simp
  have c2: "prepare [] a i n fee s1 = (Inr (), s2)"
    unfolding s2 r2 by (rule prepare_accepts [OF i1 m1 _ args(1,2)]) (simp add: new_intent_def)
  have i2: "store_inv s2" using prepare_op.safe_run [OF i1 c2] by simp
  have m2: "map_of (intents s2) i = Some r2" by (simp add: s2 advanced_intent m1)
  obtain r3 where r3: "r3 = r2\<lparr>in_status := Broadcast, in_tx := Some h\<rparr>" by simp
  obtain s3 where s3: "s3 = advance a i r3 h (latch s2) s2" by simp
  have c3: "broadcast [] a i h s2 = (Inr (), s3)"
    unfolding s3 r3 by (rule broadcast_accepts [OF i2 m2 _ args(3)]) (simp add: r2)
  have i3: "store_inv s3" using broadcast_op.safe_run [OF i2 c3] by simp
  have m3: "map_of (intents s3) i = Some r3" by (simp add: s3 advanced_intent m2)
  obtain r4 where r4: "r4 = r3\<lparr>in_status := Success, in_evidence := Some ev\<rparr>" by simp
  obtain s4 where s4: "s4 = advance a i r4 ev (latch s3) s3" by simp
  have c4: "finish [] a i ''success'' ev s3 = (Inr (), s4)"
    unfolding s4 r4 by (rule finish_accepts [OF i3 m3 _ _ args(4)]) (simp_all add: r3)
  have i4: "store_inv s4" using finish_op.safe_run [OF i3 c4] by simp
  have m4: "map_of (intents s4) i = Some r4" by (simp add: s4 advanced_intent m3)
  have "only_unfinished i s4" unfolding s4 s3 s2 by (intro only_unfinished_advance u1)
  then have "\<not> any_unfinished s4" by (rule none_unfinished [OF i4 _ m4]) (simp add: r4 unfinished_def)
  moreover have "\<forall>e \<in> set es. map_of (intent_events s4) e = Some i" "latch s4 = None"
    using o1 by (simp_all add: s4 s3 s2 advance_fields(4,6))
  moreover have "in_status r4 = Success" by (simp add: r4)
  ultimately show ?thesis using c1 c2 c3 c4 m4 by (simp add: acked_def)
qed

theorem pause_path_succeeds_witness:
  "map_option in_status (map_of (intents (run_calls [demo_reserve, PrepareCall ''t2'' ''i1'' 4 ''{}'',
      BroadcastCall ''t2'' ''i1'' demo_hash, FinishCall ''t2'' ''i1'' ''success'' ''receipt''] demo_ready)) ''i1'')
   = Some Success"
proof -
  have h: "\<not> any_unfinished demo_ready" "latch demo_ready = None" "\<not> has_key ''i1'' (intents demo_ready)"
    "\<not> has_key ''c1'' (incidents demo_ready)"
    "\<forall>e \<in> set [''e1'']. known demo_ready e \<and> \<not> owned demo_ready e"
    by code_simp+
  have "py_int 16 (drop 2 demo_hash) = Inr (16 ^ 64 * 2 div 3)" by code_simp
  then have "hash_ok demo_hash" by (simp add: hash_ok_def demo_hash_def startswith_def)
  from pause_path_succeeds [OF demo_reachable [of "[]", simplified] h(1,2) _ _ h(3,4) _ _ h(5) _ _ this,
      of 4 "''receipt''" "''t1''" "''t2''" "''{}''"]
  show ?thesis unfolding demo_reserve_def by (simp add: Let_def)
qed

definition is_hex_hash :: "string \<Rightarrow> bool" where
  "is_hex_hash h \<longleftrightarrow> length h = 66 \<and> take 2 h = ''0x'' \<and> list_all (\<lambda>c. digit_value 16 c \<noteq> None) (drop 2 h)"

definition odd_hashes :: "string list" where
  "odd_hashes =
     [''0x-'' @ replicate 63 CHR ''1'', ''0x0x'' @ replicate 62 CHR ''1'',
      ''0x1_'' @ replicate 62 CHR ''1'', ''0x '' @ replicate 63 CHR ''1'']"

text \<open>
  The guard of \<^verbatim>\<open>broadcast\<close> checks a length, a prefix and that Python's \<^verbatim>\<open>int(_, 16)\<close> accepts
  the rest, which also admits texts that are no hexadecimal hash: a sign, underscores between
  digits, white space at the ends and a second \<^verbatim>\<open>0x\<close> all pass and are stored as the hash.
\<close>

theorem broadcast_accepts_non_hashes:
  "list_all (\<lambda>h. \<not> is_hex_hash h
      \<and> fst (broadcast [] ''t4'' ''i1'' h
               (run_calls [demo_reserve, PrepareCall ''t3'' ''i1'' 4 ''{}''] demo_ready)) = Inr ())
    odd_hashes"
  by code_simp

end
