(* ===== verification/Models.thy ===== *)
theory Models
  imports PyText Complex_Main
begin

text \<open>
  The shared data of the controller (\<^verbatim>\<open>app/models.py\<close>): JSON-like values, the events the
  components log, UTC date-times with their texts, health results and incidents. Durations and
  monotonic readings are real numbers, so floating-point rounding is not modelled.
\<close>

section \<open>Values and events\<close>

datatype jval =
    JNull
  | JBool bool
  | JInt int
  | JReal real
  | JStr string
  | JList "jval list"
  | JDict "(string \<times> jval) list"

type_synonym log_event = "(string \<times> jval) list"

definition opt_int :: "int option \<Rightarrow> jval" where
  "opt_int x = (case x of None \<Rightarrow> JNull | Some n \<Rightarrow> JInt n)"

section \<open>Date-times\<close>

text \<open>An aware \<^verbatim>\<open>datetime\<close> after \<^verbatim>\<open>astimezone(UTC)\<close>, by its fields.\<close>

record datetime =
  dt_year :: nat
  dt_month :: nat
  dt_day :: nat
  dt_hour :: nat
  dt_minute :: nat
  dt_second :: nat
  dt_micro :: nat

definition datetime_ok :: "datetime \<Rightarrow> bool" where
  "datetime_ok d \<longleftrightarrow> 1 \<le> dt_year d \<and> dt_year d \<le> 9999 \<and> 1 \<le> dt_month d \<and> dt_month d \<le> 12
     \<and> 1 \<le> dt_day d \<and> dt_day d \<le> 31 \<and> dt_hour d < 24 \<and> dt_minute d < 60 \<and> dt_second d < 60
     \<and> dt_micro d < 1000000"

text \<open>\<open>digits k n\<close> is \<open>n\<close> in \<open>k\<close> decimal digits, padded with zeros.\<close>

fun digits :: "nat \<Rightarrow> nat \<Rightarrow> string" where
  "digits 0 n = []"
| "digits (Suc k) n = digits k (n div 10) @ [digit_char (n mod 10)]"

text \<open>\<^verbatim>\<open>isoformat().replace("+00:00", "Z")\<close>: the microseconds are left out when they are zero.\<close>

definition iso_z :: "datetime \<Rightarrow> string" where
  "iso_z d = digits 4 (dt_year d) @ ''-'' @ digits 2 (dt_month d) @ ''-'' @ digits 2 (dt_day d) @ ''T''
     @ digits 2 (dt_hour d) @ '':'' @ digits 2 (dt_minute d) @ '':'' @ digits 2 (dt_second d)
     @ (if dt_micro d = 0 then [] else ''.'' @ digits 6 (dt_micro d)) @ ''Z''"

section \<open>Health results and incidents\<close>

record health_result =
  hr_ok :: bool
  hr_reason :: string
  hr_checked_at :: datetime
  hr_status_code :: "int option"
  hr_duration :: real

record incident =
  inc_id :: string
  inc_reason :: string
  inc_opened_at :: datetime
  inc_failures :: int
  inc_closed_at :: "datetime option"

definition is_open :: "incident \<Rightarrow> bool" where
  "is_open i = (inc_closed_at i = None)"

section \<open>Fixed-width digits are ordered like numbers\<close>

lemma length_digits [simp]: "length (digits k n) = k"
  by (induction k arbitrary: n) auto

lemma iso_z_example:
  "iso_z \<lparr>dt_year = 2026, dt_month = 7, dt_day = 4, dt_hour = 9, dt_minute = 5, dt_second = 0, dt_micro = 12\<rparr>
     = ''2026-07-04T09:05:00.000012Z''"
  by code_simp

text \<open>A date-time for examples.\<close>

definition noon :: datetime where
  "noon = \<lparr>dt_year = 2026, dt_month = 7, dt_day = 4, dt_hour = 12, dt_minute = 0, dt_second = 0,
     dt_micro = 0\<rparr>"

end
