(* ===== verification/HealthMonitor.thy ===== *)
theory HealthMonitor
  imports Models
begin

text \<open>
  The health monitor (\<^verbatim>\<open>app/health_monitor.py\<close>): one health check as a function of the
  request's outcome and the clock readings, and the periodic loop over a stream of ticks. The
  loop may run for ever (\<^verbatim>\<open>iterations=None\<close>), so it takes a fuel of ticks and is \<open>None\<close> while it
  is still running.
\<close>

section \<open>One check\<close>

definition show_int :: "int \<Rightarrow> string" where
  "show_int n = (if n < 0 then CHR ''-'' # show_nat (nat (- n)) else show_nat (nat n))"

text \<open>
  What \<^verbatim>\<open>requester\<close> gives: an exception, or a status code together with what \<^verbatim>\<open>response.json()\<close>
  would give.
\<close>

type_synonym response = "int \<times> (exn + jval)"

definition payload_reason :: "jval \<Rightarrow> string option" where
  "payload_reason p =
     (case p of
        JDict kvs \<Rightarrow> (case map_of kvs ''reason'' of Some (JStr r) \<Rightarrow> Some r | _ \<Rightarrow> None)
      | _ \<Rightarrow> None)"

text \<open>The reason of a response that is not 200; the inner \<^verbatim>\<open>except\<close> passes over a \<^verbatim>\<open>ValueError\<close>.\<close>

definition failure_reason :: "response \<Rightarrow> string result" where
  "failure_reason r =
     (let fallback = ''http_'' @ show_int (fst r)
      in case snd r of
           Inl e \<Rightarrow> if is_value_error e then Inr fallback else Inl e
         | Inr p \<Rightarrow> (case payload_reason p of Some t \<Rightarrow> Inr t | None \<Rightarrow> Inr fallback))"

definition check_response :: "datetime \<Rightarrow> real \<Rightarrow> response \<Rightarrow> health_result result" where
  "check_response checked_at duration r =
     (if fst r = 200
      then Inr \<lparr>hr_ok = True, hr_reason = ''ok'', hr_checked_at = checked_at,
                hr_status_code = Some (fst r), hr_duration = duration\<rparr>
      else case failure_reason r of
             Inl e \<Rightarrow> Inl e
           | Inr reason \<Rightarrow>
               Inr \<lparr>hr_ok = False, hr_reason = reason, hr_checked_at = checked_at,
                    hr_status_code = Some (fst r), hr_duration = duration\<rparr>)"

definition health_event :: "health_result \<Rightarrow> string option \<Rightarrow> log_event" where
  "health_event r error_type =
     [(''timestamp'', JStr (iso_z (hr_checked_at r))), (''event_type'', JStr ''health_check''),
      (''level'', JStr (if hr_ok r then ''INFO'' else ''WARNING'')),
      (''message'', JStr (if hr_ok r then ''Gateway health check succeeded''
                          else ''Gateway health check failed'')),
      (''ok'', JBool (hr_ok r)), (''reason'', JStr (hr_reason r)),
      (''status_code'', opt_int (hr_status_code r)), (''duration_seconds'', JReal (hr_duration r))]
     @ (case error_type of None \<Rightarrow> [] | Some t \<Rightarrow> [(''error_type'', JStr t)])"

text \<open>
  \<^verbatim>\<open>check_once\<close>: the two readings of the monotonic clock, the wall clock, and the outcome of the
  request give the result with the event that is logged, or the exception that leaves the method.
\<close>

definition check_once ::
    "real \<Rightarrow> real \<Rightarrow> datetime \<Rightarrow> response result \<Rightarrow> (health_result \<times> log_event) result" where
  "check_once started finished checked_at outcome =
     (let duration = max 0 (finished - started)
      in case (case outcome of Inl e \<Rightarrow> Inl e | Inr r \<Rightarrow> check_response checked_at duration r) of
           Inr r \<Rightarrow> Inr (r, health_event r None)
         | Inl (RequestError name) \<Rightarrow>
             (let r = \<lparr>hr_ok = False, hr_reason = ''network_error'', hr_checked_at = checked_at,
                       hr_status_code = None, hr_duration = duration\<rparr>
              in Inr (r, health_event r (Some name)))
         | Inl e \<Rightarrow> Inl e)"

section \<open>The periodic loop\<close>

text \<open>
  The inputs of one iteration: what \<^verbatim>\<open>check_once\<close> returns or raises, the monotonic clock after
  the callback, and what the sleep does (a cancelled task raises there).
\<close>

record tick =
  tk_check :: "health_result result"
  tk_now :: real
  tk_sleep :: "unit result"

record 's monitor_state =
  mon_user :: 's
  mon_sleeps :: "real list"

fun run_loop ::
    "nat \<Rightarrow> real \<Rightarrow> (health_result \<Rightarrow> ('s, unit) cmd) \<Rightarrow> int option \<Rightarrow> (nat \<Rightarrow> tick) \<Rightarrow>
     nat \<Rightarrow> real \<Rightarrow> 's monitor_state \<Rightarrow> ((exn + unit) \<times> 's monitor_state) option" where
  "run_loop 0 interval callback iterations ticks completed deadline s = None"
| "run_loop (Suc fuel) interval callback iterations ticks completed deadline s =
     (if iterations \<noteq> None \<and> \<not> int completed < the iterations then Some (Inr (), s)
      else case tk_check (ticks completed) of
             Inl e \<Rightarrow> Some (Inl e, s)
           | Inr result \<Rightarrow>
               (case callback result (mon_user s) of
                  (Inl e, u) \<Rightarrow> Some (Inl e, s\<lparr>mon_user := u\<rparr>)
                | (Inr x, u) \<Rightarrow>
                    if iterations \<noteq> None \<and> the iterations \<le> int (Suc completed)
                    then Some (Inr (), s\<lparr>mon_user := u\<rparr>)
                    else
                      (let deadline' = deadline + interval;
                           pause = max 0 (deadline' - tk_now (ticks completed));
                           s' = s\<lparr>mon_user := u, mon_sleeps := mon_sleeps s @ [pause]\<rparr>
                       in case tk_sleep (ticks completed) of
                            Inl e \<Rightarrow> Some (Inl e, s')
                          | Inr y \<Rightarrow>
                              run_loop fuel interval callback iterations ticks (Suc completed)
                                deadline' s')))"

text \<open>\<^verbatim>\<open>run\<close>: the first deadline is the reading of the clock at the start.\<close>

definition run_monitor ::
    "nat \<Rightarrow> real \<Rightarrow> (health_result \<Rightarrow> ('s, unit) cmd) \<Rightarrow> int option \<Rightarrow> real \<Rightarrow> (nat \<Rightarrow> tick) \<Rightarrow> 's \<Rightarrow>
     ((exn + unit) \<times> 's monitor_state) option" where
  "run_monitor fuel interval callback iterations start ticks u =
     run_loop fuel interval callback iterations ticks 0 start \<lparr>mon_user = u, mon_sleeps = []\<rparr>"

section \<open>Checks\<close>

lemma check_response_ok: "check_response at' d r = Inr x \<Longrightarrow> hr_ok x \<longleftrightarrow> fst r = 200"
  by (auto simp: check_response_def split: sum.splits if_splits)

lemma check_once_cases:
  "check_once a b t outcome =
     (case outcome of
        Inl (RequestError n) \<Rightarrow>
          (let r = \<lparr>hr_ok = False, hr_reason = ''network_error'', hr_checked_at = t,
                    hr_status_code = None, hr_duration = max 0 (b - a)\<rparr>
           in Inr (r, health_event r (Some n)))
      | Inl e \<Rightarrow> Inl e
      | Inr r \<Rightarrow>
          (case check_response t (max 0 (b - a)) r of
             Inr x \<Rightarrow> Inr (x, health_event x None)
           | Inl (RequestError n) \<Rightarrow>
               (let x = \<lparr>hr_ok = False, hr_reason = ''network_error'', hr_checked_at = t,
                         hr_status_code = None, hr_duration = max 0 (b - a)\<rparr>
                in Inr (x, health_event x (Some n)))
           | Inl e \<Rightarrow> Inl e))"
  by (auto simp: check_once_def Let_def split: sum.split exn.split)

lemma check_once_Inr:
  "check_response t (max 0 (b - a)) r = Inr x \<Longrightarrow> check_once a b t (Inr r) = Inr (x, health_event x None)"
  by (simp add: check_once_def Let_def)

text \<open>
  A check never raises for what a gateway or the network can do: for every status code, every
  body that parses or fails to parse with a \<^verbatim>\<open>ValueError\<close>, and every \<^verbatim>\<open>RequestError\<close>, it returns a
  result, which is ok exactly for status 200, has a nonnegative duration, and is the one the logged
  event reports.
\<close>

theorem check_once_total:
  assumes "case outcome of
      Inl e \<Rightarrow> \<exists>n. e = RequestError n
    | Inr (st, body) \<Rightarrow> (case body of Inl e \<Rightarrow> is_value_error e | Inr p \<Rightarrow> True)"
  shows "\<exists>r ev. check_once started finished checked_at outcome = Inr (r, ev)
           \<and> (hr_ok r \<longleftrightarrow> (\<exists>body. outcome = Inr (200, body)))
           \<and> 0 \<le> hr_duration r \<and> hr_checked_at r = checked_at
           \<and> map_of ev ''ok'' = Some (JBool (hr_ok r)) \<and> map_of ev ''reason'' = Some (JStr (hr_reason r))"
  using assms
  by (cases outcome)
    (auto simp: check_once_cases check_response_def failure_reason_def health_event_def Let_def
      split: sum.splits option.splits)

theorem check_once_total_witness:
  "\<exists>r ev. check_once 10 9 noon (Inr (503, Inr (JDict [(''status'', JStr ''unhealthy''), (''reason'', JStr ''config_invalid'')])))
     = Inr (r, ev) \<and> \<not> hr_ok r \<and> 0 \<le> hr_duration r"
  using check_once_total [of "Inr (503, Inr (JDict [(''status'', JStr ''unhealthy''), (''reason'', JStr ''config_invalid'')]))"
      10 9 noon]
  by auto

section \<open>The loop\<close>

text \<open>The state after the callbacks of the first \<open>n\<close> ticks, when nothing raises.\<close>

fun callbacks :: "(health_result \<Rightarrow> ('s, unit) cmd) \<Rightarrow> (nat \<Rightarrow> tick) \<Rightarrow> nat \<Rightarrow> 's \<Rightarrow> 's" where
  "callbacks callback ticks 0 u = u"
| "callbacks callback ticks (Suc n) u =
     (let u' = callbacks callback ticks n u
      in case tk_check (ticks n) of Inl e \<Rightarrow> u' | Inr r \<Rightarrow> snd (callback r u'))"

text \<open>No check, callback or sleep of the ticks before \<open>n\<close> raises.\<close>

definition smooth :: "(health_result \<Rightarrow> ('s, unit) cmd) \<Rightarrow> (nat \<Rightarrow> tick) \<Rightarrow> 's \<Rightarrow> nat \<Rightarrow> bool" where
  "smooth callback ticks u n \<longleftrightarrow> (\<forall>k < n. tk_sleep (ticks k) = Inr ()
     \<and> (\<exists>r. tk_check (ticks k) = Inr r \<and> fst (callback r (callbacks callback ticks k u)) = Inr ()))"

definition pauses :: "real \<Rightarrow> real \<Rightarrow> (nat \<Rightarrow> tick) \<Rightarrow> nat \<Rightarrow> real list" where
  "pauses interval start ticks n =
     map (\<lambda>k. max 0 (start + real (Suc k) * interval - tk_now (ticks k))) [0..<n]"

definition schedule_state ::
    "(health_result \<Rightarrow> ('s, unit) cmd) \<Rightarrow> real \<Rightarrow> real \<Rightarrow> (nat \<Rightarrow> tick) \<Rightarrow> 's \<Rightarrow> nat \<Rightarrow> 's monitor_state" where
  "schedule_state callback interval start ticks u k =
     \<lparr>mon_user = callbacks callback ticks k u, mon_sleeps = pauses interval start ticks k\<rparr>"

text \<open>One iteration in which nothing raises.\<close>

lemma run_loop_step:
  assumes sm: "smooth callback ticks u n" and k: "k < n" and go: "iterations = None \<or> int k < the iterations"
  shows "run_loop (Suc f) interval callback iterations ticks k (start + real k * interval)
      (schedule_state callback interval start ticks u k) =
     (if iterations \<noteq> None \<and> the iterations \<le> int (Suc k)
      then Some (Inr (), (schedule_state callback interval start ticks u k)\<lparr>mon_user := callbacks callback ticks (Suc k) u\<rparr>)
      else run_loop f interval callback iterations ticks (Suc k) (start + real (Suc k) * interval)
             (schedule_state callback interval start ticks u (Suc k)))"
proof -
  obtain r v where r: "tk_check (ticks k) = Inr r" "tk_sleep (ticks k) = Inr ()"
    and v: "callback r (callbacks callback ticks k u) = (Inr (), v)"
    using sm k by (auto simp: smooth_def) (metis prod.collapse)
  have cb: "callbacks callback ticks (Suc k) u = v" using r v by simp
  have d: "start + real k * interval + interval = start + real (Suc k) * interval"
    by (simp add: algebra_simps)
  have ps: "pauses interval start ticks (Suc k)
      = pauses interval start ticks k @ [max 0 (start + real (Suc k) * interval - tk_now (ticks k))]"
    by (simp add: pauses_def)
  show ?thesis
    using go r v by (simp only: schedule_state_def cb ps run_loop.simps(2) d [symmetric]) (auto simp: Let_def)
qed

lemma run_loop_smooth:
  assumes sm: "smooth callback ticks u n" and "k < n"
  shows "run_loop (Suc (n - k)) interval callback (Some (int n)) ticks k (start + real k * interval)
           (schedule_state callback interval start ticks u k)
         = Some (Inr (), \<lparr>mon_user = callbacks callback ticks n u,
                          mon_sleeps = pauses interval start ticks (n - 1)\<rparr>)"
  using assms(2)
proof (induction "n - k" arbitrary: k)
  case (Suc m)
  have "Some (int n) = None \<or> int k < the (Some (int n))" using Suc.prems by simp
  note step = run_loop_step [OF sm Suc.prems this]
  show ?case
  proof (cases "Suc k = n")
    case True
    then have "n - 1 = k" "int n \<le> int (Suc k)" by auto
    with True Suc.prems show ?thesis
      by (simp only: step option.sel) (simp add: schedule_state_def True)
  next
    case False
    have "n - k = Suc (n - Suc k)" "\<not> int n \<le> int (Suc k)" "Suc k < n" "m = n - Suc k"
      using False Suc.prems Suc.hyps(2) by auto
    with Suc.prems show ?thesis by (simp only: step option.sel Suc.hyps(1)) simp
  qed
qed simp

text \<open>The loop without a bound, up to tick \<open>n\<close>.\<close>

lemma run_loop_prefix:
  assumes "smooth callback ticks u n" and "k \<le> n"
  shows "run_loop (n - k + f) interval callback None ticks k (start + real k * interval)
           (schedule_state callback interval start ticks u k)
         = run_loop f interval callback None ticks n (start + real n * interval)
             (schedule_state callback interval start ticks u n)"
  using assms(2)
proof (induction "n - k" arbitrary: k)
  case (Suc m)
  then have "n - k + f = Suc (n - Suc k + f)" "k < n" "m = n - Suc k" "Suc k \<le> n" by auto
  with Suc.hyps(1) [of "Suc k"] run_loop_step [OF assms(1), of k None "n - Suc k + f" interval start]
  show ?case by simp
qed simp

text \<open>
  No drift and the promised number of checks: a run of \<open>n\<close> iterations in which nothing raises
  returns after exactly \<open>n\<close> callbacks, in order, and the pause after check \<open>k\<close> ends at the start plus
  \<open>k + 1\<close> intervals, however long the checks and callbacks before it took.
\<close>

theorem run_keeps_schedule:
  assumes "smooth callback ticks u n" and "0 < n"
  shows "run_monitor (Suc n) interval callback (Some (int n)) start ticks u
         = Some (Inr (), \<lparr>mon_user = callbacks callback ticks n u,
             mon_sleeps = map (\<lambda>k. max 0 (start + real (Suc k) * interval - tk_now (ticks k))) [0..<n - 1]\<rparr>)"
  using run_loop_smooth [OF assms, of interval start]
  by (simp add: run_monitor_def schedule_state_def pauses_def)

definition demo_tick :: "real \<Rightarrow> tick" where
  "demo_tick now = \<lparr>tk_check = Inr \<lparr>hr_ok = True, hr_reason = ''ok'', hr_checked_at = noon,
     hr_status_code = Some 200, hr_duration = 0\<rparr>, tk_now = now, tk_sleep = Inr ()\<rparr>"

theorem run_keeps_schedule_witness:
  "run_monitor 4 10 (\<lambda>r n. (Inr (), n + 1)) (Some 3) 100 (\<lambda>k. demo_tick (102 + 11 * real k)) (0 :: nat)
     = Some (Inr (), \<lparr>mon_user = 3, mon_sleeps = [8, 7]\<rparr>)"
proof -
  let ?c = "\<lambda>r n. (Inr (), n + 1) :: (exn + unit) \<times> nat" and ?t = "\<lambda>k. demo_tick (102 + 11 * real k)"
  have "smooth ?c ?t 0 3" by (simp add: smooth_def demo_tick_def)
  from run_keeps_schedule [OF this, of 10 100]
  show ?thesis by (simp add: demo_tick_def eval_nat_numeral del: run_loop.simps)
qed

text \<open>
  The supervision loop is as alive as its callback: without a bound on the iterations the loop
  never returns while nothing raises, and ends for good at the first tick whose check or callback
  raises, with that exception and no later tick handled.
\<close>

theorem run_ends_at_exception:
  assumes sm: "smooth callback ticks u n"
  shows "(run_monitor n interval callback None start ticks u = None)
         \<and> ((case tk_check (ticks n) of
                Inl e' \<Rightarrow> e' = e
              | Inr r \<Rightarrow> fst (callback r (callbacks callback ticks n u)) = Inl e) \<longrightarrow>
            (\<forall>fuel > n. \<exists>s. run_monitor fuel interval callback None start ticks u = Some (Inl e, s)))"
proof -
  have prefix: "run_monitor (n + f) interval callback None start ticks u
      = run_loop f interval callback None ticks n (start + real n * interval)
          (schedule_state callback interval start ticks u n)" for f
    using run_loop_prefix [OF sm, of 0 f interval start] by (simp add: run_monitor_def schedule_state_def pauses_def)
  have "\<exists>s. run_monitor fuel interval callback None start ticks u = Some (Inl e, s)"
    if ex: "case tk_check (ticks n) of Inl e' \<Rightarrow> e' = e
        | Inr r \<Rightarrow> fst (callback r (callbacks callback ticks n u)) = Inl e" and fuel: "n < fuel" for fuel
  proof -
    obtain f where "fuel = n + Suc f" using fuel less_iff_Suc_add by auto
    then show ?thesis
      using ex prefix [of "Suc f"]
      by (auto simp: schedule_state_def split: sum.splits prod.splits)
  qed
  moreover have "run_monitor n interval callback None start ticks u = None" using prefix [of 0] by simp
  ultimately show ?thesis by blast
qed

theorem run_ends_at_exception_witness:
  "\<exists>s. run_monitor 9 10 (\<lambda>r n. if n < 2 then (Inr (), n + 1) else (Inl (ValueError ''boom''), n)) None 0
     (\<lambda>k. demo_tick (real k)) (0 :: nat) = Some (Inl (ValueError ''boom''), s)"
proof -
  let ?c = "\<lambda>r n. if n < 2 then (Inr (), n + 1) else (Inl (ValueError ''boom''), n :: nat)"
  let ?t = "\<lambda>k. demo_tick (real k)"
  have "smooth ?c ?t 0 2" by (auto simp: smooth_def demo_tick_def less_Suc_eq numeral_2_eq_2)
  from run_ends_at_exception [OF this, of 10 0 "ValueError ''boom''"]
  show ?thesis by (simp add: demo_tick_def numeral_2_eq_2 del: run_loop.simps)
qed

end
