(* ===== verification/Json.thy ===== *)
theory Json
  imports HealthMonitor
begin

text \<open>
  Reading back what the sources write as JSON. \<open>json_text\<close> says which texts stand for a value, with
  any white space between the tokens; it covers everything the sources print, and no reals. \<open>json_read\<close> is a reader
  in the sense of RFC 8259 for such texts, and the reference every printer is measured against: it gives back the value of
  every text of it, so no two values share a text.
\<close>

section \<open>Texts of values\<close>

definition is_ws :: "char \<Rightarrow> bool" where
  "is_ws c = (code c = 32 \<or> code c = 10 \<or> code c = 13 \<or> code c = 9)"

abbreviation blanks :: "string \<Rightarrow> bool" where
  "blanks \<equiv> list_all is_ws"

inductive json_text :: "jval \<Rightarrow> string \<Rightarrow> bool"
  and json_items :: "jval list \<Rightarrow> string \<Rightarrow> bool"
  and json_members :: "(string \<times> jval) list \<Rightarrow> string \<Rightarrow> bool" where
  text_null: "json_text JNull ''null''"
| text_bool: "json_text (JBool b) (if b then ''true'' else ''false'')"
| text_int: "json_text (JInt n) (show_int n)"
| text_str: "json_text (JStr s) (json_string s)"
| text_list: "json_items vs t \<Longrightarrow> json_text (JList vs) (''['' @ t @ '']'')"
| text_dict: "json_members kvs t \<Longrightarrow> json_text (JDict kvs) (''{'' @ t @ ''}'')"
| no_items: "blanks a \<Longrightarrow> json_items [] a"
| one_item: "blanks a \<Longrightarrow> json_text v t \<Longrightarrow> blanks b \<Longrightarrow> json_items [v] (a @ t @ b)"
| more_items: "blanks a \<Longrightarrow> json_text v t \<Longrightarrow> blanks b \<Longrightarrow> vs \<noteq> [] \<Longrightarrow> json_items vs u
    \<Longrightarrow> json_items (v # vs) (a @ t @ b @ '','' @ u)"
| no_members: "blanks a \<Longrightarrow> json_members [] a"
| one_member: "blanks a \<Longrightarrow> blanks b \<Longrightarrow> blanks c \<Longrightarrow> json_text v t \<Longrightarrow> blanks d
    \<Longrightarrow> json_members [(k, v)] (a @ json_string k @ b @ '':'' @ c @ t @ d)"
| more_members: "blanks a \<Longrightarrow> blanks b \<Longrightarrow> blanks c \<Longrightarrow> json_text v t \<Longrightarrow> blanks d \<Longrightarrow> kvs \<noteq> []
    \<Longrightarrow> json_members kvs u \<Longrightarrow> json_members ((k, v) # kvs) (a @ json_string k @ b @ '':'' @ c @ t @ d @ '','' @ u)"

section \<open>A reader\<close>

definition skip :: "string \<Rightarrow> string" where
  "skip = dropWhile is_ws"

definition hex_value :: "string \<Rightarrow> nat option" where
  "hex_value ds = foldl (\<lambda>acc d. case (acc, digit_value 16 d) of (Some n, Some k) \<Rightarrow> Some (n * 16 + k) | _ \<Rightarrow> None) (Some 0) ds"

definition unescape :: "char \<Rightarrow> char option" where
  "unescape c = map_of [(CHR 0x22, CHR 0x22), (CHR 0x5C, CHR 0x5C), (CHR ''/'', CHR ''/''), (CHR ''n'', CHR 0x0A),
     (CHR ''r'', CHR 0x0D), (CHR ''t'', CHR 0x09), (CHR ''f'', CHR 0x0C), (CHR ''b'', CHR 0x08)] c"

definition prepend :: "char \<Rightarrow> (string \<times> string) option \<Rightarrow> (string \<times> string) option" where
  "prepend c = map_option (\<lambda>(s, rest). (c # s, rest))"

text \<open>The rest of a string after its opening quote, with what follows the closing one.\<close>

fun read_chars :: "string \<Rightarrow> (string \<times> string) option" where
  "read_chars [] = None"
| "read_chars (c # cs) =
     (if c = CHR 0x22 then Some ([], cs)
      else if c = CHR 0x5C then
        (case cs of
           [] \<Rightarrow> None
         | e # r \<Rightarrow>
             if e = CHR ''u'' then
               (case hex_value (take 4 r) of
                  None \<Rightarrow> None
                | Some n \<Rightarrow> if length (take 4 r) = 4 \<and> n < 256 then prepend (char_of n) (read_chars (drop 4 r)) else None)
             else (case unescape e of None \<Rightarrow> None | Some d \<Rightarrow> prepend d (read_chars r)))
      else if code c < 32 then None
      else prepend c (read_chars cs))"

definition is_num :: "char \<Rightarrow> bool" where
  "is_num c = (48 \<le> code c \<and> code c \<le> 57)"

definition num_value :: "string \<Rightarrow> int" where
  "num_value ds = foldl (\<lambda>n c. n * 10 + (int (code c) - 48)) 0 ds"

definition read_int :: "string \<Rightarrow> (jval \<times> string) option" where
  "read_int s =
     (let neg = (take 1 s = ''-''); t = (if neg then drop 1 s else s); ds = takeWhile is_num t
      in if ds = [] then None else Some (JInt (if neg then - num_value ds else num_value ds), dropWhile is_num t))"

text \<open>\<open>keyword k v s\<close>: the value of a literal name, if \<open>s\<close> begins with it.\<close>

definition keyword :: "string \<Rightarrow> jval \<Rightarrow> string \<Rightarrow> (jval \<times> string) option" where
  "keyword k v s = (if take (length k) s = k then Some (v, drop (length k) s) else None)"

text \<open>The fuel is at least the depth of the calls; the length of the text is enough.\<close>

fun read_value :: "nat \<Rightarrow> string \<Rightarrow> (jval \<times> string) option"
  and read_items :: "nat \<Rightarrow> string \<Rightarrow> (jval list \<times> string) option"
  and read_members :: "nat \<Rightarrow> string \<Rightarrow> ((string \<times> jval) list \<times> string) option" where
  "read_value 0 s = None"
| "read_value (Suc n) s =
     (case s of
        [] \<Rightarrow> None
      | c # cs \<Rightarrow>
          if c = CHR 0x22 then map_option (\<lambda>(x, r). (JStr x, r)) (read_chars cs)
          else if c = CHR ''['' then
            (if take 1 (skip cs) = '']'' then Some (JList [], drop 1 (skip cs))
             else map_option (\<lambda>(vs, r). (JList vs, r)) (read_items n (skip cs)))
          else if c = CHR ''{'' then
            (if take 1 (skip cs) = ''}'' then Some (JDict [], drop 1 (skip cs))
             else map_option (\<lambda>(kvs, r). (JDict kvs, r)) (read_members n (skip cs)))
          else if c = CHR ''n'' then keyword ''null'' JNull s
          else if c = CHR ''t'' then keyword ''true'' (JBool True) s
          else if c = CHR ''f'' then keyword ''false'' (JBool False) s
          else read_int s)"
| "read_items 0 s = None"
| "read_items (Suc n) s =
     (case read_value n s of
        None \<Rightarrow> None
      | Some (v, r) \<Rightarrow>
          (case skip r of
             [] \<Rightarrow> None
           | c # r' \<Rightarrow>
               if c = CHR '']'' then Some ([v], r')
               else if c = CHR '','' then map_option (\<lambda>(vs, r''). (v # vs, r'')) (read_items n (skip r'))
               else None))"
| "read_members 0 s = None"
| "read_members (Suc n) s =
     (case s of
        [] \<Rightarrow> None
      | q # cs \<Rightarrow>
          if q \<noteq> CHR 0x22 then None
          else
            (case read_chars cs of
               None \<Rightarrow> None
             | Some (k, r) \<Rightarrow>
                 if take 1 (skip r) \<noteq> '':'' then None
                 else
                   (case read_value n (skip (drop 1 (skip r))) of
                      None \<Rightarrow> None
                    | Some (v, r2) \<Rightarrow>
                        (case skip r2 of
                           [] \<Rightarrow> None
                         | c # r3 \<Rightarrow>
                             if c = CHR ''}'' then Some ([(k, v)], r3)
                             else if c = CHR '','' then
                               map_option (\<lambda>(kvs, r4). ((k, v) # kvs, r4)) (read_members n (skip r3))
                             else None))))"

definition json_read :: "string \<Rightarrow> jval option" where
  "json_read s =
     (case read_value (length s) (skip s) of
        None \<Rightarrow> None
      | Some (v, r) \<Rightarrow> if blanks r then Some v else None)"

section \<open>Strings\<close>

lemma char_eq_code: "c = d \<longleftrightarrow> code c = code d"
  by (metis char_of_char)

lemma code_less: "code c < 256"
  by (cases c) (simp add: of_char_def)

lemma digit_value_16: "d < 16 \<Longrightarrow> digit_value 16 (digit_char d) = Some d"
  by (auto simp: digit_value_def digit_char_def Let_def)

lemma hex4_value: "n < 256 \<Longrightarrow> hex_value (hex4 n) = Some n"
  by (simp add: hex4_def hex_value_def digit_value_16)

lemma length_hex4 [simp]: "length (hex4 n) = 4"
  by (simp add: hex4_def)

lemma read_json_char: "read_chars (json_char c @ t) = prepend c (read_chars t)"
proof -
  have lt: "code c < 256" by (rule code_less)
  note eq = char_eq_code [of c]
  have chars: "code c = 34 \<Longrightarrow> c = CHR 0x22" "code c = 92 \<Longrightarrow> c = CHR 0x5C" "code c = 10 \<Longrightarrow> c = CHR 0x0A"
    "code c = 13 \<Longrightarrow> c = CHR 0x0D" "code c = 9 \<Longrightarrow> c = CHR 0x09" "code c = 12 \<Longrightarrow> c = CHR 0x0C"
    "code c = 8 \<Longrightarrow> c = CHR 0x08"
    using eq by simp_all
  consider "code c = 34" | "code c = 92" | "code c \<in> {10, 13, 9, 12, 8}"
    | "32 \<le> code c" "code c \<le> 126" "code c \<noteq> 34" "code c \<noteq> 92"
    | "\<not> (32 \<le> code c \<and> code c \<le> 126)" "code c \<notin> {10, 13, 9, 12, 8}" by auto
  then show ?thesis
  proof cases
    case 4
    then show ?thesis by (simp add: json_char_def eq)
  next
    case 5
    then have "json_char c = CHR 0x5C # CHR ''u'' # hex4 (code c)" by (auto simp: json_char_def Let_def)
    then show ?thesis using hex4_value [OF lt] lt by simp
  qed (auto simp: json_char_def unescape_def dest!: chars)
qed

lemma read_json_chars: "read_chars (concat (map json_char s) @ CHR 0x22 # r) = Some (s, r)"
  by (induction s) (simp_all add: read_json_char prepend_def)

section \<open>Numbers\<close>

lemma num_value_snoc: "num_value (ds @ [c]) = num_value ds * 10 + (int (code c) - 48)"
  by (simp add: num_value_def)

lemma num_value_show_nat: "num_value (show_nat n) = int n"
proof (induction n rule: show_nat.induct)
  case (1 n)
  have digit: "int (code (digit_char d)) - 48 = int d" if "d < 10" for d using that by (simp add: digit_char_def)
  show ?case
  proof (cases "n < 10")
    case True
    then show ?thesis using digit [of n] by (simp add: show_nat.simps [of n] num_value_def)
  next
    case False
    with 1 have "num_value (show_nat n) = int (n div 10) * 10 + int (n mod 10)"
      using digit [of "n mod 10"] by (simp add: show_nat.simps [of n] num_value_snoc)
    then show ?thesis by presburger
  qed
qed

lemma show_nat_num: "list_all is_num (show_nat n)"
  using show_nat_digits by (fastforce simp: list_all_iff is_num_def)

text \<open>What may follow a number: anything but a digit.\<close>

definition ends_number :: "string \<Rightarrow> bool" where
  "ends_number r = (case r of [] \<Rightarrow> True | c # cs \<Rightarrow> \<not> is_num c)"

lemma takeWhile_num: "list_all is_num ds \<Longrightarrow> ends_number r \<Longrightarrow> takeWhile is_num (ds @ r) = ds \<and> dropWhile is_num (ds @ r) = r"
  by (induction ds) (auto simp: ends_number_def split: list.splits)

lemma read_int_show_int:
  assumes "ends_number r"
  shows "read_int (show_int n @ r) = Some (JInt n, r)"
proof -
  let ?d = "show_nat (nat \<bar>n\<bar>)"
  have d: "takeWhile is_num (?d @ r) = ?d" "dropWhile is_num (?d @ r) = r"
    using takeWhile_num [OF show_nat_num assms] by auto
  have "take 1 (?d @ r) \<noteq> ''-''"
    using show_nat_num [of "nat \<bar>n\<bar>"] by (cases ?d) (auto simp: is_num_def)
  with d show ?thesis
    by (cases "n < 0") (simp_all add: read_int_def show_int_def num_value_show_nat Let_def)
qed

section \<open>Every text is read back\<close>

lemma skip_blanks [simp]: "blanks a \<Longrightarrow> skip (a @ x) = skip x"
  by (induction a) (simp_all add: skip_def)

lemma skip_token [simp]: "\<not> is_ws c \<Longrightarrow> skip (c # cs) = c # cs"
  by (simp add: skip_def)

lemma tokens_not_ws [simp]:
  "\<not> is_ws (CHR '']'')" "\<not> is_ws (CHR ''}'')" "\<not> is_ws (CHR '','')" "\<not> is_ws (CHR '':'')" "\<not> is_ws (CHR 0x22)"
  by (simp_all add: is_ws_def)

lemma ends_number_blanks: "blanks b \<Longrightarrow> \<not> is_num c \<Longrightarrow> ends_number (b @ c # r)"
  by (cases b) (auto simp: ends_number_def is_ws_def is_num_def)

lemma ends_number_tokens [simp]:
  "blanks b \<Longrightarrow> ends_number (b @ CHR '']'' # r)" "blanks b \<Longrightarrow> ends_number (b @ CHR ''}'' # r)"
  "blanks b \<Longrightarrow> ends_number (b @ CHR '','' # r)"
  by (simp_all add: ends_number_blanks is_num_def)

text \<open>A value begins with none of the tokens that can stand in its place.\<close>

definition begins_value :: "string \<Rightarrow> bool" where
  "begins_value t = (case t of [] \<Rightarrow> False | c # cs \<Rightarrow> \<not> is_ws c \<and> c \<noteq> CHR '']'' \<and> c \<noteq> CHR ''}'')"

lemma show_int_begins: "begins_value (show_int n)"
proof -
  obtain c cs where "show_nat (nat \<bar>n\<bar>) = c # cs" by (cases "show_nat (nat \<bar>n\<bar>)") auto
  moreover from this have "is_num c" using show_nat_num [of "nat \<bar>n\<bar>"] by simp
  ultimately show ?thesis by (auto simp: show_int_def begins_value_def is_ws_def is_num_def)
qed

lemma json_text_begins: "json_text v t \<Longrightarrow> begins_value t"
  by (erule json_text.cases)
    (simp add: show_int_begins | simp add: json_string_def begins_value_def is_ws_def split: if_splits)+

lemma begins_value_skip: "begins_value t \<Longrightarrow> skip (t @ x) = t @ x \<and> take 1 (t @ x) \<noteq> '']'' \<and> take 1 (t @ x) \<noteq> ''}''"
  by (cases t) (auto simp: begins_value_def)

lemma read_value_int:
  assumes "ends_number r"
  shows "read_value (Suc n) (show_int m @ r) = Some (JInt m, r)"
proof -
  obtain c cs where cs: "show_int m @ r = c # cs" using show_int_begins [of m] by (cases "show_int m") (auto simp: begins_value_def)
  have "c = CHR ''-'' \<or> is_num c"
    using cs show_nat_num [of "nat m"] by (cases "show_nat (nat m)") (auto simp: show_int_def split: if_splits)
  then have "c \<noteq> CHR 0x22 \<and> c \<noteq> CHR ''['' \<and> c \<noteq> CHR ''{'' \<and> c \<noteq> CHR ''n'' \<and> c \<noteq> CHR ''t'' \<and> c \<noteq> CHR ''f''"
    by (auto simp: is_num_def)
  with read_int_show_int [OF assms, of m] cs show ?thesis by simp
qed

lemma read_value_names:
  "read_value (Suc n) (''null'' @ r) = Some (JNull, r)"
  "read_value (Suc n) ((if b then ''true'' else ''false'') @ r) = Some (JBool b, r)"
  by (simp_all add: keyword_def)

lemma length_json_string: "json_string k @ x = CHR 0x22 # concat (map json_char k) @ CHR 0x22 # x"
  by (simp add: json_string_def)

lemma read_member:
  assumes "blanks b" "blanks c" "begins_value t" "read_value n (t @ r) = Some (v, r)"
  shows "read_members (Suc n) (json_string k @ b @ '':'' @ c @ t @ r) =
     (case skip r of
        [] \<Rightarrow> None
      | d # r3 \<Rightarrow>
          if d = CHR ''}'' then Some ([(k, v)], r3)
          else if d = CHR '','' then map_option (\<lambda>(kvs, r4). ((k, v) # kvs, r4)) (read_members n (skip r3))
          else None)"
  using assms begins_value_skip [OF assms(3), of r] by (simp add: length_json_string read_json_chars)

lemma read_texts:
  "json_text v t \<Longrightarrow> \<forall>n r. length t \<le> n \<longrightarrow> ends_number r \<longrightarrow> read_value n (t @ r) = Some (v, r)"
  "json_items vs u \<Longrightarrow> (vs = [] \<longrightarrow> blanks u) \<and> (vs \<noteq> [] \<longrightarrow> (\<forall>n r. Suc (length u) \<le> n \<longrightarrow>
     take 1 (skip (u @ r)) \<noteq> '']'' \<and> read_items n (skip (u @ CHR '']'' # r)) = Some (vs, r)))"
  "json_members kvs w \<Longrightarrow> (kvs = [] \<longrightarrow> blanks w) \<and> (kvs \<noteq> [] \<longrightarrow> (\<forall>n r. Suc (length w) \<le> n \<longrightarrow>
     take 1 (skip (w @ r)) \<noteq> ''}'' \<and> read_members n (skip (w @ CHR ''}'' # r)) = Some (kvs, r)))"
proof (induction rule: json_text_json_items_json_members.inducts)
  case (text_list vs t)
  show ?case
  proof (intro allI impI)
    fix n r
    assume n: "length (''['' @ t @ '']'') \<le> n" and r: "ends_number r"
    then obtain m where m: "n = Suc m" "Suc (length t) \<le> m" by (cases n) auto
    show "read_value n ((''['' @ t @ '']'') @ r) = Some (JList vs, r)"
    proof (cases "vs = []")
      case True
      with text_list show ?thesis by (simp add: m)
    next
      case False
      with text_list.IH m have "take 1 (skip (t @ CHR '']'' # r)) \<noteq> '']''"
        "read_items m (skip (t @ CHR '']'' # r)) = Some (vs, r)" by blast+
      then show ?thesis by (simp add: m)
    qed
  qed
next
  case (text_dict kvs t)
  show ?case
  proof (intro allI impI)
    fix n r
    assume n: "length (''{'' @ t @ ''}'') \<le> n" and r: "ends_number r"
    then obtain m where m: "n = Suc m" "Suc (length t) \<le> m" by (cases n) auto
    show "read_value n ((''{'' @ t @ ''}'') @ r) = Some (JDict kvs, r)"
    proof (cases "kvs = []")
      case True
      with text_dict show ?thesis by (simp add: m)
    next
      case False
      with text_dict.IH m have "take 1 (skip (t @ CHR ''}'' # r)) \<noteq> ''}''"
        "read_members m (skip (t @ CHR ''}'' # r)) = Some (kvs, r)" by blast+
      then show ?thesis by (simp add: m)
    qed
  qed
next
  case (text_str s)
  show ?case
  proof (intro allI impI)
    fix n r
    assume "length (json_string s) \<le> n" and "ends_number r"
    then obtain m where "n = Suc m" by (cases n) (auto simp: json_string_def)
    then show "read_value n (json_string s @ r) = Some (JStr s, r)" by (simp add: length_json_string read_json_chars)
  qed
next
  case text_null
  show ?case using read_value_names(1) by (auto dest: Suc_le_D)
next
  case (text_bool b)
  show ?case using read_value_names(2) [of _ b] by (cases b) (auto dest: Suc_le_D)
next
  case (text_int i)
  have "show_int i \<noteq> []" using show_int_begins [of i] by (auto simp: begins_value_def)
  then show ?case using read_value_int by (metis Suc_le_D le_zero_eq length_0_conv not0_implies_Suc)
next
  case (one_item a v t b)
  note beg = json_text_begins [OF one_item.hyps(2)]
  show ?case
  proof (intro conjI impI allI)
    fix n r
    assume n: "Suc (length (a @ t @ b)) \<le> n"
    then obtain m where m: "n = Suc m" "length t \<le> m" by (cases n) auto
    show "take 1 (skip ((a @ t @ b) @ r)) \<noteq> '']''" using one_item.hyps(1) begins_value_skip [OF beg, of "b @ r"] by simp
    have "read_value m (t @ b @ CHR '']'' # r) = Some (v, b @ CHR '']'' # r)" using one_item m by simp
    then show "read_items n (skip ((a @ t @ b) @ CHR '']'' # r)) = Some ([v], r)"
      using one_item.hyps begins_value_skip [OF beg, of "b @ CHR '']'' # r"] by (simp add: m)
  qed simp
next
  case (more_items a v t b vs u)
  note beg = json_text_begins [OF more_items.hyps(2)]
  show ?case
  proof (intro conjI impI allI)
    fix n r
    assume n: "Suc (length (a @ t @ b @ '','' @ u)) \<le> n"
    then obtain m where m: "n = Suc m" "length t \<le> m" "Suc (length u) \<le> m" by (cases n) auto
    show "take 1 (skip ((a @ t @ b @ '','' @ u) @ r)) \<noteq> '']''"
      using more_items.hyps(1) begins_value_skip [OF beg, of "b @ '','' @ u @ r"] by simp
    have "read_value m (t @ b @ CHR '','' # u @ CHR '']'' # r) = Some (v, b @ CHR '','' # u @ CHR '']'' # r)"
      using more_items m by simp
    moreover have "read_items m (skip (u @ CHR '']'' # r)) = Some (vs, r)" using more_items m(3) by blast
    ultimately show "read_items n (skip ((a @ t @ b @ '','' @ u) @ CHR '']'' # r)) = Some (v # vs, r)"
      using more_items.hyps begins_value_skip [OF beg, of "b @ CHR '','' # u @ CHR '']'' # r"] by (simp add: m)
  qed simp
next
  case (one_member a b c v t d k)
  note beg = json_text_begins [OF one_member.hyps(4)]
  show ?case
  proof (intro conjI impI allI)
    fix n r
    assume n: "Suc (length (a @ json_string k @ b @ '':'' @ c @ t @ d)) \<le> n"
    then obtain m where m: "n = Suc m" "length t \<le> m" by (cases n) auto
    show "take 1 (skip ((a @ json_string k @ b @ '':'' @ c @ t @ d) @ r)) \<noteq> ''}''"
      using one_member.hyps(1) by (simp add: json_string_def)
    have "read_value m (t @ d @ CHR ''}'' # r) = Some (v, d @ CHR ''}'' # r)" using one_member m by simp
    from read_member [OF one_member.hyps(2,3) beg this, of k] one_member.hyps
    show "read_members n (skip ((a @ json_string k @ b @ '':'' @ c @ t @ d) @ CHR ''}'' # r)) = Some ([(k, v)], r)"
      by (simp add: m) (simp add: length_json_string)
  qed simp
next
  case (more_members a b c v t d kvs u k)
  note beg = json_text_begins [OF more_members.hyps(4)]
  show ?case
  proof (intro conjI impI allI)
    fix n r
    assume n: "Suc (length (a @ json_string k @ b @ '':'' @ c @ t @ d @ '','' @ u)) \<le> n"
    then obtain m where m: "n = Suc m" "length t \<le> m" "Suc (length u) \<le> m" by (cases n) auto
    show "take 1 (skip ((a @ json_string k @ b @ '':'' @ c @ t @ d @ '','' @ u) @ r)) \<noteq> ''}''"
      using more_members.hyps(1) by (simp add: json_string_def)
    have v: "read_value m (t @ d @ CHR '','' # u @ CHR ''}'' # r) = Some (v, d @ CHR '','' # u @ CHR ''}'' # r)"
      using more_members m by simp
    have "read_members m (skip (u @ CHR ''}'' # r)) = Some (kvs, r)" using more_members m(3) by blast
    with read_member [OF more_members.hyps(2,3) beg v, of k] more_members.hyps
    show "read_members n (skip ((a @ json_string k @ b @ '':'' @ c @ t @ d @ '','' @ u) @ CHR ''}'' # r)) = Some ((k, v) # kvs, r)"
      by (simp add: m) (simp add: length_json_string)
  qed simp
qed auto

theorem json_read_text:
  assumes "json_text v t" "blanks a" "blanks b"
  shows "json_read (a @ t @ b) = Some v"
proof -
  have "ends_number b" using assms(3) by (cases b) (auto simp: ends_number_def is_ws_def is_num_def)
  then have "read_value (length (a @ t @ b)) (t @ b) = Some (v, b)" using read_texts(1) [OF assms(1)] by simp
  moreover have "skip (a @ t @ b) = t @ b" using assms begins_value_skip [OF json_text_begins [OF assms(1)], of b] by simp
  ultimately show ?thesis using assms(3) by (simp add: json_read_def)
qed

section \<open>The contract of a printer\<close>

text \<open>
  What a reader of JSON relies on: a printer prints, for every thing that is printable to it, a text of the thing's value.
  Then the value can be read back, with white space around it, and no two values share a text.
\<close>

locale json_printer =
  fixes can_print :: "'a \<Rightarrow> bool" and val :: "'a \<Rightarrow> jval" and print :: "'a \<Rightarrow> string"
  assumes prints: "can_print x \<Longrightarrow> json_text (val x) (print x)"
begin

lemma read_back: "can_print x \<Longrightarrow> blanks a \<Longrightarrow> blanks b \<Longrightarrow> json_read (a @ print x @ b) = Some (val x)"
  by (rule json_read_text [OF prints])

lemma read_alone: "can_print x \<Longrightarrow> json_read (print x) = Some (val x)"
  using read_back [of x "[]" "[]"] by simp

lemma read_line: "can_print x \<Longrightarrow> blanks b \<Longrightarrow> json_read (print x @ b) = Some (val x)"
  using read_back [of x "[]" b] by simp

lemma texts_differ: "can_print x \<Longrightarrow> can_print y \<Longrightarrow> print x = print y \<Longrightarrow> val x = val y"
  using read_alone by (metis option.inject)

end

end
