(* ===== verification/Unicode.thy ===== *)
theory Unicode
  imports Prelude "HOL-Library.Word"
begin

text \<open>
  File contents and their texts: bytes are 8-bit words, a text is a list of code points, and
  \<^verbatim>\<open>read_text(encoding="utf-8")\<close> is the strict UTF-8 decoder (no overlong forms, no surrogates,
  nothing above \<^verbatim>\<open>0x10FFFF\<close>) followed by the translation of line ends.
\<close>

type_synonym byte = "8 word"
type_synonym utext = "nat list"

section \<open>UTF-8\<close>

definition is_cont :: "nat \<Rightarrow> bool" where
  "is_cont b = (128 \<le> b \<and> b < 192)"

definition lead2 :: "nat \<Rightarrow> nat \<Rightarrow> nat" where
  "lead2 a b = (a - 192) * 64 + (b - 128)"

definition lead3 :: "nat \<Rightarrow> nat \<Rightarrow> nat \<Rightarrow> nat" where
  "lead3 a b c = ((a - 224) * 64 + (b - 128)) * 64 + (c - 128)"

definition lead4 :: "nat \<Rightarrow> nat \<Rightarrow> nat \<Rightarrow> nat \<Rightarrow> nat" where
  "lead4 a b c d = (((a - 240) * 64 + (b - 128)) * 64 + (c - 128)) * 64 + (d - 128)"

definition scalar_value :: "nat \<Rightarrow> bool" where
  "scalar_value n = (n < 55296 \<or> 57344 \<le> n \<and> n < 1114112)"

fun utf8_decode :: "nat list \<Rightarrow> utext option" where
  "utf8_decode [] = Some []"
| "utf8_decode (a # bs) =
     (if a < 128 then map_option (\<lambda>t. a # t) (utf8_decode bs)
      else if 192 \<le> a \<and> a < 224 then
        (case bs of
           b # r \<Rightarrow> if is_cont b \<and> 128 \<le> lead2 a b
                    then map_option (\<lambda>t. lead2 a b # t) (utf8_decode r) else None
         | _ \<Rightarrow> None)
      else if 224 \<le> a \<and> a < 240 then
        (case bs of
           b # c # r \<Rightarrow>
             if is_cont b \<and> is_cont c \<and> 2048 \<le> lead3 a b c \<and> scalar_value (lead3 a b c)
             then map_option (\<lambda>t. lead3 a b c # t) (utf8_decode r) else None
         | _ \<Rightarrow> None)
      else if 240 \<le> a \<and> a < 248 then
        (case bs of
           b # c # d # r \<Rightarrow>
             if is_cont b \<and> is_cont c \<and> is_cont d \<and> 65536 \<le> lead4 a b c d
                \<and> scalar_value (lead4 a b c d)
             then map_option (\<lambda>t. lead4 a b c d # t) (utf8_decode r) else None
         | _ \<Rightarrow> None)
      else None)"

definition decode_utf8 :: "byte list \<Rightarrow> utext result" where
  "decode_utf8 bs =
     (case utf8_decode (map unat bs) of None \<Rightarrow> Inl UnicodeError | Some t \<Rightarrow> Inr t)"

definition utf8_encode_char :: "nat \<Rightarrow> nat list" where
  "utf8_encode_char n =
     (if n < 128 then [n]
      else if n < 2048 then [192 + n div 64, 128 + n mod 64]
      else if n < 65536 then [224 + n div 4096, 128 + n div 64 mod 64, 128 + n mod 64]
      else [240 + n div 262144, 128 + n div 4096 mod 64, 128 + n div 64 mod 64, 128 + n mod 64])"

definition utf8_encode :: "utext \<Rightarrow> nat list" where
  "utf8_encode t = concat (map utf8_encode_char t)"

text \<open>The decoder reads back every text of scalar values.\<close>

lemma utf8_decode_encode_char:
  assumes "scalar_value n"
  shows "utf8_decode (utf8_encode_char n @ bs) = map_option (\<lambda>t. n # t) (utf8_decode bs)"
proof -
  have m: "k mod 64 < 64" for k :: nat by simp
  have d1: "n div 64 * 64 + n mod 64 = n" by simp
  have d2: "n div 4096 * 64 + n div 64 mod 64 = n div 64"
    using div_mult_mod_eq [of "n div 64" 64] by (simp add: div_mult2_eq [symmetric])
  have d3: "n div 262144 * 64 + n div 4096 mod 64 = n div 4096"
    using div_mult_mod_eq [of "n div 4096" 64] by (simp add: div_mult2_eq [symmetric])
  consider "n < 128" | "128 \<le> n" "n < 2048" | "2048 \<le> n" "n < 65536" | "65536 \<le> n" by linarith
  then show ?thesis
  proof cases
    case 1
    then show ?thesis by (simp add: utf8_encode_char_def)
  next
    case 2
    then have "n div 64 < 32" by (simp add: less_mult_imp_div_less)
    with 2 d1 show ?thesis by (simp add: utf8_encode_char_def is_cont_def lead2_def)
  next
    case 3
    then have "n div 4096 < 16" by (simp add: less_mult_imp_div_less)
    with 3 d1 d2 assms show ?thesis by (simp add: utf8_encode_char_def is_cont_def lead3_def)
  next
    case 4
    then have "n div 262144 < 8" using assms by (simp add: scalar_value_def less_mult_imp_div_less)
    moreover have "lead4 (240 + n div 262144) (128 + n div 4096 mod 64) (128 + n div 64 mod 64)
        (128 + n mod 64) = n"
      by (simp only: lead4_def add_diff_cancel_left' d3 d2 d1)
    ultimately show ?thesis using 4 assms by (simp add: utf8_encode_char_def is_cont_def)
  qed
qed

lemma utf8_decode_encode: "list_all scalar_value t \<Longrightarrow> utf8_decode (utf8_encode t) = Some t"
  by (induction t) (simp_all add: utf8_encode_def utf8_decode_encode_char)

section \<open>Texts\<close>

text \<open>Universal newlines: both \<^verbatim>\<open>"\r\n"\<close> and \<^verbatim>\<open>"\r"\<close> become \<^verbatim>\<open>"\n"\<close>.\<close>

fun newlines :: "utext \<Rightarrow> utext" where
  "newlines [] = []"
| "newlines (c # t) =
     (if c = 13 then 10 # (case t of d # u \<Rightarrow> if d = 10 then newlines u else newlines t | [] \<Rightarrow> [])
      else c # newlines t)"

lemma newlines_id: "13 \<notin> set t \<Longrightarrow> newlines t = t"
  by (induction t) auto

definition read_text :: "byte list result \<Rightarrow> utext result" where
  "read_text r = bind_result r (\<lambda>bs. bind_result (decode_utf8 bs) (\<lambda>t. Inr (newlines t)))"

text \<open>The code points \<^verbatim>\<open>str.strip()\<close> takes away; a text is blank when it has no others.\<close>

definition uni_space :: "nat \<Rightarrow> bool" where
  "uni_space n = (9 \<le> n \<and> n \<le> 13 \<or> 28 \<le> n \<and> n \<le> 32 \<or> n = 133 \<or> n = 160 \<or> n = 5760
     \<or> 8192 \<le> n \<and> n \<le> 8202 \<or> n \<in> {8232, 8233, 8239, 8287, 12288})"

definition blank :: "utext \<Rightarrow> bool" where
  "blank t = list_all uni_space t"

lemma blank_newlines: "blank (newlines t) = blank t"
  by (induction t rule: newlines.induct) (auto simp: blank_def uni_space_def split: list.splits)

definition of_string :: "string \<Rightarrow> utext" where
  "of_string s = map of_char s"

definition ascii_bytes :: "string \<Rightarrow> byte list" where
  "ascii_bytes s = map (\<lambda>c. word_of_nat (of_char c)) s"

end
