(* ===== verification/Disk.thy ===== *)
theory Disk
  imports Unicode "HOL-Library.AList" "HOL-Library.List_Lexorder" "HOL-Library.Char_ord"
begin

text \<open>
  The file system under the backups and the restored configuration, one function per system call
  the sources make. Every call can meet a fault: it can raise an \<^verbatim>\<open>OSError\<close> without effect, or
  the process can die there, after which no call has any effect. What the files hold is then what
  the next process finds. The section on triples gives the proof rules for such commands.
\<close>

section \<open>State\<close>

text \<open>A path is a directory and a name in it.\<close>

type_synonym path = "string \<times> string"

record inode =
  f_data :: "byte list"
  f_mode :: nat
  f_gid :: int

text \<open>\<open>Crash k\<close>: the process dies in the call; a write has then written its first \<open>k\<close> bytes.\<close>

datatype fault = Fine | Fail string | Crash nat

text \<open>
  \<open>rand_names\<close> are the random parts \<^verbatim>\<open>mkstemp\<close> tries next, \<open>proc_gid\<close> the group of the process.
\<close>

record disk =
  files :: "(path \<times> inode) list"
  dirs :: "(string \<times> int) list"
  proc_gid :: int
  rand_names :: "string list"
  faults :: "fault list"
  dead :: bool

definition find_file :: "disk \<Rightarrow> path \<Rightarrow> inode option" where
  "find_file d p = map_of (files d) p"

definition put_file :: "path \<Rightarrow> inode \<Rightarrow> disk \<Rightarrow> disk" where
  "put_file p f d = d\<lparr>files := AList.update p f (files d)\<rparr>"

definition del_file :: "path \<Rightarrow> disk \<Rightarrow> disk" where
  "del_file p d = d\<lparr>files := AList.delete p (files d)\<rparr>"

section \<open>System calls\<close>

definition died :: exn where
  "died = OSError ''process died''"

text \<open>\<open>op\<close> is what the call does, \<open>torn k\<close> what it leaves when the process dies in it.\<close>

definition syscall :: "(nat \<Rightarrow> disk \<Rightarrow> disk) \<Rightarrow> (disk, 'a) cmd \<Rightarrow> (disk, 'a) cmd" where
  "syscall torn op d =
     (if dead d then (Inl died, d)
      else case faults d of
             [] \<Rightarrow> op d
           | Fine # fs \<Rightarrow> op (d\<lparr>faults := fs\<rparr>)
           | Fail m # fs \<Rightarrow> (Inl (OSError m), d\<lparr>faults := fs\<rparr>)
           | Crash k # fs \<Rightarrow> (Inl died, torn k (d\<lparr>faults := fs, dead := True\<rparr>)))"

definition whole :: "nat \<Rightarrow> disk \<Rightarrow> disk" where
  "whole k d = d"

definition with_file :: "path \<Rightarrow> (inode \<Rightarrow> (disk, 'a) cmd) \<Rightarrow> (disk, 'a) cmd" where
  "with_file p k d = (case find_file d p of None \<Rightarrow> (Inl FileNotFoundError, d) | Some f \<Rightarrow> k f d)"

text \<open>\<^verbatim>\<open>mkstemp\<close>: the first of the random names that is free, created empty with mode 600 (octal).\<close>

fun pick_temp :: "(path \<Rightarrow> bool) \<Rightarrow> string \<Rightarrow> string \<Rightarrow> string \<Rightarrow> string list \<Rightarrow> (path \<times> string list) option" where
  "pick_temp taken dir prefix suffix [] = None"
| "pick_temp taken dir prefix suffix (r # rs) =
     (let p = (dir, prefix @ r @ suffix)
      in if taken p then pick_temp taken dir prefix suffix rs else Some (p, rs))"

definition mkstemp :: "string \<Rightarrow> string \<Rightarrow> string \<Rightarrow> (disk, path) cmd" where
  "mkstemp dir prefix suffix = syscall whole (\<lambda>d.
     if map_of (dirs d) dir = None then (Inl FileNotFoundError, d)
     else case pick_temp (\<lambda>p. find_file d p \<noteq> None) dir prefix suffix (rand_names d) of
            None \<Rightarrow> (Inl (OSError ''No usable temporary file name found''), d)
          | Some (p, rs) \<Rightarrow>
              (Inr p, put_file p \<lparr>f_data = [], f_mode = 0x180, f_gid = proc_gid d\<rparr> (d\<lparr>rand_names := rs\<rparr>)))"

definition write_data :: "path \<Rightarrow> byte list \<Rightarrow> disk \<Rightarrow> disk" where
  "write_data p bs d = (case find_file d p of None \<Rightarrow> d | Some f \<Rightarrow> put_file p (f\<lparr>f_data := bs\<rparr>) d)"

definition write_file :: "path \<Rightarrow> byte list \<Rightarrow> (disk, unit) cmd" where
  "write_file p bs = syscall (\<lambda>k. write_data p (take k bs)) (\<lambda>d. (Inr (), write_data p bs d))"

definition fsync_file :: "path \<Rightarrow> (disk, unit) cmd" where
  "fsync_file p = syscall whole (\<lambda>d. (Inr (), d))"

definition chmod_file :: "path \<Rightarrow> nat \<Rightarrow> (disk, unit) cmd" where
  "chmod_file p m = syscall whole (with_file p (\<lambda>f d. (Inr (), put_file p (f\<lparr>f_mode := m\<rparr>) d)))"

definition chown_file :: "path \<Rightarrow> int \<Rightarrow> (disk, unit) cmd" where
  "chown_file p g = syscall whole (with_file p (\<lambda>f d. (Inr (), put_file p (f\<lparr>f_gid := g\<rparr>) d)))"

definition stat_file :: "path \<Rightarrow> (disk, inode) cmd" where
  "stat_file p = syscall whole (with_file p (\<lambda>f d. (Inr f, d)))"

definition stat_dir :: "string \<Rightarrow> (disk, int) cmd" where
  "stat_dir dir = syscall whole (\<lambda>d.
     case map_of (dirs d) dir of None \<Rightarrow> (Inl FileNotFoundError, d) | Some g \<Rightarrow> (Inr g, d))"

definition read_file :: "path \<Rightarrow> (disk, byte list) cmd" where
  "read_file p = syscall whole (with_file p (\<lambda>f d. (Inr (f_data f), d)))"

definition replace_file :: "path \<Rightarrow> path \<Rightarrow> (disk, unit) cmd" where
  "replace_file src dst = syscall whole (with_file src (\<lambda>f d. (Inr (), put_file dst f (del_file src d))))"

text \<open>\<^verbatim>\<open>unlink(missing_ok=True)\<close>\<close>

definition unlink_file :: "path \<Rightarrow> (disk, unit) cmd" where
  "unlink_file p = syscall whole (\<lambda>d. (Inr (), del_file p d))"

definition file_exists :: "path \<Rightarrow> (disk, bool) cmd" where
  "file_exists p = syscall whole (\<lambda>d. (Inr (find_file d p \<noteq> None), d))"

text \<open>\<^verbatim>\<open>mkdir(parents=True, exist_ok=True)\<close>\<close>

definition make_dir :: "string \<Rightarrow> (disk, unit) cmd" where
  "make_dir dir = syscall whole (\<lambda>d.
     (Inr (), if map_of (dirs d) dir = None then d\<lparr>dirs := (dir, proc_gid d) # dirs d\<rparr> else d))"

definition names_in :: "string \<Rightarrow> disk \<Rightarrow> string list" where
  "names_in dir d = remdups (map snd (filter (\<lambda>p. fst p = dir) (map fst (files d))))"

text \<open>A directory with a file in it exists.\<close>

definition dir_exists :: "string \<Rightarrow> (disk, bool) cmd" where
  "dir_exists dir = syscall whole (\<lambda>d. (Inr (map_of (dirs d) dir \<noteq> None \<or> names_in dir d \<noteq> []), d))"

definition list_dir :: "string \<Rightarrow> (disk, string list) cmd" where
  "list_dir dir = syscall whole (\<lambda>d. (Inr (names_in dir d), d))"

text \<open>
  \<^verbatim>\<open>try: m except BaseException: cleanup; raise\<close>: an exception of the clean-up replaces the first.
\<close>

definition on_error :: "('s, 'a) cmd \<Rightarrow> ('s, unit) cmd \<Rightarrow> ('s, 'a) cmd" where
  "on_error m cleanup d =
     (case m d of
        (Inr x, d') \<Rightarrow> (Inr x, d')
      | (Inl e, d') \<Rightarrow>
          (case cleanup d' of (Inr u, d'') \<Rightarrow> (Inl e, d'') | (Inl e', d'') \<Rightarrow> (Inl e', d'')))"

text \<open>\<^verbatim>\<open>try: m except ..: handler\<close>, for the exceptions that \<open>caught\<close> selects.\<close>

definition catch :: "('s, 'a) cmd \<Rightarrow> (exn \<Rightarrow> bool) \<Rightarrow> (exn \<Rightarrow> ('s, 'a) cmd) \<Rightarrow> ('s, 'a) cmd" where
  "catch m caught handler d =
     (case m d of
        (Inr x, d') \<Rightarrow> (Inr x, d')
      | (Inl e, d') \<Rightarrow> if caught e then handler e d' else (Inl e, d'))"

fun for_each :: "'a list \<Rightarrow> ('a \<Rightarrow> ('s, unit) cmd) \<Rightarrow> ('s, unit) cmd" where
  "for_each [] k = ret ()"
| "for_each (x # xs) k = bind_cmd (k x) (\<lambda>_. for_each xs k)"

fun map_cmd :: "('a \<Rightarrow> ('s, 'b) cmd) \<Rightarrow> 'a list \<Rightarrow> ('s, 'b list) cmd" where
  "map_cmd k [] = ret []"
| "map_cmd k (x # xs) = bind_cmd (k x) (\<lambda>y. bind_cmd (map_cmd k xs) (\<lambda>ys. ret (y # ys)))"

fun filter_cmd :: "('a \<Rightarrow> ('s, bool) cmd) \<Rightarrow> 'a list \<Rightarrow> ('s, 'a list) cmd" where
  "filter_cmd k [] = ret []"
| "filter_cmd k (x # xs) =
     bind_cmd (k x) (\<lambda>b. bind_cmd (filter_cmd k xs) (\<lambda>ys. ret (if b then x # ys else ys)))"

section \<open>Contents\<close>

lemma find_put [simp]: "find_file (put_file p f d) q = (if q = p then Some f else find_file d q)"
  by (simp add: find_file_def put_file_def update_conv')

lemma find_del [simp]: "find_file (del_file p d) q = (if q = p then None else find_file d q)"
  by (simp add: find_file_def del_file_def delete_conv')

lemma find_del_fun: "find_file (del_file p d) = (find_file d)(p := None)"
  by (simp add: fun_eq_iff)

lemma find_file_update [simp]:
  "find_file (d\<lparr>faults := fs\<rparr>) = find_file d" "find_file (d\<lparr>dead := b\<rparr>) = find_file d"
  "find_file (d\<lparr>rand_names := rs\<rparr>) = find_file d" "find_file (d\<lparr>dirs := ds\<rparr>) = find_file d"
  by (simp_all add: find_file_def fun_eq_iff)

lemma set_names_in: "set (names_in dir d) = {n. find_file d (dir, n) \<noteq> None}"
  by (force simp: names_in_def find_file_def map_of_eq_None_iff)

lemma distinct_names_in: "distinct (names_in dir d)"
  by (simp add: names_in_def)

lemma pick_temp_Some:
  "pick_temp taken dir prefix suffix rs = Some (p, rs') \<Longrightarrow>
   \<not> taken p \<and> (\<exists>r. p = (dir, prefix @ r @ suffix))"
  by (induction rs) (auto simp: Let_def split: if_splits)

section \<open>Triples\<close>

text \<open>
  \<open>triple P m Q R\<close>: from files that satisfy \<open>P\<close>, a return of \<open>m\<close> leaves files that satisfy \<open>Q\<close> of its
  value, and an exception, or the death of the process, leaves files that satisfy \<open>R\<close>. The
  predicates see the files only, so they hold under every plan of faults.
\<close>

type_synonym contents = "path \<Rightarrow> inode option"

definition triple ::
    "(contents \<Rightarrow> bool) \<Rightarrow> (disk, 'a) cmd \<Rightarrow> ('a \<Rightarrow> contents \<Rightarrow> bool) \<Rightarrow> (contents \<Rightarrow> bool) \<Rightarrow> bool" where
  "triple P m Q R \<longleftrightarrow> (\<forall>d. P (find_file d) \<longrightarrow>
     (case m d of (Inr x, d') \<Rightarrow> Q x (find_file d') | (Inl e, d') \<Rightarrow> R (find_file d')))"

named_theorems triples

lemma tripleD_Inr: "triple P m Q R \<Longrightarrow> P (find_file d) \<Longrightarrow> m d = (Inr x, d') \<Longrightarrow> Q x (find_file d')"
  by (fastforce simp: triple_def)

lemma tripleD_Inl: "triple P m Q R \<Longrightarrow> P (find_file d) \<Longrightarrow> m d = (Inl e, d') \<Longrightarrow> R (find_file d')"
  by (fastforce simp: triple_def)

lemma triple_conseq:
  "triple P m Q R \<Longrightarrow> (\<And>c. P' c \<Longrightarrow> P c) \<Longrightarrow> (\<And>x c. Q x c \<Longrightarrow> Q' x c) \<Longrightarrow> (\<And>c. R c \<Longrightarrow> R' c) \<Longrightarrow>
   triple P' m Q' R'"
  by (fastforce simp: triple_def split: prod.splits sum.splits)

lemma triple_ret: "(\<And>c. P c \<Longrightarrow> Q x c) \<Longrightarrow> triple P (ret x) Q R"
  by (simp add: triple_def)

lemma triple_raise: "(\<And>c. P c \<Longrightarrow> R c) \<Longrightarrow> triple P (raise e) Q R"
  by (simp add: triple_def)

lemma triple_bind:
  "triple P m Q R \<Longrightarrow> (\<And>x. triple (Q x) (k x) Q' R) \<Longrightarrow> triple P (bind_cmd m k) Q' R"
  by (fastforce simp: triple_def bind_cmd_def split: prod.splits sum.splits)

lemma triple_on_error:
  "triple P m Q R \<Longrightarrow> triple R cleanup (\<lambda>_. R') R' \<Longrightarrow> triple P (on_error m cleanup) Q R'"
  by (fastforce simp: triple_def on_error_def split: prod.splits sum.splits)

lemma triple_catch:
  "triple P m Q R \<Longrightarrow> (\<And>c. R c \<Longrightarrow> R' c) \<Longrightarrow> (\<And>e. triple R (handler e) Q R') \<Longrightarrow>
   triple P (catch m caught handler) Q R'"
  by (fastforce simp: triple_def catch_def split: prod.splits sum.splits)

lemma triple_if:
  "(b \<Longrightarrow> triple P m Q R) \<Longrightarrow> (\<not> b \<Longrightarrow> triple P n Q R) \<Longrightarrow> triple P (if b then m else n) Q R"
  by simp

lemma triple_for_each:
  "(\<And>x. x \<in> set xs \<Longrightarrow> triple I (k x) (\<lambda>_. I) R) \<Longrightarrow> (\<And>c. I c \<Longrightarrow> R c) \<Longrightarrow>
   triple I (for_each xs k) (\<lambda>_. I) R"
  by (induction xs) (auto intro: triple_bind triple_ret)

lemma triple_point: "(\<And>cc. P cc \<Longrightarrow> triple (\<lambda>c. c = cc) m Q R) \<Longrightarrow> triple P m Q R"
  by (simp add: triple_def)

text \<open>A list filtered by a query that leaves the files alone.\<close>

lemma triple_filter_cmd:
  assumes "\<And>x. triple (\<lambda>c. c = cc) (k x) (\<lambda>b c. c = cc \<and> (b \<longleftrightarrow> A x)) R"
    and "R cc"
  shows "triple (\<lambda>c. c = cc) (filter_cmd k xs) (\<lambda>ys c. c = cc \<and> ys = filter A xs) R"
proof (induction xs)
  case (Cons x xs)
  have "triple (\<lambda>c. c = cc \<and> (b \<longleftrightarrow> A x)) (bind_cmd (filter_cmd k xs) (\<lambda>ys. ret (if b then x # ys else ys)))
      (\<lambda>ys c. c = cc \<and> ys = filter A (x # xs)) R" for b
  proof (cases "b = A x")
    case True
    have "triple (\<lambda>c. c = cc \<and> (b \<longleftrightarrow> A x)) (filter_cmd k xs) (\<lambda>ys c. c = cc \<and> ys = filter A xs) R"
      by (rule triple_conseq [OF Cons.IH]) auto
    then show ?thesis using True by (intro triple_bind triple_ret) auto
  qed (simp add: triple_def)
  with assms(1) [of x] show ?case unfolding filter_cmd.simps by (rule triple_bind)
next
  case Nil
  show ?case unfolding filter_cmd.simps by (rule triple_ret) simp
qed

lemma triple_map_cmd_rel:
  assumes "\<And>x. triple (\<lambda>c. c = cc) (k x) (\<lambda>y c. c = cc \<and> S x y) R" and "R cc"
  shows "triple (\<lambda>c. c = cc) (map_cmd k xs) (\<lambda>ys c. c = cc \<and> list_all2 S xs ys) R"
proof (induction xs)
  case (Cons x xs)
  have "triple (\<lambda>c. c = cc \<and> S x y) (bind_cmd (map_cmd k xs) (\<lambda>ys. ret (y # ys)))
      (\<lambda>ys c. c = cc \<and> list_all2 S (x # xs) ys) R" for y
  proof (cases "S x y")
    case True
    then show ?thesis
      by (intro triple_bind [OF triple_conseq [OF Cons.IH]] triple_ret) auto
  qed (simp add: triple_def)
  with assms(1) [of x] show ?case unfolding map_cmd.simps by (rule triple_bind)
next
  case Nil
  show ?case unfolding map_cmd.simps by (rule triple_ret) simp
qed

lemma triple_of_result: "triple P (of_result r) (\<lambda>x c. P c \<and> r = Inr x) P"
  by (simp add: triple_def split: sum.split)

text \<open>A call that leaves the files alone keeps every predicate.\<close>

lemma triple_syscall:
  assumes "\<And>d. P (find_file d) \<Longrightarrow>
      (case op d of (Inr x, d') \<Rightarrow> Q x (find_file d') | (Inl e, d') \<Rightarrow> R (find_file d'))"
    and "\<And>k d. P (find_file d) \<Longrightarrow> R (find_file (torn k d))" and "\<And>c. P c \<Longrightarrow> R c"
  shows "triple P (syscall torn op) Q R"
proof -
  have "case syscall torn op d of (Inr x, d') \<Rightarrow> Q x (find_file d') | (Inl e, d') \<Rightarrow> R (find_file d')"
    if P: "P (find_file d)" for d
    using assms(1) [of d] assms(1) [of "d\<lparr>faults := tl (faults d)\<rparr>"] P assms(2,3)
    by (auto simp: syscall_def split: list.split fault.split)
  then show ?thesis by (simp add: triple_def)
qed

lemma triple_query:
  assumes "\<And>d x d'. op d = (Inr x, d') \<Longrightarrow> P (find_file d) \<Longrightarrow> Q x (find_file d) \<and> find_file d' = find_file d"
    and "\<And>d e d'. op d = (Inl e, d') \<Longrightarrow> find_file d' = find_file d" and "\<And>c. P c \<Longrightarrow> R c"
  shows "triple P (syscall whole op) Q R"
proof (rule triple_syscall)
  fix d
  assume P: "P (find_file d)"
  show "case op d of (Inr x, d') \<Rightarrow> Q x (find_file d') | (Inl e, d') \<Rightarrow> R (find_file d')"
  proof (cases "op d")
    case (Pair r d')
    then show ?thesis using assms(1) [of d _ d'] assms(2) [of d _ d'] assms(3) P by (cases r) auto
  qed
qed (simp_all add: whole_def assms(3))

lemma triple_read [triples]:
  "triple P (read_file p) (\<lambda>bs c. P c \<and> (\<exists>f. c p = Some f \<and> f_data f = bs)) P"
  unfolding read_file_def by (rule triple_query) (auto simp: with_file_def split: option.splits)

lemma triple_stat [triples]: "triple P (stat_file p) (\<lambda>f c. P c \<and> c p = Some f) P"
  unfolding stat_file_def by (rule triple_query) (auto simp: with_file_def split: option.splits)

lemma triple_stat_dir [triples]: "triple P (stat_dir dir) (\<lambda>_. P) P"
  unfolding stat_dir_def by (rule triple_query) (auto split: option.splits)

lemma triple_fsync [triples]: "triple P (fsync_file p) (\<lambda>_. P) P"
  unfolding fsync_file_def by (rule triple_query) auto

lemma triple_exists [triples]: "triple P (file_exists p) (\<lambda>b c. P c \<and> (b \<longleftrightarrow> c p \<noteq> None)) P"
  unfolding file_exists_def by (rule triple_query) auto

lemma triple_dir_exists [triples]:
  "triple P (dir_exists dir) (\<lambda>b c. P c \<and> (\<not> b \<longrightarrow> (\<forall>n. c (dir, n) = None))) P"
proof -
  have "find_file d (dir, n) = None" if "names_in dir d = []" for d n
    using that set_names_in [of dir d] by auto
  then show ?thesis unfolding dir_exists_def by (intro triple_query) auto
qed

lemma triple_make_dir [triples]: "triple P (make_dir dir) (\<lambda>_. P) P"
  unfolding make_dir_def by (rule triple_query) auto

lemma triple_list_dir [triples]:
  "triple P (list_dir dir) (\<lambda>ns c. P c \<and> distinct ns \<and> set ns = {n. c (dir, n) \<noteq> None}) P"
  unfolding list_dir_def by (rule triple_query) (auto simp: set_names_in distinct_names_in)

lemma triple_mkstemp [triples]:
  "triple P (mkstemp dir prefix suffix)
     (\<lambda>p c. (\<exists>r. p = (dir, prefix @ r @ suffix))
        \<and> (\<exists>c0 f. P c0 \<and> c0 p = None \<and> c = c0(p \<mapsto> f))) P"
  unfolding mkstemp_def
proof (rule triple_syscall)
  fix d
  assume "P (find_file d)"
  then show "case (if map_of (dirs d) dir = None then (Inl FileNotFoundError, d)
      else case pick_temp (\<lambda>p. find_file d p \<noteq> None) dir prefix suffix (rand_names d) of
            None \<Rightarrow> (Inl (OSError ''No usable temporary file name found''), d)
          | Some (p, rs) \<Rightarrow>
              (Inr p, put_file p \<lparr>f_data = [], f_mode = 0x180, f_gid = proc_gid d\<rparr> (d\<lparr>rand_names := rs\<rparr>))) of
      (Inr p, d') \<Rightarrow> (\<exists>r. p = (dir, prefix @ r @ suffix))
        \<and> (\<exists>c0 f. P c0 \<and> c0 p = None \<and> find_file d' = c0(p \<mapsto> f))
    | (Inl e, d') \<Rightarrow> P (find_file d')"
    by (auto simp: fun_eq_iff split: option.split prod.split dest!: pick_temp_Some
        intro!: exI [of _ "find_file d"])
qed (simp_all add: whole_def)

text \<open>A call that changes one file, as a map from contents to contents.\<close>

lemma triple_write [triples]:
  assumes "\<And>c bs'. P c \<Longrightarrow> R (case c p of None \<Rightarrow> c | Some f \<Rightarrow> c(p \<mapsto> f\<lparr>f_data := bs'\<rparr>))"
    and "\<And>c. P c \<Longrightarrow> R c"
  shows "triple P (write_file p bs)
     (\<lambda>_ c. \<exists>c0. P c0 \<and> c = (case c0 p of None \<Rightarrow> c0 | Some f \<Rightarrow> c0(p \<mapsto> f\<lparr>f_data := bs\<rparr>))) R"
proof -
  have w: "find_file (write_data p bs' d)
      = (case find_file d p of None \<Rightarrow> find_file d | Some f \<Rightarrow> (find_file d)(p \<mapsto> f\<lparr>f_data := bs'\<rparr>))" for bs' d
    by (auto simp: write_data_def fun_eq_iff split: option.split)
  show ?thesis
    unfolding write_file_def by (rule triple_syscall) (auto simp: w assms)
qed

lemma triple_with_file:
  assumes eff: "\<And>f d. find_file (g f d) = h f (find_file d)"
    and "\<And>c. P c \<Longrightarrow> R c" and "\<And>c f. P c \<Longrightarrow> c p = Some f \<Longrightarrow> Q () (h f c)"
  shows "triple P (syscall whole (with_file p (\<lambda>f d. (Inr (), g f d)))) Q R"
  by (rule triple_syscall) (auto simp: with_file_def whole_def assms split: option.split)

lemma triple_chmod [triples]:
  "(\<And>c f. P c \<Longrightarrow> c p = Some f \<Longrightarrow> Q () (c(p \<mapsto> f\<lparr>f_mode := m\<rparr>))) \<Longrightarrow> (\<And>c. P c \<Longrightarrow> R c) \<Longrightarrow>
   triple P (chmod_file p m) Q R"
  unfolding chmod_file_def
  by (rule triple_with_file [where h = "\<lambda>f c. c(p \<mapsto> f\<lparr>f_mode := m\<rparr>)"]) (auto simp: fun_eq_iff)

lemma triple_chown [triples]:
  "(\<And>c f. P c \<Longrightarrow> c p = Some f \<Longrightarrow> Q () (c(p \<mapsto> f\<lparr>f_gid := g\<rparr>))) \<Longrightarrow> (\<And>c. P c \<Longrightarrow> R c) \<Longrightarrow>
   triple P (chown_file p g) Q R"
  unfolding chown_file_def
  by (rule triple_with_file [where h = "\<lambda>f c. c(p \<mapsto> f\<lparr>f_gid := g\<rparr>)"]) (auto simp: fun_eq_iff)

lemma triple_replace [triples]:
  "(\<And>c f. P c \<Longrightarrow> c src = Some f \<Longrightarrow> Q () ((c(src := None))(dst \<mapsto> f))) \<Longrightarrow> (\<And>c. P c \<Longrightarrow> R c) \<Longrightarrow>
   triple P (replace_file src dst) Q R"
  unfolding replace_file_def
  by (rule triple_with_file [where h = "\<lambda>f c. (c(src := None))(dst \<mapsto> f)"]) (auto simp: fun_eq_iff)

lemma triple_unlink [triples]:
  "(\<And>c. P c \<Longrightarrow> Q () (c(p := None))) \<Longrightarrow> (\<And>c. P c \<Longrightarrow> R c) \<Longrightarrow> triple P (unlink_file p) Q R"
  unfolding unlink_file_def by (rule triple_syscall) (simp_all add: whole_def find_del_fun)

end
