(* ===== verification/Deploy.thy ===== *)
theory Deploy
  imports Disk HealthMonitor
begin

text \<open>
  The deployment script (\<^verbatim>\<open>contracts/deploy.py\<close>): its guards, the two transactions it broadcasts, the
  verification of what was deployed and the evidence file. web3, eth_account and the chain are not part of the
  sources: their operations are a record of commands over a chain of any type. The script's own state adds the
  files, the transactions broadcast and the lines printed.
\<close>

section \<open>The interfaces\<close>

text \<open>
  The fields the script gives a transaction. Its data are the constructor call: the ABI and the bytecode of the
  artifact and the arguments, which the library encodes.
\<close>

record tx_params =
  tx_abi :: jval
  tx_bytecode :: string
  tx_args :: "string list"
  tx_chain_id :: int
  tx_from :: string
  tx_nonce :: int
  tx_max_fee :: int
  tx_priority_fee :: int
  tx_gas :: int

record receipt =
  rc_contract_address :: "string option"
  rc_status :: int
  rc_block_number :: int

text \<open>
  \<open>w3_build\<close> is what \<^verbatim>\<open>build_transaction\<close> checks of the call and asks of the chain; it keeps the
  fields given. \<open>w3_sign\<close> is the signing by an account. The calls of a contract take its ABI and its address.
\<close>

record 'w web3 =
  w3_is_address :: "string \<Rightarrow> bool"
  w3_to_checksum :: "string \<Rightarrow> string"
  w3_account :: "string \<Rightarrow> string result"
  w3_chain_id :: "('w, int) cmd"
  w3_nonce :: "string \<Rightarrow> ('w, int) cmd"
  w3_base_fee :: "('w, int option) cmd"
  w3_priority_fee :: "('w, int) cmd"
  w3_build :: "tx_params \<Rightarrow> ('w, unit) cmd"
  w3_estimate_gas :: "tx_params \<Rightarrow> ('w, int) cmd"
  w3_sign :: "string \<Rightarrow> tx_params \<Rightarrow> string result"
  w3_send :: "string \<Rightarrow> ('w, string) cmd"
  w3_receipt :: "string \<Rightarrow> ('w, receipt) cmd"
  w3_owner :: "jval \<Rightarrow> string \<Rightarrow> ('w, string) cmd"
  w3_keeper :: "jval \<Rightarrow> string \<Rightarrow> string \<Rightarrow> ('w, bool) cmd"
  w3_paused :: "jval \<Rightarrow> string \<Rightarrow> ('w, bool) cmd"
  w3_guardian :: "jval \<Rightarrow> string \<Rightarrow> ('w, string) cmd"

text \<open>
  The directory of the script, and for the path of an artifact what parsing it gives, or \<open>None\<close> when there
  is no such file.
\<close>

type_synonym artifacts = "string \<times> (string \<Rightarrow> jval result option)"

record deployment =
  dp_name :: string
  dp_address :: string
  dp_transaction_hash :: string
  dp_block_number :: int

record 'w deploy_state =
  ds_chain :: 'w
  ds_disk :: disk
  ds_sent :: "tx_params list"
  ds_out :: "jval list"

definition on_chain :: "('w, 'a) cmd \<Rightarrow> ('w deploy_state, 'a) cmd" where
  "on_chain m st = (case m (ds_chain st) of (r, w) \<Rightarrow> (r, st\<lparr>ds_chain := w\<rparr>))"

definition on_disk :: "(disk, 'a) cmd \<Rightarrow> ('w deploy_state, 'a) cmd" where
  "on_disk m st = (case m (ds_disk st) of (r, d) \<Rightarrow> (r, st\<lparr>ds_disk := d\<rparr>))"

definition print_json :: "jval \<Rightarrow> ('w deploy_state, unit) cmd" where
  "print_json v st = (Inr (), st\<lparr>ds_out := ds_out st @ [v]\<rparr>)"

section \<open>The environment and the guards\<close>

definition base_sepolia :: int where
  "base_sepolia = 84532"

definition required_env :: "(string \<Rightarrow> string option) \<Rightarrow> string \<Rightarrow> string result" where
  "required_env env name =
     (let v = strip (case env name of None \<Rightarrow> [] | Some s \<Rightarrow> s)
      in if v = [] then Inl (RuntimeError (name @ '' is required'')) else Inr v)"

definition checksum_address :: "'w web3 \<Rightarrow> (string \<Rightarrow> string option) \<Rightarrow> string \<Rightarrow> string result" where
  "checksum_address w env name =
     bind_result (required_env env name) (\<lambda>v.
       if \<not> w3_is_address w v then Inl (RuntimeError (name @ '' must be a valid address''))
       else Inr (w3_to_checksum w v))"

definition validate_chain :: "int \<Rightarrow> unit result" where
  "validate_chain actual =
     (if actual \<noteq> base_sepolia
      then Inl (RuntimeError (''Refusing deployment: expected chain '' @ show_int base_sepolia @ '', got '' @ show_int actual))
      else Inr ())"

definition validate_roles :: "string \<Rightarrow> string \<Rightarrow> unit result" where
  "validate_roles owner keeper =
     (if owner = keeper then Inl (RuntimeError ''OWNER_ADDRESS and KEEPER_ADDRESS must differ'') else Inr ())"

section \<open>Artifacts and fees\<close>

definition load_artifact :: "artifacts \<Rightarrow> string \<Rightarrow> jval result" where
  "load_artifact arts name =
     (let p = fst arts @ ''/out/'' @ name @ ''.sol/'' @ name @ ''.json''
      in case snd arts p of
           None \<Rightarrow> Inl (RuntimeError (''Missing '' @ p @ ''; run `cd contracts && forge build` first''))
         | Some r \<Rightarrow> r)"

text \<open>\<^verbatim>\<open>v[key]\<close>\<close>

definition subscript :: "jval \<Rightarrow> string \<Rightarrow> jval result" where
  "subscript v key =
     (case v of
        JDict kvs \<Rightarrow> (case map_of kvs key of None \<Rightarrow> Inl (OtherError ''KeyError'') | Some x \<Rightarrow> Inr x)
      | _ \<Rightarrow> Inl (OtherError ''TypeError''))"

definition artifact_bytecode :: "string \<Rightarrow> jval \<Rightarrow> string result" where
  "artifact_bytecode name artifact =
     bind_result (subscript artifact ''bytecode'') (\<lambda>b.
     bind_result (subscript b ''object'') (\<lambda>c.
       case c of
         JStr s \<Rightarrow> if startswith s ''0x'' then Inr s else Inl (RuntimeError (''Invalid bytecode in '' @ name @ '' artifact''))
       | _ \<Rightarrow> Inl (RuntimeError (''Invalid bytecode in '' @ name @ '' artifact''))))"

definition fee_fields :: "'w web3 \<Rightarrow> ('w deploy_state, int \<times> int) cmd" where
  "fee_fields w =
     bind_cmd (on_chain (w3_base_fee w)) (\<lambda>base_fee.
       case base_fee of
         None \<Rightarrow> raise (RuntimeError ''RPC pending block does not expose EIP-1559 baseFeePerGas'')
       | Some base \<Rightarrow>
           bind_cmd (on_chain (w3_priority_fee w)) (\<lambda>priority. ret (base * 2 + priority, priority)))"

section \<open>Deploying\<close>

text \<open>The transaction that creates a contract, with its gas.\<close>

definition build_deployment ::
    "'w web3 \<Rightarrow> artifacts \<Rightarrow> string \<Rightarrow> string \<Rightarrow> string list \<Rightarrow> int \<Rightarrow> ('w deploy_state, tx_params) cmd" where
  "build_deployment w arts account name args nonce =
     bind_cmd (of_result (load_artifact arts name)) (\<lambda>artifact.
     bind_cmd (of_result (artifact_bytecode name artifact)) (\<lambda>bytecode.
     bind_cmd (of_result (subscript artifact ''abi'')) (\<lambda>abi.
     bind_cmd (fee_fields w) (\<lambda>(max_fee, priority_fee).
     let tx = \<lparr>tx_abi = abi, tx_bytecode = bytecode, tx_args = args, tx_chain_id = base_sepolia,
               tx_from = account, tx_nonce = nonce, tx_max_fee = max_fee, tx_priority_fee = priority_fee, tx_gas = 0\<rparr>
     in bind_cmd (on_chain (w3_build w tx)) (\<lambda>_.
        bind_cmd (on_chain (w3_estimate_gas w tx)) (\<lambda>gas. ret (tx\<lparr>tx_gas := gas * 120 div 100\<rparr>)))))))"

text \<open>Signing and sending: the transaction counts as broadcast once the node is asked to send it.\<close>

definition send_raw :: "'w web3 \<Rightarrow> tx_params \<Rightarrow> string \<Rightarrow> ('w deploy_state, string) cmd" where
  "send_raw w tx raw st = on_chain (w3_send w raw) (st\<lparr>ds_sent := ds_sent st @ [tx]\<rparr>)"

definition sign_and_send :: "'w web3 \<Rightarrow> string \<Rightarrow> tx_params \<Rightarrow> ('w deploy_state, string) cmd" where
  "sign_and_send w account tx = bind_cmd (of_result (w3_sign w account tx)) (send_raw w tx)"

definition confirm_deployment :: "'w web3 \<Rightarrow> string \<Rightarrow> string \<Rightarrow> ('w deploy_state, deployment) cmd" where
  "confirm_deployment w name hash =
     bind_cmd (on_chain (w3_receipt w hash)) (\<lambda>receipt.
       case rc_contract_address receipt of
         None \<Rightarrow> raise (RuntimeError (name @ '' deployment failed: '' @ hash))
       | Some address \<Rightarrow>
           if rc_status receipt \<noteq> 1 then raise (RuntimeError (name @ '' deployment failed: '' @ hash))
           else ret \<lparr>dp_name = name, dp_address = w3_to_checksum w address, dp_transaction_hash = hash,
                     dp_block_number = rc_block_number receipt\<rparr>)"

definition deploy_contract ::
    "'w web3 \<Rightarrow> artifacts \<Rightarrow> string \<Rightarrow> string \<Rightarrow> string list \<Rightarrow> int \<Rightarrow> ('w deploy_state, deployment) cmd" where
  "deploy_contract w arts account name args nonce =
     bind_cmd (build_deployment w arts account name args nonce) (\<lambda>tx.
     bind_cmd (sign_and_send w account tx) (\<lambda>hash.
     bind_cmd (print_json (JDict [(''event'', JStr ''deployment_broadcast''), (''contract'', JStr name),
                 (''tx'', JStr hash)])) (\<lambda>_.
     confirm_deployment w name hash)))"

definition verify_deployment ::
    "'w web3 \<Rightarrow> artifacts \<Rightarrow> deployment \<Rightarrow> deployment \<Rightarrow> string \<Rightarrow> string \<Rightarrow> ('w deploy_state, unit) cmd" where
  "verify_deployment w arts guardian vault owner keeper =
     bind_cmd (of_result (load_artifact arts ''Guardian'')) (\<lambda>guardian_artifact.
     bind_cmd (of_result (load_artifact arts ''DemoVault'')) (\<lambda>vault_artifact.
     bind_cmd (of_result (subscript guardian_artifact ''abi'')) (\<lambda>guardian_abi.
     bind_cmd (of_result (subscript vault_artifact ''abi'')) (\<lambda>vault_abi.
     bind_cmd (on_chain (w3_owner w guardian_abi (dp_address guardian))) (\<lambda>actual_owner.
     if actual_owner \<noteq> owner then raise (RuntimeError ''Guardian owner verification failed'')
     else bind_cmd (on_chain (w3_keeper w guardian_abi (dp_address guardian) keeper)) (\<lambda>enabled.
     if \<not> enabled then raise (RuntimeError ''Guardian keeper verification failed'')
     else bind_cmd (on_chain (w3_paused w guardian_abi (dp_address guardian))) (\<lambda>paused.
     if paused then raise (RuntimeError ''Guardian unexpectedly starts paused'')
     else bind_cmd (on_chain (w3_guardian w vault_abi (dp_address vault))) (\<lambda>actual_guardian.
     if actual_guardian \<noteq> dp_address guardian then raise (RuntimeError ''DemoVault Guardian verification failed'')
     else ret ()))))))))"

section \<open>The evidence\<close>

text \<open>\<^verbatim>\<open>json.dumps(value, indent=2)\<close>; the evidence has no reals, and there is no equation for them.\<close>

fun json_pretty :: "string \<Rightarrow> jval \<Rightarrow> string" where
  "json_pretty ind JNull = ''null''"
| "json_pretty ind (JBool b) = (if b then ''true'' else ''false'')"
| "json_pretty ind (JInt n) = show_int n"
| "json_pretty ind (JStr s) = json_string s"
| "json_pretty ind (JList vs) =
     (if vs = [] then ''[]''
      else ''['' @ [CHR 0x0A] @ join ('','' @ [CHR 0x0A]) (map (\<lambda>v. ind @ ''  '' @ json_pretty (ind @ ''  '') v) vs)
             @ [CHR 0x0A] @ ind @ '']'')"
| "json_pretty ind (JDict kvs) =
     (if kvs = [] then ''{}''
      else ''{'' @ [CHR 0x0A]
             @ join ('','' @ [CHR 0x0A])
                 (map (\<lambda>kv. ind @ ''  '' @ json_string (fst kv) @ '': '' @ json_pretty (ind @ ''  '') (snd kv)) kvs)
             @ [CHR 0x0A] @ ind @ ''}'')"

text \<open>\<^verbatim>\<open>write_text\<close>: the file is created or truncated, then written.\<close>

definition write_new_file :: "path \<Rightarrow> byte list \<Rightarrow> (disk, unit) cmd" where
  "write_new_file p bs =
     syscall (\<lambda>k d. put_file p (case find_file d p of
                     None \<Rightarrow> \<lparr>f_data = take k bs, f_mode = 0x1A4, f_gid = proc_gid d\<rparr>
                   | Some f \<Rightarrow> f\<lparr>f_data := take k bs\<rparr>) d)
       (\<lambda>d. (Inr (), put_file p (case find_file d p of
                     None \<Rightarrow> \<lparr>f_data = bs, f_mode = 0x1A4, f_gid = proc_gid d\<rparr>
                   | Some f \<Rightarrow> f\<lparr>f_data := bs\<rparr>) d))"

definition evidence_bytes :: "jval \<Rightarrow> byte list" where
  "evidence_bytes v = ascii_bytes (json_pretty [] v @ [CHR 0x0A])"

definition atomic_write_json :: "path \<Rightarrow> jval \<Rightarrow> (disk, unit) cmd" where
  "atomic_write_json p payload =
     bind_cmd (make_dir (fst p)) (\<lambda>_.
     let temporary = (fst p, snd p @ ''.tmp'')
     in bind_cmd (write_new_file temporary (evidence_bytes payload)) (\<lambda>_. replace_file temporary p))"

text \<open>\<^verbatim>\<open>datetime.now(UTC).isoformat()\<close>\<close>

definition iso_utc :: "datetime \<Rightarrow> string" where
  "iso_utc t = butlast (iso_z t) @ ''+00:00''"

definition deployment_json :: "deployment \<Rightarrow> jval" where
  "deployment_json d = JDict [(''name'', JStr (dp_name d)), (''address'', JStr (dp_address d)),
     (''transaction_hash'', JStr (dp_transaction_hash d)), (''block_number'', JInt (dp_block_number d))]"

definition evidence ::
    "datetime \<Rightarrow> int \<Rightarrow> string \<Rightarrow> string \<Rightarrow> string \<Rightarrow> deployment \<Rightarrow> deployment \<Rightarrow> jval" where
  "evidence now chain account owner keeper guardian vault =
     JDict [(''schemaVersion'', JInt 1), (''verifiedAt'', JStr (iso_utc now)), (''chainId'', JInt chain),
       (''deployer'', JStr account), (''owner'', JStr owner), (''keeper'', JStr keeper),
       (''contracts'', JList [deployment_json guardian, deployment_json vault]),
       (''verification'', JDict [(''guardianOwner'', JBool True), (''keeperEnabled'', JBool True),
          (''guardianInitiallyUnpaused'', JBool True), (''vaultReadsGuardian'', JBool True)])]"

section \<open>The script\<close>

text \<open>\<open>env\<close> is the environment after \<^verbatim>\<open>load_dotenv\<close>, \<open>target\<close> the argument of \<^verbatim>\<open>--evidence\<close>.\<close>

definition deploy_and_verify ::
    "'w web3 \<Rightarrow> artifacts \<Rightarrow> path option \<Rightarrow> datetime \<Rightarrow> int \<Rightarrow> string \<Rightarrow> string \<Rightarrow> string
       \<Rightarrow> ('w deploy_state, unit) cmd" where
  "deploy_and_verify w arts target now chain account owner keeper =
     bind_cmd (on_chain (w3_nonce w account)) (\<lambda>nonce.
     bind_cmd (deploy_contract w arts account ''Guardian'' [owner, keeper] nonce) (\<lambda>guardian.
     bind_cmd (deploy_contract w arts account ''DemoVault'' [dp_address guardian] (nonce + 1)) (\<lambda>vault.
     bind_cmd (verify_deployment w arts guardian vault owner keeper) (\<lambda>_.
     let payload = evidence now chain account owner keeper guardian vault
     in bind_cmd (case target of None \<Rightarrow> ret () | Some p \<Rightarrow> on_disk (atomic_write_json p payload)) (\<lambda>_.
        print_json payload)))))"

definition deploy_main ::
    "'w web3 \<Rightarrow> artifacts \<Rightarrow> (string \<Rightarrow> string option) \<Rightarrow> path option \<Rightarrow> datetime \<Rightarrow> ('w deploy_state, unit) cmd" where
  "deploy_main w arts env target now =
     bind_cmd (of_result (required_env env ''RPC_HTTP'')) (\<lambda>_.
     bind_cmd (on_chain (w3_chain_id w)) (\<lambda>chain.
     bind_cmd (of_result (validate_chain chain)) (\<lambda>_.
     bind_cmd (of_result (required_env env ''DEPLOYER_PRIVATE_KEY'')) (\<lambda>key.
     bind_cmd (of_result (w3_account w key)) (\<lambda>account.
     bind_cmd (of_result (checksum_address w env ''OWNER_ADDRESS'')) (\<lambda>owner.
     bind_cmd (of_result (checksum_address w env ''KEEPER_ADDRESS'')) (\<lambda>keeper.
     bind_cmd (of_result (validate_roles owner keeper)) (\<lambda>_.
     deploy_and_verify w arts target now chain account owner keeper))))))))"

section \<open>Rules\<close>

text \<open>
  \<open>runs P m Q R\<close>: from what \<open>P\<close> says of the files and of the transactions broadcast, a return leaves \<open>Q\<close> of
  its value, and an exception leaves \<open>R\<close>. The chain may answer anything.
\<close>

type_synonym view = "contents \<Rightarrow> tx_params list \<Rightarrow> bool"

definition holds :: "view \<Rightarrow> 'w deploy_state \<Rightarrow> bool" where
  "holds V st \<longleftrightarrow> V (find_file (ds_disk st)) (ds_sent st)"

definition runs :: "view \<Rightarrow> ('w deploy_state, 'a) cmd \<Rightarrow> ('a \<Rightarrow> view) \<Rightarrow> view \<Rightarrow> bool" where
  "runs P m Q R \<longleftrightarrow>
     (\<forall>st. holds P st \<longrightarrow> (case m st of (Inr x, st') \<Rightarrow> holds (Q x) st' | (Inl e, st') \<Rightarrow> holds R st'))"

lemma runsD_Inr: "runs P m Q R \<Longrightarrow> holds P st \<Longrightarrow> m st = (Inr x, st') \<Longrightarrow> holds (Q x) st'"
  by (fastforce simp: runs_def)

lemma runsD_Inl: "runs P m Q R \<Longrightarrow> holds P st \<Longrightarrow> m st = (Inl e, st') \<Longrightarrow> holds R st'"
  by (fastforce simp: runs_def)

lemma runs_bind: "runs P m Q R \<Longrightarrow> (\<And>x. runs (Q x) (k x) Q' R) \<Longrightarrow> runs P (bind_cmd m k) Q' R"
  by (fastforce simp: runs_def bind_cmd_def split: prod.splits sum.splits)

lemma runs_ret: "(\<And>c s. P c s \<Longrightarrow> Q x c s) \<Longrightarrow> runs P (ret x) Q R"
  by (simp add: runs_def holds_def)

lemma runs_raise: "(\<And>c s. P c s \<Longrightarrow> R c s) \<Longrightarrow> runs P (raise e) Q R"
  by (simp add: runs_def holds_def)

lemma runs_conseq:
  "runs P m Q R \<Longrightarrow> (\<And>c s. P' c s \<Longrightarrow> P c s) \<Longrightarrow> (\<And>x c s. Q x c s \<Longrightarrow> Q' x c s)
   \<Longrightarrow> (\<And>c s. R c s \<Longrightarrow> R' c s) \<Longrightarrow> runs P' m Q' R'"
  by (fastforce simp: runs_def holds_def split: prod.splits sum.splits)

lemma runs_assume: "(B \<Longrightarrow> runs P m Q R) \<Longrightarrow> runs (\<lambda>c s. P c s \<and> B) m Q R"
  by (cases B) (simp_all add: runs_def holds_def)

text \<open>A pure step, then the rest under what its value is.\<close>

lemma runs_of_result_bind:
  "(\<And>x. r = Inr x \<Longrightarrow> runs P (k x) Q R) \<Longrightarrow> (\<And>c s. P c s \<Longrightarrow> R c s) \<Longrightarrow> runs P (bind_cmd (of_result r) k) Q R"
  by (cases r) (auto simp: runs_def bind_cmd_def holds_def)

text \<open>A question to the chain changes neither the files nor what was sent.\<close>

lemma runs_on_chain:
  "(\<And>c s. P c s \<Longrightarrow> R c s) \<Longrightarrow> runs P (on_chain m) (\<lambda>x c s. P c s \<and> (\<exists>a. fst (m a) = Inr x)) R"
  by (auto simp: runs_def on_chain_def holds_def split: prod.splits sum.splits) (metis fst_conv)

lemma runs_on_chain_bind:
  "(\<And>x a. fst (m a) = Inr x \<Longrightarrow> runs P (k x) Q R) \<Longrightarrow> (\<And>c s. P c s \<Longrightarrow> R c s) \<Longrightarrow>
   runs P (bind_cmd (on_chain m) k) Q R"
  by (rule runs_bind [OF runs_on_chain]) (auto intro: runs_assume)

lemma runs_print: "(\<And>c s. P c s \<Longrightarrow> Q () c s) \<Longrightarrow> runs P (print_json v) Q R"
  by (simp add: runs_def print_json_def holds_def)

lemma runs_on_disk:
  "triple P m Q R \<Longrightarrow> runs (\<lambda>c s. P c \<and> s = S) (on_disk m) (\<lambda>x c s. Q x c \<and> s = S) (\<lambda>c s. R c \<and> s = S)"
  by (fastforce simp: runs_def triple_def holds_def on_disk_def split: prod.splits sum.splits)

text \<open>It is enough to start from one list of transactions at a time.\<close>

lemma runs_point: "(\<And>s0. runs (\<lambda>c s. P c s \<and> s = s0) m Q R) \<Longrightarrow> runs P m Q R"
  by (simp add: runs_def holds_def)

section \<open>What a deployment sends\<close>

text \<open>The transaction that creates a contract: for the right chain, with the artifact's code, fees and gas by the rules.\<close>

definition tx_ok :: "artifacts \<Rightarrow> string \<Rightarrow> string \<Rightarrow> string list \<Rightarrow> int \<Rightarrow> tx_params \<Rightarrow> bool" where
  "tx_ok arts account name args nonce tx \<longleftrightarrow>
     (\<exists>artifact. load_artifact arts name = Inr artifact \<and> artifact_bytecode name artifact = Inr (tx_bytecode tx)
        \<and> subscript artifact ''abi'' = Inr (tx_abi tx))
     \<and> tx_args tx = args \<and> tx_chain_id tx = base_sepolia \<and> tx_from tx = account \<and> tx_nonce tx = nonce
     \<and> (\<exists>base. tx_max_fee tx = base * 2 + tx_priority_fee tx) \<and> (\<exists>gas. tx_gas tx = gas * 120 div 100)"

lemma runs_fee_fields: "(\<And>c s. P c s \<Longrightarrow> R c s) \<Longrightarrow> runs P (fee_fields w) (\<lambda>(m, p) c s. P c s \<and> (\<exists>base. m = base * 2 + p)) R"
  unfolding fee_fields_def
  by (rule runs_on_chain_bind) (auto split: option.split intro!: runs_raise runs_on_chain_bind runs_ret)

lemma runs_build_deployment:
  assumes PR: "\<And>c s. P c s \<Longrightarrow> R c s"
  shows "runs P (build_deployment w arts account name args nonce) (\<lambda>tx c s. P c s \<and> tx_ok arts account name args nonce tx) R"
  unfolding build_deployment_def
proof (intro runs_of_result_bind PR)
  fix artifact bytecode abi
  assume *: "load_artifact arts name = Inr artifact" "artifact_bytecode name artifact = Inr bytecode"
    "subscript artifact ''abi'' = Inr abi"
  show "runs P (bind_cmd (fee_fields w) (\<lambda>(max_fee, priority_fee).
     let tx = \<lparr>tx_abi = abi, tx_bytecode = bytecode, tx_args = args, tx_chain_id = base_sepolia,
               tx_from = account, tx_nonce = nonce, tx_max_fee = max_fee, tx_priority_fee = priority_fee, tx_gas = 0\<rparr>
     in bind_cmd (on_chain (w3_build w tx)) (\<lambda>_.
        bind_cmd (on_chain (w3_estimate_gas w tx)) (\<lambda>gas. ret (tx\<lparr>tx_gas := gas * 120 div 100\<rparr>)))))
     (\<lambda>tx c s. P c s \<and> tx_ok arts account name args nonce tx) R"
  proof (rule runs_bind [OF runs_fee_fields])
    fix fees :: "int \<times> int"
    obtain m p where fees: "fees = (m, p)" by (cases fees)
    show "runs (case fees of (m, p) \<Rightarrow> \<lambda>c s. P c s \<and> (\<exists>base. m = base * 2 + p))
     (case fees of (max_fee, priority_fee) \<Rightarrow>
     let tx = \<lparr>tx_abi = abi, tx_bytecode = bytecode, tx_args = args, tx_chain_id = base_sepolia,
               tx_from = account, tx_nonce = nonce, tx_max_fee = max_fee, tx_priority_fee = priority_fee, tx_gas = 0\<rparr>
     in bind_cmd (on_chain (w3_build w tx)) (\<lambda>_.
        bind_cmd (on_chain (w3_estimate_gas w tx)) (\<lambda>gas. ret (tx\<lparr>tx_gas := gas * 120 div 100\<rparr>))))
     (\<lambda>tx c s. P c s \<and> tx_ok arts account name args nonce tx) R"
      unfolding fees split Let_def
    proof (rule runs_assume, intro runs_on_chain_bind PR runs_ret)
      fix gas c s
      assume "\<exists>base. m = base * 2 + p" "P c s"
      then show "P c s \<and> tx_ok arts account name args nonce
        (\<lparr>tx_abi = abi, tx_bytecode = bytecode, tx_args = args, tx_chain_id = base_sepolia, tx_from = account,
          tx_nonce = nonce, tx_max_fee = m, tx_priority_fee = p, tx_gas = 0\<rparr>\<lparr>tx_gas := gas * 120 div 100\<rparr>)"
        using * by (simp add: tx_ok_def del: div_mult_mult1) blast
    qed
  qed (rule PR)
qed

lemma runs_sign_and_send:
  assumes "\<And>c s. P c s \<Longrightarrow> R c s" and "\<And>c s. P c s \<Longrightarrow> R c (s @ [tx])"
    and "\<And>x c s. P c s \<Longrightarrow> Q x c (s @ [tx])"
  shows "runs P (sign_and_send w account tx) Q R"
proof -
  have "runs P (send_raw w tx raw) Q R" for raw
    using assms by (auto simp: runs_def send_raw_def on_chain_def holds_def split: prod.split sum.split)
  then have "runs P (bind_cmd (of_result (w3_sign w account tx)) (send_raw w tx)) Q R"
    by (intro runs_of_result_bind assms(1))
  then show ?thesis by (simp add: sign_and_send_def)
qed

lemma runs_confirm_deployment:
  assumes "\<And>c s. P c s \<Longrightarrow> R c s"
  shows "runs P (confirm_deployment w name hash) (\<lambda>d c s. P c s \<and> dp_name d = name \<and> dp_transaction_hash d = hash) R"
  unfolding confirm_deployment_def
  by (rule runs_on_chain_bind) (use assms in \<open>auto split: option.split intro!: runs_raise runs_ret\<close>)

text \<open>A deployment adds one transaction, or none when it fails before it is sent, and leaves the files alone.\<close>

lemma runs_deploy_contract:
  assumes "\<And>c s. P c s \<Longrightarrow> R c s" and "\<And>c s tx. P c s \<Longrightarrow> tx_ok arts account name args nonce tx \<Longrightarrow> R c (s @ [tx])"
    and "\<And>d c s tx. P c s \<Longrightarrow> tx_ok arts account name args nonce tx \<Longrightarrow> dp_name d = name \<Longrightarrow> Q d c (s @ [tx])"
  shows "runs P (deploy_contract w arts account name args nonce) Q R"
  unfolding deploy_contract_def
proof (rule runs_bind [OF runs_build_deployment])
  fix tx
  let ?sent = "\<lambda>c s. \<exists>s0. P c s0 \<and> s = s0 @ [tx]"
  show "runs (\<lambda>c s. P c s \<and> tx_ok arts account name args nonce tx) (bind_cmd (sign_and_send w account tx) (\<lambda>hash.
     bind_cmd (print_json (JDict [(''event'', JStr ''deployment_broadcast''), (''contract'', JStr name),
                 (''tx'', JStr hash)])) (\<lambda>_.
     confirm_deployment w name hash))) Q R"
  proof (rule runs_assume)
    assume ok: "tx_ok arts account name args nonce tx"
    have sent: "?sent c s \<Longrightarrow> R c s" for c s using assms(2) ok by blast
    have confirm: "runs ?sent (confirm_deployment w name hash) Q R" for hash
      by (rule runs_conseq [OF runs_confirm_deployment [where P = ?sent, OF sent]]) (use assms(3) ok in \<open>auto\<close>)
    show "runs P (bind_cmd (sign_and_send w account tx) (\<lambda>hash.
       bind_cmd (print_json (JDict [(''event'', JStr ''deployment_broadcast''), (''contract'', JStr name),
                   (''tx'', JStr hash)])) (\<lambda>_.
       confirm_deployment w name hash))) Q R"
      by (rule runs_bind [OF runs_sign_and_send [where Q = "\<lambda>_. ?sent"]], use assms(1,2) ok in \<open>blast+\<close>)
        (rule runs_bind [OF runs_print [where Q = "\<lambda>_. ?sent"]], simp, rule confirm)
  qed
qed (rule assms(1))

text \<open>Every question of the verification was answered as it has to be.\<close>

definition contracts_verified :: "'w web3 \<Rightarrow> artifacts \<Rightarrow> deployment \<Rightarrow> deployment \<Rightarrow> string \<Rightarrow> string \<Rightarrow> bool" where
  "contracts_verified w arts guardian vault owner keeper \<longleftrightarrow>
     (\<exists>ga va gabi vabi. load_artifact arts ''Guardian'' = Inr ga \<and> load_artifact arts ''DemoVault'' = Inr va
        \<and> subscript ga ''abi'' = Inr gabi \<and> subscript va ''abi'' = Inr vabi
        \<and> (\<exists>a. fst (w3_owner w gabi (dp_address guardian) a) = Inr owner)
        \<and> (\<exists>a. fst (w3_keeper w gabi (dp_address guardian) keeper a) = Inr True)
        \<and> (\<exists>a. fst (w3_paused w gabi (dp_address guardian) a) = Inr False)
        \<and> (\<exists>a. fst (w3_guardian w vabi (dp_address vault) a) = Inr (dp_address guardian)))"

lemma runs_guard: "(\<And>c s. P c s \<Longrightarrow> R c s) \<Longrightarrow> (\<not> b \<Longrightarrow> runs P m Q R) \<Longrightarrow> runs P (if b then raise e else m) Q R"
  by (cases b) (auto intro: runs_raise)

lemma runs_verify_deployment:
  assumes "\<And>c s. P c s \<Longrightarrow> R c s"
  shows "runs P (verify_deployment w arts guardian vault owner keeper)
    (\<lambda>_ c s. P c s \<and> contracts_verified w arts guardian vault owner keeper) R"
  unfolding verify_deployment_def
proof (intro runs_of_result_bind runs_on_chain_bind runs_guard runs_ret assms)
  fix ga va gabi vabi ao a en b pa a' gu a'' c s
  assume "load_artifact arts ''Guardian'' = Inr ga" "load_artifact arts ''DemoVault'' = Inr va"
    "subscript ga ''abi'' = Inr gabi" "subscript va ''abi'' = Inr vabi"
    "fst (w3_owner w gabi (dp_address guardian) a) = Inr ao" "\<not> ao \<noteq> owner"
    "fst (w3_keeper w gabi (dp_address guardian) keeper b) = Inr en" "\<not> \<not> en"
    "fst (w3_paused w gabi (dp_address guardian) a') = Inr pa" "\<not> pa"
    "fst (w3_guardian w vabi (dp_address vault) a'') = Inr gu" "\<not> gu \<noteq> dp_address guardian" "P c s"
  then show "P c s \<and> contracts_verified w arts guardian vault owner keeper"
    unfolding contracts_verified_def by auto
qed

section \<open>The evidence file\<close>

abbreviation (input) temporary :: "path \<Rightarrow> path" where
  "temporary p \<equiv> (fst p, snd p @ ''.tmp'')"

lemma triple_write_new_file:
  assumes "\<And>c f. P c \<Longrightarrow> R (c(p \<mapsto> f))" and "\<And>c. P c \<Longrightarrow> R c"
    and "\<And>c f. P c \<Longrightarrow> f_data f = bs \<Longrightarrow> Q () (c(p \<mapsto> f))"
  shows "triple P (write_new_file p bs) Q R"
proof -
  have put: "find_file (put_file p f d) = (find_file d)(p \<mapsto> f)" for f d by (simp add: fun_eq_iff)
  show ?thesis
    unfolding write_new_file_def
    by (rule triple_syscall) (auto simp: put assms split: option.split)
qed

text \<open>Until the last step, which cannot be torn, the evidence file is the old one.\<close>

lemma triple_atomic_write_json:
  "triple (\<lambda>c. c = C) (atomic_write_json p payload)
     (\<lambda>_ c. \<exists>f. c p = Some f \<and> f_data f = evidence_bytes payload) (\<lambda>c. c p = C p)"
  unfolding atomic_write_json_def Let_def
proof (rule triple_bind)
  let ?mid = "\<lambda>c. c p = C p \<and> (\<exists>f. c (temporary p) = Some f \<and> f_data f = evidence_bytes payload)"
  show "triple (\<lambda>c. c = C) (make_dir (fst p)) (\<lambda>_ c. c = C) (\<lambda>c. c p = C p)"
    by (rule triple_conseq [OF triple_make_dir [where P = "\<lambda>c. c = C"]]) auto
  have "p \<noteq> temporary p" by (cases p) simp
  then have "triple (\<lambda>c. c = C) (write_new_file (temporary p) (evidence_bytes payload)) (\<lambda>_. ?mid) (\<lambda>c. c p = C p)"
    by (intro triple_write_new_file) auto
  moreover have "triple ?mid (replace_file (temporary p) p)
     (\<lambda>_ c. \<exists>f. c p = Some f \<and> f_data f = evidence_bytes payload) (\<lambda>c. c p = C p)"
    by (rule triple_replace) auto
  ultimately show "triple (\<lambda>c. c = C) (bind_cmd (write_new_file (temporary p) (evidence_bytes payload))
      (\<lambda>_. replace_file (temporary p) p))
     (\<lambda>_ c. \<exists>f. c p = Some f \<and> f_data f = evidence_bytes payload) (\<lambda>c. c p = C p)"
    by (rule triple_bind)
qed

section \<open>The script\<close>

text \<open>What was broadcast: nothing, the guardian, or the guardian and after it the vault.\<close>

definition sent_ok :: "artifacts \<Rightarrow> string \<Rightarrow> string \<Rightarrow> string \<Rightarrow> tx_params list \<Rightarrow> bool" where
  "sent_ok arts account owner keeper txs \<longleftrightarrow>
     txs = [] \<or> (\<exists>nonce g. tx_ok arts account ''Guardian'' [owner, keeper] nonce g
       \<and> (txs = [g] \<or> (\<exists>address v. tx_ok arts account ''DemoVault'' [address] (nonce + 1) v \<and> txs = [g, v])))"

definition deployed ::
    "'w web3 \<Rightarrow> artifacts \<Rightarrow> path option \<Rightarrow> datetime \<Rightarrow> int \<Rightarrow> string \<Rightarrow> string \<Rightarrow> string \<Rightarrow> contents
       \<Rightarrow> tx_params list \<Rightarrow> bool" where
  "deployed w arts target now chain account owner keeper c txs \<longleftrightarrow>
     (\<exists>guardian vault. contracts_verified w arts guardian vault owner keeper
        \<and> dp_name guardian = ''Guardian'' \<and> dp_name vault = ''DemoVault''
        \<and> (\<exists>nonce g v. tx_ok arts account ''Guardian'' [owner, keeper] nonce g
             \<and> tx_ok arts account ''DemoVault'' [dp_address guardian] (nonce + 1) v \<and> txs = [g, v])
        \<and> (case target of None \<Rightarrow> True
           | Some p \<Rightarrow> \<exists>f. c p = Some f
               \<and> f_data f = evidence_bytes (evidence now chain account owner keeper guardian vault)))"

lemma deployed_length: "deployed w arts target now chain account owner keeper c txs \<Longrightarrow> length txs = 2"
  by (auto simp: deployed_def)

lemma deployedI:
  "contracts_verified w arts guardian vault owner keeper \<Longrightarrow> dp_name guardian = ''Guardian'' \<Longrightarrow> dp_name vault = ''DemoVault''
   \<Longrightarrow> tx_ok arts account ''Guardian'' [owner, keeper] nonce g
   \<Longrightarrow> tx_ok arts account ''DemoVault'' [dp_address guardian] (nonce + 1) v
   \<Longrightarrow> (\<And>p. target = Some p \<Longrightarrow> \<exists>f. c p = Some f
         \<and> f_data f = evidence_bytes (evidence now chain account owner keeper guardian vault))
   \<Longrightarrow> deployed w arts target now chain account owner keeper c [g, v]"
  unfolding deployed_def
  by (rule exI [of _ guardian], rule exI [of _ vault], intro conjI) (auto split: option.split)

lemma runs_deploy_and_verify:
  "runs (\<lambda>c s. c = C \<and> s = S) (deploy_and_verify w arts target now chain account owner keeper)
     (\<lambda>_ c s. \<exists>txs. s = S @ txs \<and> deployed w arts target now chain account owner keeper c txs)
     (\<lambda>c s. (\<forall>p. target = Some p \<longrightarrow> c p = C p) \<and> (\<exists>txs. s = S @ txs \<and> sent_ok arts account owner keeper txs))"
    (is "runs ?P _ ?Q ?R")
  unfolding deploy_and_verify_def
proof (intro runs_on_chain_bind)
  fix nonce
  let ?g = "tx_ok arts account ''Guardian'' [owner, keeper] nonce"
  let ?v = "\<lambda>a. tx_ok arts account ''DemoVault'' [a] (nonce + 1)"
  let ?P1 = "\<lambda>d c s. c = C \<and> dp_name d = ''Guardian'' \<and> (\<exists>g. ?g g \<and> s = S @ [g])"
  let ?P2 = "\<lambda>d d' c s. c = C \<and> dp_name d = ''Guardian'' \<and> dp_name d' = ''DemoVault''
     \<and> (\<exists>g v. ?g g \<and> ?v (dp_address d) v \<and> s = S @ [g, v])"
  have r0: "?P c s \<Longrightarrow> ?R c s" for c s by (simp add: sent_ok_def)
  have r1: "c = C \<Longrightarrow> ?g g \<Longrightarrow> s = S @ [g] \<Longrightarrow> ?R c s" for c s g by (simp add: sent_ok_def) blast
  have r2: "c = C \<Longrightarrow> ?g g \<Longrightarrow> ?v a v \<Longrightarrow> s = S @ [g, v] \<Longrightarrow> ?R c s" for c s g a v
    by (simp add: sent_ok_def) blast
  show "runs ?P (bind_cmd (deploy_contract w arts account ''Guardian'' [owner, keeper] nonce) (\<lambda>guardian.
     bind_cmd (deploy_contract w arts account ''DemoVault'' [dp_address guardian] (nonce + 1)) (\<lambda>vault.
     bind_cmd (verify_deployment w arts guardian vault owner keeper) (\<lambda>_.
     let payload = evidence now chain account owner keeper guardian vault
     in bind_cmd (case target of None \<Rightarrow> ret () | Some p \<Rightarrow> on_disk (atomic_write_json p payload)) (\<lambda>_.
        print_json payload))))) ?Q ?R"
  proof (rule runs_bind [where Q = ?P1], goal_cases)
    case 1
    show ?case using r0 r1 by (intro runs_deploy_contract) blast+
  next
    case (2 d)
    show ?case
    proof (rule runs_bind [where Q = "?P2 d"], goal_cases)
      case 1
      show ?case by (intro runs_deploy_contract) (use r1 r2 in force)+
    next
      case (2 d')
      let ?S2 = "\<lambda>c s. ?P2 d d' c s \<and> contracts_verified w arts d d' owner keeper"
      let ?e = "evidence now chain account owner keeper d d'"
      have r3: "?P2 d d' c s \<Longrightarrow> ?R c s" for c s using r2 by blast
      have ev: "runs ?S2 (case target of None \<Rightarrow> ret () | Some p \<Rightarrow> on_disk (atomic_write_json p ?e)) ?Q ?R"
      proof (cases target)
        case None
        then show ?thesis by (simp, intro runs_ret) (blast intro: deployedI)
      next
        case (Some p)
        have "runs (\<lambda>c s. ?S2 c s \<and> s = s0) (on_disk (atomic_write_json p ?e)) ?Q ?R" for s0
        proof (cases "?S2 C s0")
          case True
          show ?thesis
            by (rule runs_conseq [OF runs_on_disk [OF triple_atomic_write_json, where S = s0]])
              (use True r3 Some in \<open>blast intro: deployedI\<close>)+
        qed (auto simp: runs_def holds_def)
        then show ?thesis unfolding Some option.case by (rule runs_point)
      qed
      show ?case
        unfolding Let_def
        by (rule runs_bind [OF runs_verify_deployment [OF r3]], assumption, rule runs_bind [OF ev], rule runs_print)
    qed
  qed
qed (auto simp: sent_ok_def)

lemma validate_chain_Inr: "validate_chain n = Inr u \<Longrightarrow> n = base_sepolia"
  by (simp add: validate_chain_def split: if_splits)

lemma validate_roles_Inr: "validate_roles owner keeper = Inr u \<Longrightarrow> owner \<noteq> keeper"
  by (simp add: validate_roles_def split: if_splits)

text \<open>The guards of the script, all passed.\<close>

definition may_deploy ::
    "'w web3 \<Rightarrow> (string \<Rightarrow> string option) \<Rightarrow> 'w \<Rightarrow> string \<Rightarrow> string \<Rightarrow> string \<Rightarrow> bool" where
  "may_deploy w env chain account owner keeper \<longleftrightarrow> fst (w3_chain_id w chain) = Inr base_sepolia
     \<and> (\<exists>key. required_env env ''DEPLOYER_PRIVATE_KEY'' = Inr key \<and> w3_account w key = Inr account)
     \<and> checksum_address w env ''OWNER_ADDRESS'' = Inr owner \<and> checksum_address w env ''KEEPER_ADDRESS'' = Inr keeper
     \<and> owner \<noteq> keeper"

text \<open>A run stops at a guard, before anything is sent or written, or is a deployment behind the guards.\<close>

lemma deploy_main_cases:
  assumes "deploy_main w arts env target now st = (r, st')"
  obtains e where "r = Inl e" "ds_disk st' = ds_disk st" "ds_sent st' = ds_sent st"
  | account owner keeper chain where "may_deploy w env (ds_chain st) account owner keeper"
      "deploy_and_verify w arts target now base_sepolia account owner keeper (st\<lparr>ds_chain := chain\<rparr>) = (r, st')"
  using assms
  by (auto simp: deploy_main_def may_deploy_def bind_cmd_def on_chain_def of_result_def
      dest: validate_chain_Inr validate_roles_Inr
      dest!: sym [of "Inl _" "validate_chain _"] sym [of "Inl _" "validate_roles _ _"] split: prod.splits sum.splits)

section \<open>Properties\<close>


text \<open>What a run of the script ends in: one lemma for the properties of the evidence.\<close>

lemma deploy_main_result:
  assumes "deploy_main w arts env target now st = (r, st')"
  shows "case r of
      Inl e \<Rightarrow> (case target of None \<Rightarrow> True | Some p \<Rightarrow> find_file (ds_disk st') p = find_file (ds_disk st) p)
    | Inr u \<Rightarrow> \<exists>account owner keeper txs. may_deploy w env (ds_chain st) account owner keeper
        \<and> ds_sent st' = ds_sent st @ txs
        \<and> deployed w arts target now base_sepolia account owner keeper (find_file (ds_disk st')) txs"
  using assms
proof (cases rule: deploy_main_cases)
  case (1 e)
  then show ?thesis by (simp split: option.split)
next
  case (2 account owner keeper chain)
  let ?st = "st\<lparr>ds_chain := chain\<rparr>"
  note runs = runs_deploy_and_verify [where C = "find_file (ds_disk st)" and S = "ds_sent st" and w = w and arts = arts
      and target = target and now = now and chain = base_sepolia and account = account and owner = owner and keeper = keeper]
  have st: "holds (\<lambda>c s. c = find_file (ds_disk st) \<and> s = ds_sent st) ?st" by (simp add: holds_def)
  show ?thesis
  proof (cases r)
    case (Inl e)
    with runsD_Inl [OF runs st] 2(2) show ?thesis by (simp add: holds_def split: option.split)
  next
    case (Inr u)
    with runsD_Inr [OF runs st] 2 show ?thesis by (auto simp: holds_def)
  qed
qed


section \<open>A chain\<close>

text \<open>A chain that answers as the deployment needs, whatever it is asked; an address is its own checksum form.\<close>

definition demo_web3 :: "unit web3" where
  "demo_web3 = \<lparr>w3_is_address = (\<lambda>v. startswith v ''0x''), w3_to_checksum = (\<lambda>v. v), w3_account = (\<lambda>k. Inr ''0xD''),
     w3_chain_id = ret 84532, w3_nonce = (\<lambda>a. ret 7), w3_base_fee = ret (Some 100), w3_priority_fee = ret 3,
     w3_build = (\<lambda>tx. ret ()), w3_estimate_gas = (\<lambda>tx. ret 1001), w3_sign = (\<lambda>a tx. Inr (tx_bytecode tx)),
     w3_send = (\<lambda>raw. ret (''hash '' @ raw)),
     w3_receipt = (\<lambda>h. ret \<lparr>rc_contract_address = Some ''0xC'', rc_status = 1, rc_block_number = 12\<rparr>),
     w3_owner = (\<lambda>abi a. ret ''0x1''), w3_keeper = (\<lambda>abi a k. ret True), w3_paused = (\<lambda>abi a. ret False),
     w3_guardian = (\<lambda>abi a. ret ''0xC'')\<rparr>"

definition demo_artifacts :: artifacts where
  "demo_artifacts = (''contracts'', \<lambda>p. Some (Inr (JDict [(''abi'', JList []), (''bytecode'', JDict [(''object'', JStr ''0x60'')])])))"

definition demo_env :: "string \<Rightarrow> string option" where
  "demo_env = map_of [(''RPC_HTTP'', ''http://rpc''), (''DEPLOYER_PRIVATE_KEY'', ''key''), (''OWNER_ADDRESS'', '' 0x1 ''),
     (''KEEPER_ADDRESS'', ''0x2'')]"

definition demo_start :: "unit deploy_state" where
  "demo_start = \<lparr>ds_chain = (), ds_disk = \<lparr>files = [], dirs = [], proc_gid = 0, rand_names = [], faults = [], dead = False\<rparr>,
     ds_sent = [], ds_out = []\<rparr>"

definition demo_time :: datetime where
  "demo_time = \<lparr>dt_year = 2026, dt_month = 9, dt_day = 1, dt_hour = 10, dt_minute = 0, dt_second = 0, dt_micro = 0\<rparr>"

lemma demo_required:
  "required_env demo_env ''RPC_HTTP'' = Inr ''http://rpc''" "required_env demo_env ''DEPLOYER_PRIVATE_KEY'' = Inr ''key''"
  "required_env demo_env ''OWNER_ADDRESS'' = Inr ''0x1''" "required_env demo_env ''KEEPER_ADDRESS'' = Inr ''0x2''"
  by code_simp+

lemma demo_deploy_contract:
  "deploy_contract demo_web3 demo_artifacts ''0xD'' name args nonce st =
     (Inr \<lparr>dp_name = name, dp_address = ''0xC'', dp_transaction_hash = ''hash 0x60'', dp_block_number = 12\<rparr>,
      st\<lparr>ds_sent := ds_sent st @ [\<lparr>tx_abi = JList [], tx_bytecode = ''0x60'', tx_args = args, tx_chain_id = base_sepolia,
            tx_from = ''0xD'', tx_nonce = nonce, tx_max_fee = 203, tx_priority_fee = 3, tx_gas = 1201\<rparr>],
         ds_out := ds_out st @ [JDict [(''event'', JStr ''deployment_broadcast''), (''contract'', JStr name),
            (''tx'', JStr ''hash 0x60'')]]\<rparr>)"
  by (simp add: deploy_contract_def build_deployment_def sign_and_send_def send_raw_def confirm_deployment_def fee_fields_def
      load_artifact_def artifact_bytecode_def subscript_def bind_cmd_def on_chain_def print_json_def demo_web3_def
      demo_artifacts_def startswith_def bind_result_def)

definition demo_target :: path where
  "demo_target = (''evidence'', ''base-sepolia.json'')"

definition demo_deploy :: "(unit result) \<times> unit deploy_state" where
  "demo_deploy = deploy_main demo_web3 demo_artifacts demo_env (Some demo_target) demo_time demo_start"

lemma demo_load: "load_artifact demo_artifacts name =
    Inr (JDict [(''abi'', JList []), (''bytecode'', JDict [(''object'', JStr ''0x60'')])])"
  by (simp add: load_artifact_def demo_artifacts_def)

lemma demo_web3_fields:
  "w3_is_address demo_web3 = (\<lambda>v. startswith v ''0x'')" "w3_to_checksum demo_web3 = (\<lambda>v. v)"
  "w3_account demo_web3 k = Inr ''0xD''" "w3_chain_id demo_web3 = ret 84532" "w3_nonce demo_web3 a = ret 7"
  by (simp_all add: demo_web3_def)

lemma demo_guards:
  "checksum_address demo_web3 demo_env ''OWNER_ADDRESS'' = Inr ''0x1''"
  "checksum_address demo_web3 demo_env ''KEEPER_ADDRESS'' = Inr ''0x2''"
  by (simp_all add: checksum_address_def demo_required demo_web3_fields bind_result_def startswith_def)

lemma demo_verify:
  "dp_address g = ''0xC'' \<Longrightarrow> verify_deployment demo_web3 demo_artifacts g v ''0x1'' k st = (Inr (), st)"
  by (simp add: verify_deployment_def demo_load subscript_def bind_cmd_def on_chain_def demo_web3_def)

lemma put_file_state [simp]: "dead (put_file p f d) = dead d" "faults (put_file p f d) = faults d"
  by (simp_all add: put_file_def)

lemma atomic_write_calm:
  assumes "\<not> dead (ds_disk st)" "faults (ds_disk st) = []"
  shows "on_disk (atomic_write_json p v) st = (Inr (), st\<lparr>ds_disk := snd (atomic_write_json p v (ds_disk st))\<rparr>)"
proof -
  have "\<exists>d. atomic_write_json p v (ds_disk st) = (Inr (), d)"
    using assms
    by (cases "map_of (dirs (ds_disk st)) (fst p)")
      (simp_all add: atomic_write_json_def make_dir_def write_new_file_def replace_file_def syscall_def with_file_def
      bind_cmd_def Let_def split: option.split)
  then show ?thesis by (auto simp: on_disk_def)
qed

lemma demo_deploy_result: "fst demo_deploy = Inr ()" "length (ds_sent (snd demo_deploy)) = 2"
  by (simp_all add: demo_deploy_def deploy_main_def deploy_and_verify_def demo_required demo_guards demo_deploy_contract
      demo_verify demo_web3_fields bind_cmd_def on_chain_def validate_chain_def validate_roles_def base_sepolia_def
      print_json_def demo_start_def atomic_write_calm Let_def)



end
