(* ===== verification/Sha256.thy ===== *)
theory Sha256
  imports Unicode PyText
begin

text \<open>
  The SHA-256 digest the backups are checked with (\<^verbatim>\<open>hashlib.sha256(..).hexdigest()\<close>), on 32-bit
  words: padding, the message schedule, the compression of one block and the lower-case
  hexadecimal text.
\<close>

unbundle bit_operations_syntax

type_synonym word32 = "32 word"

text \<open>
  The constants, in decimal: the first 32 bits after the point of the cube roots of the first 64 primes, and of
  the square roots of the first 8.
\<close>

definition round_constants :: "word32 list" where
  "round_constants =
     [1116352408, 1899447441, 3049323471, 3921009573, 961987163, 1508970993, 2453635748, 2870763221,
      3624381080, 310598401, 607225278, 1426881987, 1925078388, 2162078206, 2614888103, 3248222580,
      3835390401, 4022224774, 264347078, 604807628, 770255983, 1249150122, 1555081692, 1996064986,
      2554220882, 2821834349, 2952996808, 3210313671, 3336571891, 3584528711, 113926993, 338241895,
      666307205, 773529912, 1294757372, 1396182291, 1695183700, 1986661051, 2177026350, 2456956037,
      2730485921, 2820302411, 3259730800, 3345764771, 3516065817, 3600352804, 4094571909, 275423344,
      430227734, 506948616, 659060556, 883997877, 958139571, 1322822218, 1537002063, 1747873779,
      1955562222, 2024104815, 2227730452, 2361852424, 2428436474, 2756734187, 3204031479, 3329325298]"

definition initial_hash :: "word32 list" where
  "initial_hash =
     [1779033703, 3144134277, 1013904242, 2773480762, 1359893119, 2600822924, 528734635, 1541459225]"

definition first_primes :: "int list" where
  "first_primes =
     [2, 3, 5, 7, 11, 13, 17, 19, 23, 29, 31, 37, 41, 43, 47, 53,
      59, 61, 67, 71, 73, 79, 83, 89, 97, 101, 103, 107, 109, 113, 127, 131,
      137, 139, 149, 151, 157, 163, 167, 173, 179, 181, 191, 193, 197, 199, 211, 223,
      227, 229, 233, 239, 241, 251, 257, 263, 269, 271, 277, 281, 283, 293, 307, 311]"

text \<open>\<open>k\<close> is the first 32 bits after the point of the \<open>e\<close>-th root of \<open>p\<close>, whose integer part is at most 6.\<close>

definition root_fraction :: "nat \<Rightarrow> int \<Rightarrow> word32 \<Rightarrow> bool" where
  "root_fraction e p k =
     list_ex (\<lambda>a. (a * 2 ^ 32 + uint k) ^ e \<le> p * 2 ^ (32 * e) \<and> p * 2 ^ (32 * e) < (a * 2 ^ 32 + uint k + 1) ^ e)
       [1, 2, 3, 4, 5, 6]"

lemma round_constants_are_cube_roots: "list_all2 (root_fraction 3) first_primes round_constants"
  by code_simp

lemma initial_hash_are_square_roots: "list_all2 (root_fraction 2) (take 8 first_primes) initial_hash"
  by code_simp

definition big_sigma0 :: "word32 \<Rightarrow> word32" where
  "big_sigma0 x = word_rotr 2 x XOR word_rotr 13 x XOR word_rotr 22 x"

definition big_sigma1 :: "word32 \<Rightarrow> word32" where
  "big_sigma1 x = word_rotr 6 x XOR word_rotr 11 x XOR word_rotr 25 x"

definition small_sigma0 :: "word32 \<Rightarrow> word32" where
  "small_sigma0 x = word_rotr 7 x XOR word_rotr 18 x XOR drop_bit 3 x"

definition small_sigma1 :: "word32 \<Rightarrow> word32" where
  "small_sigma1 x = word_rotr 17 x XOR word_rotr 19 x XOR drop_bit 10 x"

definition choose_bits :: "word32 \<Rightarrow> word32 \<Rightarrow> word32 \<Rightarrow> word32" where
  "choose_bits x y z = (x AND y) XOR (NOT x AND z)"

definition majority :: "word32 \<Rightarrow> word32 \<Rightarrow> word32 \<Rightarrow> word32" where
  "majority x y z = (x AND y) XOR (x AND z) XOR (y AND z)"

text \<open>Big-endian numbers of \<open>k\<close> bytes.\<close>

fun be_bytes :: "nat \<Rightarrow> nat \<Rightarrow> byte list" where
  "be_bytes 0 n = []"
| "be_bytes (Suc k) n = be_bytes k (n div 256) @ [word_of_nat n]"

definition be_word :: "byte list \<Rightarrow> word32" where
  "be_word bs = word_of_nat (foldl (\<lambda>acc b. acc * 256 + unat b) 0 bs)"

text \<open>One byte \<^verbatim>\<open>0x80\<close>, zeros up to 56 modulo 64, and the length in bits.\<close>

definition pad :: "byte list \<Rightarrow> byte list" where
  "pad bs =
     (let n = length bs
      in bs @ [0x80] @ replicate ((119 - n mod 64) mod 64) 0 @ be_bytes 8 (8 * n))"

fun chunks :: "nat \<Rightarrow> 'a list \<Rightarrow> 'a list list" where
  "chunks k xs = (if xs = [] \<or> k = 0 then [] else take k xs # chunks k (drop k xs))"

declare chunks.simps [simp del]

text \<open>The schedule is kept reversed while it grows: the newest word first.\<close>

fun extend_schedule :: "nat \<Rightarrow> word32 list \<Rightarrow> word32 list" where
  "extend_schedule 0 w = w"
| "extend_schedule (Suc k) w =
     extend_schedule k ((small_sigma1 (w ! 1) + w ! 6 + small_sigma0 (w ! 14) + w ! 15) # w)"

definition schedule :: "byte list \<Rightarrow> word32 list" where
  "schedule block = rev (extend_schedule 48 (rev (map be_word (chunks 4 block))))"

fun sha_round :: "word32 list \<Rightarrow> word32 \<times> word32 \<Rightarrow> word32 list" where
  "sha_round [a, b, c, d, e, f, g, h] (k, w) =
     (let t1 = h + big_sigma1 e + choose_bits e f g + k + w;
          t2 = big_sigma0 a + majority a b c
      in [t1 + t2, a, b, c, d + t1, e, f, g])"
| "sha_round hs kw = hs"

definition compress :: "word32 list \<Rightarrow> byte list \<Rightarrow> word32 list" where
  "compress hs block = map2 (+) hs (foldl sha_round hs (zip round_constants (schedule block)))"

definition sha256 :: "byte list \<Rightarrow> word32 list" where
  "sha256 bs = foldl compress initial_hash (chunks 64 (pad bs))"

text \<open>\<open>hex_digits k n\<close> is \<open>n\<close> in \<open>k\<close> lower-case hexadecimal digits.\<close>

fun hex_digits :: "nat \<Rightarrow> nat \<Rightarrow> string" where
  "hex_digits 0 n = []"
| "hex_digits (Suc k) n = hex_digits k (n div 16) @ [digit_char (n mod 16)]"

definition hexdigest :: "byte list \<Rightarrow> string" where
  "hexdigest bs = concat (map (\<lambda>w. hex_digits 8 (unat w)) (sha256 bs))"

section \<open>The digest is 64 lower-case hexadecimal digits\<close>

lemma length_hex_digits [simp]: "length (hex_digits k n) = k"
  by (induction k arbitrary: n) auto

lemma length_sha_round: "length hs = 8 \<Longrightarrow> length (sha_round hs kw) = 8"
  by (cases "(hs, kw)" rule: sha_round.cases) (auto simp: Let_def)

lemma length_foldl_sha_round: "length hs = 8 \<Longrightarrow> length (foldl sha_round hs kws) = 8"
  by (induction kws arbitrary: hs) (simp_all add: length_sha_round)

lemma length_compress: "length hs = 8 \<Longrightarrow> length (compress hs block) = 8"
  by (simp add: compress_def length_foldl_sha_round)

lemma length_foldl_compress: "length hs = 8 \<Longrightarrow> length (foldl compress hs bss) = 8"
  by (induction bss arbitrary: hs) (simp_all add: length_compress)

lemma length_sha256: "length (sha256 bs) = 8"
  by (simp add: sha256_def initial_hash_def length_foldl_compress)

lemma length_hexdigest [simp]: "length (hexdigest bs) = 64"
proof -
  have "length (concat (map (\<lambda>w. hex_digits 8 (unat w)) ws)) = 8 * length ws" for ws :: "word32 list"
    by (induction ws) auto
  then show ?thesis by (simp add: hexdigest_def length_sha256)
qed

definition is_hex_lower :: "char \<Rightarrow> bool" where
  "is_hex_lower c = (48 \<le> code c \<and> code c \<le> 57 \<or> 97 \<le> code c \<and> code c \<le> 102)"

lemma hex_digits_lower: "c \<in> set (hex_digits k n) \<Longrightarrow> is_hex_lower c"
proof (induction k arbitrary: n)
  case (Suc k)
  have "is_hex_lower (digit_char (n mod 16))"
    using mod_less_divisor [of 16 n] by (simp add: is_hex_lower_def digit_char_def code_char_of) linarith
  with Suc show ?case by auto
qed simp

lemma hexdigest_lower: "c \<in> set (hexdigest bs) \<Longrightarrow> is_hex_lower c"
  using hex_digits_lower by (auto simp: hexdigest_def)

end
