(* ===== verification/ConfigChecker.thy ===== *)
theory ConfigChecker
  imports Unicode PyText
begin

text \<open>
  The controller's validation of the gateway configuration (\<^verbatim>\<open>app/config_checker.py\<close>). The YAML
  library and the pydantic engine are not part of the sources: \<^verbatim>\<open>yaml.safe_load\<close> is the parameter
  \<open>safe_load\<close>, which returns a value or raises anything, and the engine is the parameter \<open>errors\<close>,
  which gives the types of the errors of a value against a schema, none for a valid one. The
  schemas are the source's classes, as data.
\<close>

section \<open>Parsed YAML and schemas\<close>

datatype yval =
    YNull
  | YBool bool
  | YInt int
  | YFloat string
  | YStr utext
  | YOther string
  | YList "yval list"
  | YDict "(yval \<times> yval) list"

definition is_dict :: "yval \<Rightarrow> bool" where
  "is_dict v = (case v of YDict kvs \<Rightarrow> True | _ \<Rightarrow> False)"

text \<open>A strict model: its fields in order, each with its type and its \<^verbatim>\<open>Field\<close> constraint.\<close>

datatype schema =
    StrMin nat
  | IntGt int
  | ListMin nat schema
  | Model "(string \<times> schema) list"

definition sensor_config :: schema where
  "sensor_config = Model [(''id'', StrMin 1), (''type'', StrMin 1), (''unit'', StrMin 1)]"

definition gateway_config :: schema where
  "gateway_config = Model
     [(''id'', StrMin 1), (''name'', StrMin 1), (''location'', StrMin 1),
      (''sensors'', ListMin 1 sensor_config), (''reporting_interval_seconds'', IntGt 0)]"

definition gateway_document :: schema where
  "gateway_document = Model [(''gateway'', gateway_config)]"

type_synonym yaml_loader = "utext \<Rightarrow> exn + yval"
type_synonym validator = "schema \<Rightarrow> yval \<Rightarrow> string list"

section \<open>The checks\<close>

type_synonym verdict = "bool \<times> string"

definition parse_yaml :: "yaml_loader \<Rightarrow> utext \<Rightarrow> (yval option \<times> string) result" where
  "parse_yaml safe_load contents =
     (if blank contents then Inr (None, ''empty_config'')
      else case safe_load contents of
             Inr v \<Rightarrow> Inr (Some v, ''ok'')
           | Inl e \<Rightarrow> if e = YAMLError then Inr (None, ''yaml_parse_error'') else Inl e)"

text \<open>The \<^verbatim>\<open>except\<close> clauses around \<^verbatim>\<open>read_text\<close>, the first of them for a missing src.\<close>

definition reading_verdict :: "utext result \<Rightarrow> (utext \<Rightarrow> verdict result) \<Rightarrow> verdict result" where
  "reading_verdict r k =
     (case r of
        Inr t \<Rightarrow> k t
      | Inl e \<Rightarrow>
          if e = FileNotFoundError then Inr (False, ''file_not_found'')
          else if is_os_error e \<or> e = UnicodeError then Inr (False, ''read_error'')
          else Inl e)"

definition is_valid_yaml :: "yaml_loader \<Rightarrow> byte list result \<Rightarrow> verdict result" where
  "is_valid_yaml safe_load src =
     reading_verdict (read_text src) (\<lambda>contents.
       bind_result (parse_yaml safe_load contents) (\<lambda>(parsed, reason).
         if reason \<noteq> ''ok'' then Inr (False, reason)
         else if \<not> (case parsed of None \<Rightarrow> False | Some v \<Rightarrow> is_dict v)
         then Inr (False, ''schema_validation_error'')
         else Inr (True, ''ok'')))"

definition validate_schema :: "validator \<Rightarrow> yval \<Rightarrow> verdict" where
  "validate_schema errors v =
     (let es = errors gateway_document v
      in if es = [] then (True, ''ok'')
         else if list_ex (\<lambda>e. e = ''missing'') es then (False, ''missing_required_key'')
         else (False, ''schema_validation_error''))"

definition check_config_text :: "yaml_loader \<Rightarrow> validator \<Rightarrow> utext \<Rightarrow> verdict result" where
  "check_config_text safe_load errors contents =
     bind_result (parse_yaml safe_load contents) (\<lambda>(parsed, reason).
       if reason \<noteq> ''ok'' then Inr (False, reason)
       else Inr (validate_schema errors (case parsed of None \<Rightarrow> YNull | Some v \<Rightarrow> v)))"

text \<open>\<open>src\<close> is what reading the bytes of the path gives.\<close>

definition check_config :: "yaml_loader \<Rightarrow> validator \<Rightarrow> byte list result \<Rightarrow> verdict result" where
  "check_config safe_load errors src =
     reading_verdict (read_text src) (check_config_text safe_load errors)"

section \<open>What the verdicts mean\<close>

lemma check_config_text_eq:
  "check_config_text safe_load errors t =
     (if blank t then Inr (False, ''empty_config'')
      else case safe_load t of
             Inl e \<Rightarrow> if e = YAMLError then Inr (False, ''yaml_parse_error'') else Inl e
           | Inr v \<Rightarrow> Inr (validate_schema errors v))"
  by (auto simp: check_config_text_def parse_yaml_def split: sum.split)

text \<open>When a configuration is valid: it reads, it is not blank, it loads and it fits the schema.\<close>

definition config_ok :: "yaml_loader \<Rightarrow> validator \<Rightarrow> byte list result \<Rightarrow> bool" where
  "config_ok safe_load errors src \<longleftrightarrow>
     (\<exists>bs t v. src = Inr bs \<and> decode_utf8 bs = Inr t \<and> \<not> blank t
        \<and> safe_load (newlines t) = Inr v \<and> errors gateway_document v = [])"

definition reasons :: "string list" where
  "reasons = [''ok'', ''file_not_found'', ''read_error'', ''empty_config'', ''yaml_parse_error'',
     ''missing_required_key'', ''schema_validation_error'']"

lemma read_text_cases:
  "read_text src =
     (case src of
        Inl e \<Rightarrow> Inl e
      | Inr bs \<Rightarrow> (case decode_utf8 bs of Inl e \<Rightarrow> Inl e | Inr t \<Rightarrow> Inr (newlines t)))"
  by (simp add: read_text_def split: sum.split)

lemma decode_utf8_Inl: "decode_utf8 bs = Inl e \<Longrightarrow> e = UnicodeError"
  by (auto simp: decode_utf8_def split: option.splits)

lemma check_config_Inr:
  assumes "check_config safe_load errors src = Inr (b, reason)"
  shows "(b \<longleftrightarrow> reason = ''ok'') \<and> reason \<in> set reasons \<and> (b \<longleftrightarrow> config_ok safe_load errors src)"
  using assms
  by (auto simp: check_config_def reading_verdict_def check_config_text_eq validate_schema_def reasons_def
      config_ok_def read_text_cases blank_newlines Let_def split: sum.splits if_splits)

text \<open>
  The verdict is exact: whenever \<^verbatim>\<open>check_config\<close> returns, the flag says whether the src decodes
  as UTF-8, is not blank, loads as YAML and fits the gateway schema; the reason is \<^verbatim>\<open>ok\<close> exactly for
  a valid src and otherwise one of six texts.
\<close>

theorem check_config_exact:
  assumes "check_config safe_load errors src = Inr (b, reason)"
  shows "(b \<longleftrightarrow> config_ok safe_load errors src) \<and> (b \<longleftrightarrow> reason = ''ok'') \<and> reason \<in> set reasons"
  using check_config_Inr [OF assms] by blast

text \<open>A loader and a validator for the examples.\<close>

definition demo_load :: yaml_loader where
  "demo_load t =
     (if t = of_string ''good'' then Inr (YDict [(YStr (of_string ''gateway''), YNull)])
      else if t = of_string ''2024-13-45'' then Inl (ValueError ''month must be in 1..12'')
      else if t = of_string ''{'' then Inl YAMLError
      else Inr (YStr t))"

definition demo_errors :: validator where
  "demo_errors s v = (if is_dict v then [] else [''model_type''])"

lemmas demo_evals = check_config_def reading_verdict_def read_text_cases check_config_text_eq decode_utf8_def
  ascii_bytes_def blank_def uni_space_def demo_load_def of_string_def validate_schema_def

theorem check_config_exact_witness:
  "config_ok demo_load demo_errors (Inr (ascii_bytes ''good''))"
proof -
  have "check_config demo_load demo_errors (Inr (ascii_bytes ''good'')) = Inr (True, ''ok'')"
    by (simp add: demo_evals demo_errors_def is_dict_def)
  from check_config_exact [OF this] show ?thesis by simp
qed

text \<open>
  What escapes: \<^verbatim>\<open>check_config\<close> raises exactly when reading raises something that is neither an
  \<^verbatim>\<open>OSError\<close> nor a \<^verbatim>\<open>UnicodeError\<close>, or when loading a text that is not blank raises anything but a
  \<^verbatim>\<open>YAMLError\<close>; so a \<^verbatim>\<open>ValueError\<close> of the loader, which PyYAML raises for a date such as
  \<^verbatim>\<open>2024-13-45\<close>, leaves the check instead of becoming a verdict.
\<close>

theorem check_config_raises_iff:
  "check_config safe_load errors src = Inl e \<longleftrightarrow>
     (src = Inl e \<and> \<not> is_os_error e \<and> e \<noteq> UnicodeError)
     \<or> (\<exists>bs t. src = Inr bs \<and> decode_utf8 bs = Inr t \<and> \<not> blank t
          \<and> safe_load (newlines t) = Inl e \<and> e \<noteq> YAMLError)"
  by (auto simp: check_config_def reading_verdict_def check_config_text_eq read_text_cases blank_newlines
      split: sum.split dest: decode_utf8_Inl)

lemma check_config_raises_example:
  "check_config demo_load demo_errors (Inr (ascii_bytes ''2024-13-45''))
     = Inl (ValueError ''month must be in 1..12'')"
  by (simp add: demo_evals)

end
