(* ===== verification/Backup.thy ===== *)
theory Backup
  imports Disk Sha256 ConfigChecker Models
begin

text \<open>
  The backups of the last known good configuration (\<^verbatim>\<open>app/backup.py\<close>): a backup is a pair of
  files, the configuration and its SHA-256 checksum, written to temporary files and renamed
  into place, the checksum first; old pairs are pruned, checksum first; a manifest lists what is
  left. All of it runs on the file system of \<open>Disk\<close>, under any plan of faults.
\<close>

section \<open>Names\<close>

definition manifest_name :: string where
  "manifest_name = ''backup-manifest.json''"

definition checksum_name :: "string \<Rightarrow> string" where
  "checksum_name n = n @ ''.sha256''"

text \<open>\<^verbatim>\<open>glob("gateway-*.yaml")\<close>\<close>

definition is_backup_name :: "string \<Rightarrow> bool" where
  "is_backup_name n \<longleftrightarrow> startswith n ''gateway-'' \<and> take 5 (rev n) = rev ''.yaml'' \<and> 13 \<le> length n"

definition backup_name :: "datetime \<Rightarrow> string" where
  "backup_name t = ''gateway-'' @ show_nat (dt_year t) @ digits 2 (dt_month t) @ digits 2 (dt_day t) @ ''T''
     @ digits 2 (dt_hour t) @ digits 2 (dt_minute t) @ digits 2 (dt_second t) @ ''.''
     @ digits 6 (dt_micro t) @ ''Z.yaml''"

section \<open>Writing\<close>

definition write_temp_file :: "path \<Rightarrow> byte list \<Rightarrow> (disk, path) cmd" where
  "write_temp_file target contents =
     bind_cmd (mkstemp (fst target) (''.'' @ snd target @ ''.'') ''.tmp'') (\<lambda>temp.
       bind_cmd
         (on_error
           (bind_cmd (write_file temp contents) (\<lambda>_.
            bind_cmd (fsync_file temp) (\<lambda>_.
            bind_cmd (chmod_file temp 0x1A0) (\<lambda>_.
            bind_cmd (stat_dir (fst target)) (\<lambda>gid.
            chown_file temp gid)))))
           (unlink_file temp))
         (\<lambda>_. ret temp))"

definition write_backup_pair :: "path \<Rightarrow> byte list \<Rightarrow> byte list \<Rightarrow> (disk, unit) cmd" where
  "write_backup_pair backup backup_contents checksum_contents =
     (let checksum = (fst backup, checksum_name (snd backup))
      in bind_cmd (write_temp_file backup backup_contents) (\<lambda>backup_temp.
         bind_cmd (write_temp_file checksum checksum_contents) (\<lambda>checksum_temp.
         on_error
           (bind_cmd (replace_file checksum_temp checksum) (\<lambda>_. replace_file backup_temp backup))
           (bind_cmd (unlink_file backup_temp) (\<lambda>_.
            bind_cmd (unlink_file checksum_temp) (\<lambda>_.
            bind_cmd (file_exists backup) (\<lambda>there.
            if there then ret () else unlink_file checksum)))))))"

section \<open>Reading\<close>

text \<open>\<^verbatim>\<open>read_text(encoding="ascii")\<close>\<close>

definition ascii_text :: "byte list \<Rightarrow> string result" where
  "ascii_text bs =
     (if list_all (\<lambda>b. unat b < 128) bs then Inr (map char_of (newlines (map unat bs)))
      else Inl UnicodeError)"

definition read_ascii :: "path \<Rightarrow> (disk, string) cmd" where
  "read_ascii p = bind_cmd (read_file p) (\<lambda>bs. of_result (ascii_text bs))"

definition list_backups :: "string \<Rightarrow> (disk, string list) cmd" where
  "list_backups dir =
     bind_cmd (dir_exists dir) (\<lambda>there.
       if \<not> there then ret []
       else bind_cmd (list_dir dir) (\<lambda>names.
         bind_cmd (filter_cmd (\<lambda>n. file_exists (dir, checksum_name n)) (filter is_backup_name names))
           (\<lambda>ns. ret (sort ns))))"

definition get_latest_backup :: "string \<Rightarrow> (disk, path option) cmd" where
  "get_latest_backup dir =
     bind_cmd (list_backups dir) (\<lambda>ns. ret (if ns = [] then None else Some (dir, last ns)))"

text \<open>The comparison of \<^verbatim>\<open>verify_backup\<close>, on what the two files hold.\<close>

definition checksum_ok :: "byte list \<Rightarrow> string \<Rightarrow> bool" where
  "checksum_ok contents text =
     (let expected = strip text
      in length expected = 64 \<and> (case py_int 16 expected of Inl e \<Rightarrow> False | Inr v \<Rightarrow> True)
         \<and> hexdigest contents = lower expected)"

definition verify_backup :: "path \<Rightarrow> (disk, bool) cmd" where
  "verify_backup backup =
     catch
       (bind_cmd (read_ascii (fst backup, checksum_name (snd backup))) (\<lambda>text.
        bind_cmd (read_file backup) (\<lambda>contents. ret (checksum_ok contents text))))
       (\<lambda>e. is_os_error e \<or> e = UnicodeError) (\<lambda>e. ret False)"

section \<open>Manifest and pruning\<close>

text \<open>\<^verbatim>\<open>json.dumps(manifest, indent=2, sort_keys=True) + "\n"\<close>\<close>

definition nl :: string where
  "nl = [CHR 0x0A]"

definition manifest_entry :: "string \<times> string \<Rightarrow> string" where
  "manifest_entry e = ''    {'' @ nl @ ''      '' @ json_string ''filename'' @ '': '' @ json_string (fst e) @ '','' @ nl
     @ ''      '' @ json_string ''sha256'' @ '': '' @ json_string (snd e) @ nl @ ''    }''"

definition manifest_text :: "datetime \<Rightarrow> (string \<times> string) list \<Rightarrow> string" where
  "manifest_text at' entries =
     ''{'' @ nl @ ''  '' @ json_string ''backups'' @ '': '' @
     (if entries = [] then ''[]''
      else ''['' @ nl @ join ('','' @ nl) (map manifest_entry entries) @ nl @ ''  ]'') @ '','' @ nl
     @ ''  '' @ json_string ''generated_at'' @ '': '' @ json_string (iso_z at') @ '','' @ nl
     @ ''  '' @ json_string ''latest'' @ '': '' @
     (if entries = [] then ''null'' else json_string (fst (last entries))) @ '','' @ nl
     @ ''  '' @ json_string ''version'' @ '': 1'' @ nl @ ''}'' @ nl"

definition write_manifest :: "string \<Rightarrow> datetime \<Rightarrow> (disk, unit) cmd" where
  "write_manifest dir generated_at =
     bind_cmd (list_backups dir) (\<lambda>backups.
     bind_cmd (map_cmd (\<lambda>n. bind_cmd (read_ascii (dir, checksum_name n)) (\<lambda>t. ret (n, strip t))) backups)
       (\<lambda>entries.
     bind_cmd (write_temp_file (dir, manifest_name) (ascii_bytes (manifest_text generated_at entries)))
       (\<lambda>temp. on_error (replace_file temp (dir, manifest_name)) (unlink_file temp))))"

text \<open>\<^verbatim>\<open>list_backups(dir)[:-retention_count]\<close> for a positive count.\<close>

definition superseded :: "int \<Rightarrow> string list \<Rightarrow> string list" where
  "superseded retention ns = take (length ns - nat retention) ns"

definition prune_backups :: "string \<Rightarrow> int \<Rightarrow> (disk, unit) cmd" where
  "prune_backups dir retention =
     bind_cmd (list_backups dir) (\<lambda>ns.
       for_each (superseded retention ns) (\<lambda>n.
         bind_cmd (unlink_file (dir, checksum_name n)) (\<lambda>_. unlink_file (dir, n))))"

section \<open>Creating a backup\<close>

definition read_config :: "path \<Rightarrow> (disk, byte list \<times> utext) cmd" where
  "read_config config =
     catch
       (bind_cmd (read_file config) (\<lambda>bs. bind_cmd (of_result (decode_utf8 bs)) (\<lambda>t. ret (bs, t))))
       (\<lambda>e. is_os_error e \<or> e = UnicodeError)
       (\<lambda>e. raise (BackupValidationError ''source_config_unreadable''))"

definition create_backup ::
    "yaml_loader \<Rightarrow> validator \<Rightarrow> path \<Rightarrow> string \<Rightarrow> bool \<Rightarrow> datetime \<Rightarrow> int \<Rightarrow> (disk, path) cmd" where
  "create_backup safe_load errors config dir healthy now retention =
     (if \<not> healthy then raise (BackupStateError ''backup requires a verified healthy gateway state'')
      else if retention < 1 then raise (ValueError ''retention_count must be at least 1'')
      else
        bind_cmd (read_config config) (\<lambda>(contents, text).
        bind_cmd (of_result (check_config_text safe_load errors text)) (\<lambda>(valid, reason).
        if \<not> valid then raise (BackupValidationError reason)
        else
          bind_cmd (make_dir dir) (\<lambda>_.
          let backup = (dir, backup_name now)
          in bind_cmd (write_backup_pair backup contents (ascii_bytes (hexdigest contents @ nl))) (\<lambda>_.
             bind_cmd (prune_backups dir retention) (\<lambda>_.
             bind_cmd (write_manifest dir now) (\<lambda>_. ret backup)))))))"

text \<open>\<^verbatim>\<open>BackupManager\<close>: the configured facade; \<open>now\<close> is the reading of its clock.\<close>

record backup_manager =
  bm_config :: path
  bm_dir :: string
  bm_retention :: int

definition bm_create :: "yaml_loader \<Rightarrow> validator \<Rightarrow> backup_manager \<Rightarrow> bool \<Rightarrow> datetime \<Rightarrow> (disk, path) cmd" where
  "bm_create safe_load errors m healthy now =
     create_backup safe_load errors (bm_config m) (bm_dir m) healthy now (bm_retention m)"

definition bm_list :: "backup_manager \<Rightarrow> (disk, string list) cmd" where
  "bm_list m = list_backups (bm_dir m)"

definition bm_latest :: "backup_manager \<Rightarrow> (disk, path option) cmd" where
  "bm_latest m = get_latest_backup (bm_dir m)"

definition bm_verify :: "path \<Rightarrow> (disk, bool) cmd" where
  "bm_verify backup = verify_backup backup"

end
