(* ===== verification/BackupSafety.thy ===== *)
theory BackupSafety
  imports Backup
begin

text \<open>
  The guarantees of the backups, under every plan of faults and wherever the process dies: a
  backup that is listed verifies, the newest ones are never lost, nothing outside the backup
  directory changes, and a call that returns has left exactly the newest backups and their
  manifest.
\<close>

section \<open>What the files mean\<close>

definition is_temp :: "string \<Rightarrow> bool" where
  "is_temp n \<longleftrightarrow> n \<noteq> [] \<and> hd n = CHR ''.''"

definition temps :: "string \<Rightarrow> path set" where
  "temps dir = {p. fst p = dir \<and> is_temp (snd p)}"

definition complete :: "string \<Rightarrow> contents \<Rightarrow> string set" where
  "complete dir c = {n. is_backup_name n \<and> c (dir, n) \<noteq> None \<and> c (dir, checksum_name n) \<noteq> None}"

text \<open>A pair of files that \<^verbatim>\<open>verify_backup\<close> accepts.\<close>

definition pair_ok :: "inode \<Rightarrow> inode \<Rightarrow> bool" where
  "pair_ok f g \<longleftrightarrow> (case ascii_text (f_data g) of Inl e \<Rightarrow> False | Inr t \<Rightarrow> checksum_ok (f_data f) t)"

definition backups_ok :: "string \<Rightarrow> contents \<Rightarrow> bool" where
  "backups_ok dir c \<longleftrightarrow> (\<forall>n f g. is_backup_name n \<longrightarrow> c (dir, n) = Some f \<longrightarrow>
     c (dir, checksum_name n) = Some g \<longrightarrow> pair_ok f g)"

definition same_except :: "path set \<Rightarrow> contents \<Rightarrow> contents \<Rightarrow> bool" where
  "same_except A c0 c \<longleftrightarrow> (\<forall>p. p \<notin> A \<longrightarrow> c p = c0 p)"

lemma same_except_refl: "same_except A c c"
  by (simp add: same_except_def)

lemma same_except_upd: "same_except A c0 c \<Longrightarrow> p \<in> A \<Longrightarrow> same_except A c0 (c(p := x))"
  by (auto simp: same_except_def)

lemma same_exceptD: "same_except A c0 c \<Longrightarrow> p \<notin> A \<Longrightarrow> c p = c0 p"
  unfolding same_except_def by blast

lemma same_except_mono: "same_except A c0 c \<Longrightarrow> A \<subseteq> B \<Longrightarrow> same_except B c0 c"
  by (auto simp: same_except_def)

lemma checksum_name_inject [simp]: "checksum_name m = checksum_name n \<longleftrightarrow> m = n"
  by (simp add: checksum_name_def)

lemma backup_name_not_temp: "is_backup_name n \<Longrightarrow> \<not> is_temp n \<and> \<not> is_temp (checksum_name n) \<and> n \<noteq> []"
  by (cases n) (auto simp: is_backup_name_def startswith_def is_temp_def checksum_name_def)

lemma backup_not_checksum: "is_backup_name n \<Longrightarrow> n \<noteq> checksum_name m"
  by (auto simp: is_backup_name_def checksum_name_def)

lemma manifest_not_backup: "\<not> is_backup_name manifest_name" "manifest_name \<noteq> checksum_name n" "\<not> is_temp manifest_name"
proof -
  have "rev manifest_name \<noteq> rev (checksum_name n)" by (simp add: manifest_name_def checksum_name_def)
  then show "manifest_name \<noteq> checksum_name n" by metis
qed (simp_all add: is_backup_name_def manifest_name_def startswith_def is_temp_def)

lemma complete_same:
  assumes "same_except A c0 c" and "\<And>n. is_backup_name n \<Longrightarrow> (dir, n) \<notin> A \<and> (dir, checksum_name n) \<notin> A"
  shows "complete dir c = complete dir c0"
  using assms by (auto simp: complete_def same_except_def)

lemma same_except_temps_complete: "same_except (temps dir) c0 c \<Longrightarrow> complete dir c = complete dir c0"
  by (erule complete_same) (auto simp: temps_def dest: backup_name_not_temp)

section \<open>A fresh pair verifies\<close>

lemma hex_lower_value: "is_hex_lower c \<Longrightarrow> \<exists>d. digit_value 16 c = Some d"
  by (auto simp: is_hex_lower_def digit_value_def Let_def)

lemma scan_digits_hex:
  "(\<And>c. c \<in> set s \<Longrightarrow> is_hex_lower c) \<Longrightarrow> ok \<or> s \<noteq> [] \<Longrightarrow> \<exists>v. scan_digits 16 acc ok k s = Some v"
proof (induction s arbitrary: acc ok k)
  case (Cons c s)
  from Cons.prems(1) [of c] obtain d where "digit_value 16 c = Some d" using hex_lower_value by fastforce
  moreover have "c \<noteq> CHR ''_''" using Cons.prems(1) [of c] by (auto simp: is_hex_lower_def)
  ultimately show ?case using Cons by simp
qed auto

lemma hex_lower_facts:
  assumes "is_hex_lower c"
  shows "\<not> is_space c" and "\<not> is_c_space c" and "lower_char c = c" and "c \<noteq> CHR ''x''" and "c \<noteq> CHR ''X''"
    and "c \<noteq> CHR ''-''" and "c \<noteq> CHR ''+''" and "code c < 128" and "code c \<noteq> 13"
  using assms by (auto simp: is_hex_lower_def is_space_def is_c_space_def lower_char_def Let_def)

lemma py_int_hex:
  assumes "\<And>c. c \<in> set s \<Longrightarrow> is_hex_lower c" and "s \<noteq> []"
  shows "\<exists>v. py_int 16 s = Inr v"
proof -
  obtain c t where s: "s = c # t" using assms(2) by (cases s) auto
  have "strip_by (int_space s) s = s"
    by (rule strip_by_id) (use assms(1) in \<open>simp add: int_space_def hex_lower_facts\<close>)
  moreover have "split_sign s = (False, s)"
    using assms(1) [of c] by (auto simp: s dest: hex_lower_facts)
  moreover have "drop_hex_prefix s = s"
    using assms(1) by (cases t) (auto simp: s dest: hex_lower_facts)
  moreover obtain v where "scan_digits 16 0 False 0 s = Some v"
    using scan_digits_hex [of s False 0 0] assms by blast
  ultimately show ?thesis by (auto simp: py_int_def split: prod.split)
qed

lemma strip_hexdigest: "strip (hexdigest bs @ nl) = hexdigest bs"
proof -
  have sp: "\<not> is_space c" if "c \<in> set (hexdigest bs)" for c
    using that hexdigest_lower hex_lower_facts(1) by blast
  have "dropWhile is_space (hexdigest bs @ nl) = hexdigest bs @ nl"
  proof (cases "hexdigest bs")
    case Nil
    then show ?thesis using length_hexdigest [of bs] by simp
  next
    case (Cons c t)
    then show ?thesis using sp [of c] by simp
  qed
  moreover have "dropWhile is_space (rev (hexdigest bs @ nl)) = rev (hexdigest bs)"
  proof (cases "rev (hexdigest bs)")
    case Nil
    then show ?thesis using length_hexdigest [of bs] by simp
  next
    case (Cons c t)
    then have "c \<in> set (hexdigest bs)" by (metis list.set_intros(1) set_rev)
    with Cons sp show ?thesis by (simp add: nl_def is_space_def [of "CHR 0x0A"])
  qed
  ultimately show ?thesis by (simp add: strip_def strip_by_def)
qed

lemma lower_hexdigest: "lower (hexdigest bs) = hexdigest bs"
  unfolding lower_def by (rule map_idI) (use hexdigest_lower hex_lower_facts(3) in blast)

lemma checksum_ok_fresh: "checksum_ok bs (hexdigest bs @ nl)"
proof -
  have "hexdigest bs \<noteq> []" using length_hexdigest [of bs] by (metis length_0_conv zero_neq_numeral)
  then obtain v where "py_int 16 (hexdigest bs) = Inr v" using py_int_hex hexdigest_lower by blast
  then show ?thesis by (simp add: checksum_ok_def strip_hexdigest lower_hexdigest)
qed

lemma unat_ascii: "n < 128 \<Longrightarrow> unat (word_of_nat n :: byte) = n"
  by (simp add: unat_of_nat)

lemma ascii_text_bytes:
  assumes "\<And>c. c \<in> set s \<Longrightarrow> code c < 128 \<and> code c \<noteq> 13"
  shows "ascii_text (ascii_bytes s) = Inr s"
proof -
  have "map unat (ascii_bytes s) = map of_char s"
    using assms by (simp add: ascii_bytes_def unat_ascii)
  moreover have "newlines (map of_char s) = map of_char s"
    by (rule newlines_id) (metis assms imageE list.set_map)
  moreover have "list_all (\<lambda>b. unat b < 128) (ascii_bytes s)"
    using assms by (simp add: ascii_bytes_def list_all_iff unat_ascii)
  ultimately show ?thesis by (simp add: ascii_text_def comp_def)
qed

lemma pair_ok_fresh:
  assumes "f_data g = ascii_bytes (hexdigest (f_data f) @ nl)"
  shows "pair_ok f g"
proof -
  have "ascii_text (f_data g) = Inr (hexdigest (f_data f) @ nl)"
    unfolding assms using hexdigest_lower hex_lower_facts(8,9)
    by (intro ascii_text_bytes) (auto simp: nl_def)
  then show ?thesis by (simp add: pair_ok_def checksum_ok_fresh)
qed

section \<open>Writing a pair\<close>

lemma triple_write_temp:
  assumes blind: "\<And>c p x. P c \<Longrightarrow> p \<in> temps dir \<Longrightarrow> p \<notin> T \<Longrightarrow> P (c(p := x))"
    and there: "\<And>c p. P c \<Longrightarrow> p \<in> T \<Longrightarrow> c p \<noteq> None"
  shows "triple P (write_temp_file (dir, n) bs)
     (\<lambda>t c. P c \<and> t \<in> temps dir \<and> t \<notin> T \<and> (\<exists>f. c t = Some f \<and> f_data f = bs)) P"
proof -
  let ?I = "\<lambda>t c. P c \<and> t \<in> temps dir \<and> t \<notin> T \<and> c t \<noteq> None"
  let ?J = "\<lambda>t c. P c \<and> t \<in> temps dir \<and> t \<notin> T \<and> (\<exists>f. c t = Some f \<and> f_data f = bs)"
  let ?E = "\<lambda>t c. P c \<and> t \<in> temps dir \<and> t \<notin> T"
  have made: "triple P (mkstemp dir (''.'' @ n @ ''.'') ''.tmp'') ?I P"
  proof (rule triple_conseq [OF triple_mkstemp])
    fix t c
    assume "(\<exists>r. t = (dir, (''.'' @ n @ ''.'') @ r @ ''.tmp'')) \<and> (\<exists>c0 f. P c0 \<and> c0 t = None \<and> c = c0(t \<mapsto> f))"
    then obtain c0 f where c0: "P c0" "c0 t = None" "c = c0(t \<mapsto> f)" and t: "t \<in> temps dir"
      by (auto simp: temps_def is_temp_def)
    moreover have "t \<notin> T" using there [OF c0(1), of t] c0(2) by blast
    ultimately show "?I t c" using blind by simp
  qed auto
  have body: "triple (?I t)
      (bind_cmd (write_file t bs) (\<lambda>_. bind_cmd (fsync_file t) (\<lambda>_. bind_cmd (chmod_file t 0x1A0) (\<lambda>_.
       bind_cmd (stat_dir dir) (\<lambda>gid. chown_file t gid))))) (\<lambda>_. ?J t) (?E t)" for t
  proof (intro triple_bind)
    show "triple (?I t) (write_file t bs) (\<lambda>_. ?J t) (?E t)"
    proof (rule triple_conseq [OF triple_write [where P = "?I t" and R = "?E t"]])
      fix c bs'
      assume "?I t c"
      then show "?E t (case c t of None \<Rightarrow> c | Some f \<Rightarrow> c(t \<mapsto> f\<lparr>f_data := bs'\<rparr>))"
        by (auto simp: blind split: option.split)
    next
      fix c
      assume "\<exists>c0. ?I t c0 \<and> c = (case c0 t of None \<Rightarrow> c0 | Some f \<Rightarrow> c0(t \<mapsto> f\<lparr>f_data := bs\<rparr>))"
      then obtain c0 where c0: "?I t c0" "c = (case c0 t of None \<Rightarrow> c0 | Some f \<Rightarrow> c0(t \<mapsto> f\<lparr>f_data := bs\<rparr>))"
        by blast
      then show "?J t c" by (cases "c0 t") (simp_all add: blind)
    qed auto
    show "triple (?J t) (fsync_file t) (\<lambda>_. ?J t) (?E t)"
      by (rule triple_conseq [OF triple_fsync [of "?J t"]]) auto
    show "triple (?J t) (chmod_file t 0x1A0) (\<lambda>_. ?J t) (?E t)"
      by (rule triple_chmod) (auto simp: blind)
    show "triple (?J t) (stat_dir dir) (\<lambda>_. ?J t) (?E t)"
      by (rule triple_conseq [OF triple_stat_dir [of "?J t"]]) auto
    show "triple (?J t) (chown_file t gid) (\<lambda>_. ?J t) (?E t)" for gid
      by (rule triple_chown) (auto simp: blind)
  qed
  have clean: "triple (?E t) (unlink_file t) (\<lambda>_. P) P" for t
    by (rule triple_unlink) (auto simp: blind)
  show ?thesis
    unfolding write_temp_file_def fst_conv snd_conv
    by (rule triple_bind [OF made], rule triple_bind [OF triple_on_error [OF body clean]], rule triple_ret)
qed

definition pair_there :: "string \<Rightarrow> string \<Rightarrow> byte list \<Rightarrow> byte list \<Rightarrow> contents \<Rightarrow> contents \<Rightarrow> bool" where
  "pair_there dir n bs cs c0 c \<longleftrightarrow>
     same_except (temps dir \<union> {(dir, checksum_name n), (dir, n)}) c0 c
     \<and> (\<exists>f. c (dir, n) = Some f \<and> f_data f = bs) \<and> (\<exists>g. c (dir, checksum_name n) = Some g \<and> f_data g = cs)"

lemma triple_write_pair:
  assumes n: "is_backup_name n"
  shows "triple (\<lambda>c. c = c0) (write_backup_pair (dir, n) bs cs) (\<lambda>_. pair_there dir n bs cs c0)
     (same_except (temps dir \<union> {(dir, checksum_name n)}) c0)"
proof -
  let ?ck = "(dir, checksum_name n)"
  let ?A = "same_except (temps dir) c0" and ?R = "same_except (temps dir \<union> {?ck}) c0"
  let ?B = "\<lambda>bt c. ?A c \<and> bt \<in> temps dir \<and> (\<exists>f. c bt = Some f \<and> f_data f = bs)"
  let ?C = "\<lambda>bt ct c. ?B bt c \<and> ct \<in> temps dir \<and> ct \<noteq> bt \<and> (\<exists>g. c ct = Some g \<and> f_data g = cs)"
  let ?D = "\<lambda>bt c. ?R c \<and> bt \<in> temps dir \<and> (\<exists>f. c bt = Some f \<and> f_data f = bs)
      \<and> (\<exists>g. c ?ck = Some g \<and> f_data g = cs)"
  have notin: "?ck \<notin> temps dir" "(dir, n) \<notin> temps dir" "n \<noteq> checksum_name n"
    using backup_name_not_temp [OF n] backup_not_checksum [OF n] by (auto simp: temps_def)
  have first: "triple (\<lambda>c. c = c0) (write_temp_file (dir, n) bs) ?B ?R"
    by (rule triple_conseq [OF triple_write_temp [where P = ?A and T = "{}"]])
      (auto simp: same_except_refl intro: same_except_upd same_except_mono)
  have second: "triple (?B bt) (write_temp_file ?ck cs) (?C bt) ?R" for bt
    by (rule triple_conseq [OF triple_write_temp [where P = "?B bt" and T = "{bt}"]])
      (auto intro: same_except_upd same_except_mono)
  have swap: "triple (?C bt ct) (bind_cmd (replace_file ct ?ck) (\<lambda>_. replace_file bt (dir, n)))
      (\<lambda>_. pair_there dir n bs cs c0) (\<lambda>c. ?R c \<and> bt \<in> temps dir \<and> ct \<in> temps dir)" for bt ct
  proof (rule triple_bind)
    show "triple (?C bt ct) (replace_file ct ?ck) (\<lambda>_ c. ?D bt c \<and> ct \<in> temps dir)
        (\<lambda>c. ?R c \<and> bt \<in> temps dir \<and> ct \<in> temps dir)"
      using notin by (intro triple_replace) (auto intro!: same_except_upd intro: same_except_mono)
    show "triple (\<lambda>c. ?D bt c \<and> ct \<in> temps dir) (replace_file bt (dir, n)) (\<lambda>_. pair_there dir n bs cs c0)
        (\<lambda>c. ?R c \<and> bt \<in> temps dir \<and> ct \<in> temps dir)"
      using notin by (intro triple_replace)
        (auto simp: pair_there_def intro!: same_except_upd intro: same_except_mono)
  qed
  have clean: "triple (\<lambda>c. ?R c \<and> bt \<in> temps dir \<and> ct \<in> temps dir)
      (bind_cmd (unlink_file bt) (\<lambda>_. bind_cmd (unlink_file ct) (\<lambda>_.
       bind_cmd (file_exists (dir, n)) (\<lambda>there. if there then ret () else unlink_file ?ck))))
      (\<lambda>_. ?R) ?R" for bt ct
  proof (intro triple_bind)
    show "triple (\<lambda>c. ?R c \<and> bt \<in> temps dir \<and> ct \<in> temps dir) (unlink_file bt)
        (\<lambda>_ c. ?R c \<and> ct \<in> temps dir) ?R"
      by (rule triple_unlink) (auto intro: same_except_upd)
    show "triple (\<lambda>c. ?R c \<and> ct \<in> temps dir) (unlink_file ct) (\<lambda>_. ?R) ?R"
      by (rule triple_unlink) (auto intro: same_except_upd)
    show "triple ?R (file_exists (dir, n)) (\<lambda>_. ?R) ?R"
      by (rule triple_conseq [OF triple_exists [of ?R]]) auto
    show "triple ?R (if there then ret () else unlink_file ?ck) (\<lambda>_. ?R) ?R" for there
      by (intro triple_if triple_ret triple_unlink) (auto intro: same_except_upd)
  qed
  show ?thesis
    unfolding write_backup_pair_def fst_conv snd_conv Let_def
    by (rule triple_bind [OF first], rule triple_bind [OF second], rule triple_on_error [OF swap clean])
qed

section \<open>Listing\<close>

definition listing :: "string \<Rightarrow> contents \<Rightarrow> string list" where
  "listing dir c = sorted_list_of_set (complete dir c)"

lemma listing_eq:
  assumes "distinct ns" and "set ns = {n. cc (dir, n) \<noteq> None}"
  shows "sort (filter (\<lambda>n. cc (dir, checksum_name n) \<noteq> None) (filter is_backup_name ns)) = listing dir cc"
proof -
  let ?l = "filter (\<lambda>n. cc (dir, checksum_name n) \<noteq> None) (filter is_backup_name ns)"
  have s: "set (sort ?l) = complete dir cc" using assms(2) by (auto simp: complete_def)
  have "sorted_list_of_set (set (sort ?l)) = sort ?l"
    by (rule sorted_list_of_set.idem_if_sorted_distinct) (simp_all add: assms(1))
  then show ?thesis by (simp only: s listing_def)
qed

lemma triple_list_backups:
  "triple (\<lambda>c. c = cc) (list_backups dir)
     (\<lambda>ns c. c = cc \<and> ns = listing dir cc \<and> set ns = complete dir cc) (\<lambda>c. c = cc)"
proof -
  let ?P = "\<lambda>c. c = cc"
  let ?Q = "\<lambda>ns c. c = cc \<and> ns = listing dir cc \<and> set ns = complete dir cc"
  have filtered: "triple ?P (filter_cmd (\<lambda>n. file_exists (dir, checksum_name n)) ns)
      (\<lambda>ys c. c = cc \<and> ys = filter (\<lambda>n. cc (dir, checksum_name n) \<noteq> None) ns) ?P" for ns
    by (rule triple_filter_cmd) (rule triple_conseq [OF triple_exists [of ?P]], auto)
  have listed: "triple (\<lambda>c. c = cc \<and> distinct ns \<and> set ns = {n. c (dir, n) \<noteq> None})
      (bind_cmd (filter_cmd (\<lambda>n. file_exists (dir, checksum_name n)) (filter is_backup_name ns))
        (\<lambda>ns. ret (sort ns))) ?Q ?P" for ns
  proof (cases "distinct ns \<and> set ns = {n. cc (dir, n) \<noteq> None}")
    case True
    then have eq: "listing dir cc = sort (filter (\<lambda>n. cc (dir, checksum_name n) \<noteq> None) (filter is_backup_name ns))"
      by (simp only: listing_eq [of ns cc dir])
    then have "set (listing dir cc) = complete dir cc" using True by (auto simp: complete_def)
    with eq show ?thesis
      by (intro triple_bind [OF triple_conseq [OF filtered]] triple_ret) auto
  next
    case False
    then show ?thesis by (auto simp: triple_def)
  qed
  have "triple (\<lambda>c. c = cc \<and> (\<not> there \<longrightarrow> (\<forall>n. c (dir, n) = None)))
      (if \<not> there then ret [] else bind_cmd (list_dir dir) (\<lambda>names.
         bind_cmd (filter_cmd (\<lambda>n. file_exists (dir, checksum_name n)) (filter is_backup_name names))
           (\<lambda>ns. ret (sort ns)))) ?Q ?P" for there
  proof (rule triple_if)
    assume "\<not> there"
    then show "triple (\<lambda>c. c = cc \<and> (\<not> there \<longrightarrow> (\<forall>n. c (dir, n) = None))) (ret []) ?Q ?P"
      by (intro triple_ret) (auto simp: listing_def complete_def)
  next
    assume "\<not> \<not> there"
    then show "triple (\<lambda>c. c = cc \<and> (\<not> there \<longrightarrow> (\<forall>n. c (dir, n) = None)))
        (bind_cmd (list_dir dir) (\<lambda>names.
         bind_cmd (filter_cmd (\<lambda>n. file_exists (dir, checksum_name n)) (filter is_backup_name names))
           (\<lambda>ns. ret (sort ns)))) ?Q ?P"
      by (intro triple_conseq [OF triple_bind [OF triple_list_dir [of ?P] listed]]) auto
  qed
  note branch = this
  show ?thesis
    unfolding list_backups_def
  proof (rule triple_bind)
    show "triple ?P (dir_exists dir) (\<lambda>b c. c = cc \<and> (\<not> b \<longrightarrow> (\<forall>n. c (dir, n) = None))) ?P"
      by (rule triple_dir_exists)
  qed (rule branch)
qed

section \<open>Pruning\<close>

definition pair_paths :: "string \<Rightarrow> string set \<Rightarrow> path set" where
  "pair_paths dir V = {dir} \<times> (V \<union> checksum_name ` V)"

definition without :: "path set \<Rightarrow> contents \<Rightarrow> contents" where
  "without A c = (\<lambda>p. if p \<in> A then None else c p)"

definition between :: "path set \<Rightarrow> contents \<Rightarrow> contents \<Rightarrow> bool" where
  "between A c0 c \<longleftrightarrow> (\<forall>p. c p = c0 p \<or> p \<in> A \<and> c p = None)"

lemma triple_prune_loop:
  "triple (\<lambda>c. c = without (pair_paths dir W) cc)
     (for_each vs (\<lambda>n. bind_cmd (unlink_file (dir, checksum_name n)) (\<lambda>_. unlink_file (dir, n))))
     (\<lambda>_ c. c = without (pair_paths dir (W \<union> set vs)) cc)
     (between (pair_paths dir (W \<union> set vs)) cc)"
proof (induction vs arbitrary: W)
  case Nil
  show ?case unfolding for_each.simps by (rule triple_ret) simp
next
  case (Cons v vs)
  let ?R = "between (pair_paths dir (W \<union> set (v # vs))) cc"
  have one: "triple (\<lambda>c. c = without (pair_paths dir W) cc)
      (bind_cmd (unlink_file (dir, checksum_name v)) (\<lambda>_. unlink_file (dir, v)))
      (\<lambda>_ c. c = without (pair_paths dir (insert v W)) cc) ?R"
  proof (rule triple_bind)
    let ?c = "(without (pair_paths dir W) cc)((dir, checksum_name v) := None)"
    show "triple (\<lambda>c. c = without (pair_paths dir W) cc) (unlink_file (dir, checksum_name v)) (\<lambda>_ c. c = ?c) ?R"
      by (rule triple_unlink) (auto simp: between_def without_def pair_paths_def)
    show "triple (\<lambda>c. c = ?c) (unlink_file (dir, v)) (\<lambda>_ c. c = without (pair_paths dir (insert v W)) cc) ?R"
      by (rule triple_unlink) (auto simp: between_def without_def pair_paths_def fun_eq_iff)
  qed
  have "triple (\<lambda>c. c = without (pair_paths dir (insert v W)) cc)
      (for_each vs (\<lambda>n. bind_cmd (unlink_file (dir, checksum_name n)) (\<lambda>_. unlink_file (dir, n))))
      (\<lambda>_ c. c = without (pair_paths dir (W \<union> set (v # vs))) cc) ?R"
    using Cons.IH [of "insert v W"] by simp
  with one show ?case unfolding for_each.simps by (rule triple_bind)
qed

lemma triple_prune:
  "triple (\<lambda>c. c = cc) (prune_backups dir r)
     (\<lambda>_ c. c = without (pair_paths dir (set (superseded r (listing dir cc)))) cc)
     (between (pair_paths dir (set (superseded r (listing dir cc)))) cc)"
  unfolding prune_backups_def
proof (rule triple_bind)
  let ?R = "between (pair_paths dir (set (superseded r (listing dir cc)))) cc"
  show "triple (\<lambda>c. c = cc) (list_backups dir)
      (\<lambda>ns c. c = cc \<and> ns = listing dir cc \<and> set ns = complete dir cc) ?R"
    by (rule triple_conseq [OF triple_list_backups]) (auto simp: between_def)
  show "triple (\<lambda>c. c = cc \<and> ns = listing dir cc \<and> set ns = complete dir cc)
      (for_each (superseded r ns) (\<lambda>n. bind_cmd (unlink_file (dir, checksum_name n)) (\<lambda>_. unlink_file (dir, n))))
      (\<lambda>_ c. c = without (pair_paths dir (set (superseded r (listing dir cc)))) cc) ?R" for ns
  proof (cases "ns = listing dir cc")
    case True
    have "without (pair_paths dir {}) cc = cc" by (simp add: without_def pair_paths_def)
    with True triple_prune_loop [of dir "{}" cc "superseded r ns"] show ?thesis
      by (auto intro: triple_conseq)
  qed (simp add: triple_def)
qed

section \<open>The manifest\<close>

definition manifest_ok :: "string \<Rightarrow> datetime \<Rightarrow> contents \<Rightarrow> inode \<Rightarrow> bool" where
  "manifest_ok dir now cc m \<longleftrightarrow> (\<exists>entries. f_data m = ascii_bytes (manifest_text now entries)
     \<and> list_all2 (\<lambda>n e. fst e = n \<and> (\<exists>g t. cc (dir, checksum_name n) = Some g
          \<and> ascii_text (f_data g) = Inr t \<and> snd e = strip t)) (listing dir cc) entries)"

lemma triple_read_ascii:
  "triple (\<lambda>c. c = cc) (read_ascii p)
     (\<lambda>t c. c = cc \<and> (\<exists>g. cc p = Some g \<and> ascii_text (f_data g) = Inr t)) (\<lambda>c. c = cc)"
  unfolding read_ascii_def
proof (rule triple_bind [OF triple_read])
  show "triple (\<lambda>c. c = cc \<and> (\<exists>f. c p = Some f \<and> f_data f = bs)) (of_result (ascii_text bs))
      (\<lambda>t c. c = cc \<and> (\<exists>g. cc p = Some g \<and> ascii_text (f_data g) = Inr t)) (\<lambda>c. c = cc)" for bs
    by (rule triple_conseq [OF triple_of_result [where P = "\<lambda>c. c = cc \<and> (\<exists>f. c p = Some f \<and> f_data f = bs)"]]) auto
qed

lemma triple_write_manifest:
  "triple (\<lambda>c. c = cc) (write_manifest dir now)
     (\<lambda>_ c. same_except (temps dir \<union> {(dir, manifest_name)}) cc c
        \<and> (\<exists>m. c (dir, manifest_name) = Some m \<and> manifest_ok dir now cc m))
     (same_except (temps dir) cc)"
proof -
  let ?R = "same_except (temps dir) cc" and ?S = "\<lambda>n e. fst e = n \<and> (\<exists>g t. cc (dir, checksum_name n) = Some g
      \<and> ascii_text (f_data g) = Inr t \<and> snd e = strip t)"
  let ?Q = "\<lambda>c. same_except (temps dir \<union> {(dir, manifest_name)}) cc c
      \<and> (\<exists>m. c (dir, manifest_name) = Some m \<and> manifest_ok dir now cc m)"
  have notin: "(dir, manifest_name) \<notin> temps dir" using manifest_not_backup(3) by (simp add: temps_def)
  have entry: "triple (\<lambda>c. c = cc) (bind_cmd (read_ascii (dir, checksum_name n)) (\<lambda>t. ret (n, strip t)))
      (\<lambda>e c. c = cc \<and> ?S n e) ?R" for n
    by (rule triple_bind [OF triple_conseq [OF triple_read_ascii [of cc]]], assumption, assumption,
        simp add: same_except_refl, rule triple_ret) auto
  have swap: "triple (\<lambda>c. ?R c \<and> t \<in> temps dir \<and> (\<exists>f. c t = Some f \<and> f_data f = ascii_bytes (manifest_text now es)))
      (on_error (replace_file t (dir, manifest_name)) (unlink_file t)) (\<lambda>_. ?Q) ?R"
    if "list_all2 ?S (listing dir cc) es" for t es
  proof (rule triple_on_error)
    show "triple (\<lambda>c. ?R c \<and> t \<in> temps dir \<and> (\<exists>f. c t = Some f \<and> f_data f = ascii_bytes (manifest_text now es)))
        (replace_file t (dir, manifest_name)) (\<lambda>_. ?Q) (\<lambda>c. ?R c \<and> t \<in> temps dir)"
      using that by (intro triple_replace)
        (auto simp: manifest_ok_def intro!: same_except_upd intro: same_except_mono)
    show "triple (\<lambda>c. ?R c \<and> t \<in> temps dir) (unlink_file t) (\<lambda>_. ?R) ?R"
      by (rule triple_unlink) (auto intro: same_except_upd)
  qed
  have put: "triple (\<lambda>c. c = cc \<and> list_all2 ?S (listing dir cc) es)
      (bind_cmd (write_temp_file (dir, manifest_name) (ascii_bytes (manifest_text now es)))
        (\<lambda>t. on_error (replace_file t (dir, manifest_name)) (unlink_file t))) (\<lambda>_. ?Q) ?R" for es
  proof (cases "list_all2 ?S (listing dir cc) es")
    case True
    have "triple (\<lambda>c. c = cc \<and> list_all2 ?S (listing dir cc) es)
        (write_temp_file (dir, manifest_name) (ascii_bytes (manifest_text now es)))
        (\<lambda>t c. ?R c \<and> t \<in> temps dir \<and> (\<exists>f. c t = Some f \<and> f_data f = ascii_bytes (manifest_text now es))) ?R"
      by (rule triple_conseq [OF triple_write_temp [where P = ?R and T = "{}"]])
        (auto simp: same_except_refl intro: same_except_upd)
    then show ?thesis by (rule triple_bind) (rule swap [OF True])
  qed (simp add: triple_def)
  have rest: "triple (\<lambda>c. c = cc \<and> ns = listing dir cc \<and> set ns = complete dir cc)
      (bind_cmd (map_cmd (\<lambda>n. bind_cmd (read_ascii (dir, checksum_name n)) (\<lambda>t. ret (n, strip t))) ns)
        (\<lambda>es. bind_cmd (write_temp_file (dir, manifest_name) (ascii_bytes (manifest_text now es)))
          (\<lambda>t. on_error (replace_file t (dir, manifest_name)) (unlink_file t)))) (\<lambda>_. ?Q) ?R" for ns
  proof (cases "ns = listing dir cc")
    case True
    have "triple (\<lambda>c. c = cc \<and> ns = listing dir cc \<and> set ns = complete dir cc)
        (map_cmd (\<lambda>n. bind_cmd (read_ascii (dir, checksum_name n)) (\<lambda>t. ret (n, strip t))) ns)
        (\<lambda>es c. c = cc \<and> list_all2 ?S (listing dir cc) es) ?R"
      by (rule triple_conseq [OF triple_map_cmd_rel [OF entry]]) (auto simp: True same_except_refl)
    then show ?thesis by (rule triple_bind) (rule put)
  qed (simp add: triple_def)
  show ?thesis
    unfolding write_manifest_def
    by (rule triple_bind [OF triple_conseq [OF triple_list_backups]], assumption, assumption,
        simp add: same_except_refl, rule rest)
qed

section \<open>The whole backup\<close>

lemma is_backup_name_backup_name: "is_backup_name (backup_name t)"
  by (simp add: is_backup_name_def backup_name_def startswith_def)

lemma triple_read_config:
  "triple (\<lambda>c. c = cc) (read_config config)
     (\<lambda>(bs, t) c. c = cc \<and> (\<exists>f. cc config = Some f \<and> f_data f = bs) \<and> decode_utf8 bs = Inr t) (\<lambda>c. c = cc)"
  unfolding read_config_def
proof (rule triple_catch [where R = "\<lambda>c. c = cc"])
  show "triple (\<lambda>c. c = cc) (bind_cmd (read_file config) (\<lambda>bs. bind_cmd (of_result (decode_utf8 bs)) (\<lambda>t. ret (bs, t))))
      (\<lambda>(bs, t) c. c = cc \<and> (\<exists>f. cc config = Some f \<and> f_data f = bs) \<and> decode_utf8 bs = Inr t) (\<lambda>c. c = cc)"
    by (rule triple_bind [OF triple_read], rule triple_bind [OF triple_conseq [OF triple_of_result]],
        assumption, assumption, simp, rule triple_ret) auto
qed (auto intro: triple_raise)

text \<open>
  Where a run can leave the files: before the new backup is in place, or after it, with part of the
  superseded pairs gone and perhaps a new manifest.
\<close>

definition backup_stages :: "string \<Rightarrow> string \<Rightarrow> int \<Rightarrow> byte list \<Rightarrow> contents \<Rightarrow> contents \<Rightarrow> bool" where
  "backup_stages dir n r bs c0 c \<longleftrightarrow>
     same_except (temps dir \<union> {(dir, checksum_name n)}) c0 c
     \<or> (\<exists>c1 c2. pair_there dir n bs (ascii_bytes (hexdigest bs @ nl)) c0 c1
          \<and> between (pair_paths dir (set (superseded r (listing dir c1)))) c1 c2
          \<and> same_except (temps dir \<union> {(dir, manifest_name)}) c2 c)"

definition backup_finished :: "string \<Rightarrow> string \<Rightarrow> int \<Rightarrow> datetime \<Rightarrow> byte list \<Rightarrow> contents \<Rightarrow> contents \<Rightarrow> bool" where
  "backup_finished dir n r now bs c0 c \<longleftrightarrow>
     (\<exists>c1 c2. pair_there dir n bs (ascii_bytes (hexdigest bs @ nl)) c0 c1
        \<and> c2 = without (pair_paths dir (set (superseded r (listing dir c1)))) c1
        \<and> same_except (temps dir \<union> {(dir, manifest_name)}) c2 c
        \<and> (\<exists>m. c (dir, manifest_name) = Some m \<and> manifest_ok dir now c2 m))"

lemma between_without: "between A c (without A c)"
  by (simp add: between_def without_def)

lemma backup_finished_stages: "backup_finished dir n r now bs c0 c \<Longrightarrow> backup_stages dir n r bs c0 c"
  unfolding backup_finished_def backup_stages_def using between_without by blast

lemma triple_write_prune_manifest:
  assumes n: "is_backup_name n"
  shows "triple (\<lambda>c. c = c0)
     (bind_cmd (write_backup_pair (dir, n) bs (ascii_bytes (hexdigest bs @ nl))) (\<lambda>_.
      bind_cmd (prune_backups dir r) (\<lambda>_. bind_cmd (write_manifest dir now) (\<lambda>_. ret (dir, n)))))
     (\<lambda>p c. p = (dir, n) \<and> backup_finished dir n r now bs c0 c) (backup_stages dir n r bs c0)"
proof (rule triple_bind)
  let ?cs = "ascii_bytes (hexdigest bs @ nl)" and ?R = "backup_stages dir n r bs c0"
  show "triple (\<lambda>c. c = c0) (write_backup_pair (dir, n) bs ?cs) (\<lambda>_. pair_there dir n bs ?cs c0) ?R"
    by (rule triple_conseq [OF triple_write_pair [OF n]]) (auto simp: backup_stages_def)
  show "triple (pair_there dir n bs ?cs c0) (bind_cmd (prune_backups dir r) (\<lambda>_.
      bind_cmd (write_manifest dir now) (\<lambda>_. ret (dir, n))))
      (\<lambda>p c. p = (dir, n) \<and> backup_finished dir n r now bs c0 c) ?R"
  proof (rule triple_point)
    fix c1
    assume c1: "pair_there dir n bs ?cs c0 c1"
    let ?A = "pair_paths dir (set (superseded r (listing dir c1)))"
    have stage: "between ?A c1 c2 \<Longrightarrow> same_except (temps dir \<union> {(dir, manifest_name)}) c2 c \<Longrightarrow> ?R c" for c2 c
      unfolding backup_stages_def using c1 by blast
    have "triple (\<lambda>c. c = c1) (prune_backups dir r) (\<lambda>_ c. c = without ?A c1) ?R"
      by (rule triple_conseq [OF triple_prune]) (auto intro: stage same_except_refl)
    moreover have "triple (\<lambda>c. c = without ?A c1) (bind_cmd (write_manifest dir now) (\<lambda>_. ret (dir, n)))
        (\<lambda>p c. p = (dir, n) \<and> backup_finished dir n r now bs c0 c) ?R"
    proof (rule triple_bind)
      show "triple (\<lambda>c. c = without ?A c1) (write_manifest dir now)
          (\<lambda>_. backup_finished dir n r now bs c0) ?R"
        by (rule triple_conseq [OF triple_write_manifest])
          (auto simp: backup_finished_def intro: c1 stage [OF between_without] same_except_mono)
      show "triple (backup_finished dir n r now bs c0) (ret (dir, n))
          (\<lambda>p c. p = (dir, n) \<and> backup_finished dir n r now bs c0 c) ?R"
        by (rule triple_ret) simp
    qed
    ultimately show "triple (\<lambda>c. c = c1) (bind_cmd (prune_backups dir r) (\<lambda>_.
        bind_cmd (write_manifest dir now) (\<lambda>_. ret (dir, n))))
        (\<lambda>p c. p = (dir, n) \<and> backup_finished dir n r now bs c0 c) ?R"
      by (rule triple_bind)
  qed
qed

end
