(* ===== verification/BackupGuarantees.thy ===== *)
theory BackupGuarantees
  imports BackupSafety
begin

text \<open>
  What the rest of the controller may rely on: the triple of \<^verbatim>\<open>create_backup\<close> as a whole, the
  invariant that every listed backup is a verified copy of a valid configuration, retention, the
  order of the names, and the interface of operations that stay in one directory.
\<close>

section \<open>The triple of the whole operation\<close>

definition valid_bytes :: "yaml_loader \<Rightarrow> validator \<Rightarrow> byte list \<Rightarrow> bool" where
  "valid_bytes safe_load errors bs \<longleftrightarrow>
     (\<exists>t reason. decode_utf8 bs = Inr t \<and> check_config_text safe_load errors t = Inr (True, reason))"

text \<open>What a call returns and what it leaves when it ends on the way, for the contents \<open>c0\<close> at its start.\<close>

abbreviation backup_returned ::
    "yaml_loader \<Rightarrow> validator \<Rightarrow> path \<Rightarrow> string \<Rightarrow> bool \<Rightarrow> datetime \<Rightarrow> int \<Rightarrow> contents \<Rightarrow> path \<Rightarrow> contents \<Rightarrow> bool" where
  "backup_returned safe_load errors config dir healthy now r c0 p c \<equiv> p = (dir, backup_name now) \<and> healthy \<and> 1 \<le> r \<and>
     (\<exists>f. c0 config = Some f \<and> valid_bytes safe_load errors (f_data f)
          \<and> backup_finished dir (backup_name now) r now (f_data f) c0 c)"

abbreviation backup_left ::
    "yaml_loader \<Rightarrow> validator \<Rightarrow> path \<Rightarrow> string \<Rightarrow> datetime \<Rightarrow> int \<Rightarrow> contents \<Rightarrow> contents \<Rightarrow> bool" where
  "backup_left safe_load errors config dir now r c0 c \<equiv> c = c0 \<or>
     (\<exists>f. c0 config = Some f \<and> valid_bytes safe_load errors (f_data f)
          \<and> backup_stages dir (backup_name now) r (f_data f) c0 c)"

text \<open>The commands of \<^verbatim>\<open>create_backup\<close> after the validation.\<close>

abbreviation backup_rest :: "string \<Rightarrow> datetime \<Rightarrow> int \<Rightarrow> byte list \<Rightarrow> (disk, path) cmd" where
  "backup_rest dir now r bs \<equiv> bind_cmd (make_dir dir) (\<lambda>_. let backup = (dir, backup_name now)
     in bind_cmd (write_backup_pair backup bs (ascii_bytes (hexdigest bs @ nl))) (\<lambda>_.
        bind_cmd (prune_backups dir r) (\<lambda>_. bind_cmd (write_manifest dir now) (\<lambda>_. ret backup))))"

lemma triple_backup_rest:
  assumes "healthy" and "1 \<le> r"
  shows "triple (\<lambda>c. c = c0 \<and> (\<exists>f. c0 config = Some f \<and> f_data f = bs) \<and> valid_bytes safe_load errors bs)
     (backup_rest dir now r bs) (backup_returned safe_load errors config dir healthy now r c0)
     (backup_left safe_load errors config dir now r c0)"
    (is "triple ?P _ ?Q ?R")
proof (cases "(\<exists>f. c0 config = Some f \<and> f_data f = bs) \<and> valid_bytes safe_load errors bs")
  case True
  show ?thesis
  proof (rule triple_bind)
    show "triple ?P (make_dir dir) (\<lambda>_ c. c = c0) ?R"
      by (rule triple_conseq [OF triple_make_dir [of "\<lambda>c. c = c0"]]) auto
    show "triple (\<lambda>c. c = c0) (let backup = (dir, backup_name now)
      in bind_cmd (write_backup_pair backup bs (ascii_bytes (hexdigest bs @ nl))) (\<lambda>_.
         bind_cmd (prune_backups dir r) (\<lambda>_. bind_cmd (write_manifest dir now) (\<lambda>_. ret backup)))) ?Q ?R"
      unfolding Let_def
      by (rule triple_conseq [OF triple_write_prune_manifest [OF is_backup_name_backup_name]]) (use assms True in auto)
  qed
qed (auto simp: triple_def)

lemma triple_backup_checked:
  assumes "healthy" and "1 \<le> r"
  shows "triple (\<lambda>c. c = c0 \<and> (\<exists>f. c0 config = Some f \<and> f_data f = bs) \<and> decode_utf8 bs = Inr t)
     (bind_cmd (of_result (check_config_text safe_load errors t)) (\<lambda>(valid, reason).
        if \<not> valid then raise (BackupValidationError reason) else backup_rest dir now r bs))
     (backup_returned safe_load errors config dir healthy now r c0) (backup_left safe_load errors config dir now r c0)"
    (is "triple ?C _ ?Q ?R")
proof (rule triple_bind)
  show "triple ?C (of_result (check_config_text safe_load errors t))
      (\<lambda>v c. ?C c \<and> check_config_text safe_load errors t = Inr v) ?R"
    by (rule triple_conseq [OF triple_of_result [of ?C]]) auto
  show "triple (\<lambda>c. ?C c \<and> check_config_text safe_load errors t = Inr v)
      (case v of (valid, reason) \<Rightarrow> if \<not> valid then raise (BackupValidationError reason) else backup_rest dir now r bs) ?Q ?R" for v
  proof (cases v)
    case (Pair valid reason)
    show ?thesis
      unfolding Pair prod.case
      by (rule triple_if, rule triple_raise, simp, rule triple_conseq [OF triple_backup_rest [OF assms, of c0 config bs]])
        (auto simp: valid_bytes_def)
  qed
qed

lemma triple_create_backup:
  "triple (\<lambda>c. c = c0) (create_backup safe_load errors config dir healthy now r)
     (backup_returned safe_load errors config dir healthy now r c0) (backup_left safe_load errors config dir now r c0)"
    (is "triple ?P _ ?Q ?R")
proof -
  have read: "triple ?P (bind_cmd (read_config config) (\<lambda>(contents, text).
        bind_cmd (of_result (check_config_text safe_load errors text)) (\<lambda>(valid, reason).
        if \<not> valid then raise (BackupValidationError reason) else backup_rest dir now r contents))) ?Q ?R"
    if ok: "healthy" "1 \<le> r"
  proof (rule triple_bind)
    show "triple ?P (read_config config) (\<lambda>(bs, t) c. c = c0 \<and> (\<exists>f. c0 config = Some f \<and> f_data f = bs)
        \<and> decode_utf8 bs = Inr t) ?R"
      by (rule triple_conseq [OF triple_read_config [of c0]]) auto
  qed (clarsimp simp only: prod.case split_beta intro!: triple_backup_checked [OF ok] split: prod.split)
  show ?thesis
    unfolding create_backup_def using read by (intro triple_if triple_raise) auto
qed

section \<open>Every listed backup is a verified copy of a valid configuration\<close>

definition good_backups :: "yaml_loader \<Rightarrow> validator \<Rightarrow> string \<Rightarrow> contents \<Rightarrow> bool" where
  "good_backups safe_load errors dir c \<longleftrightarrow> (\<forall>n f g. is_backup_name n \<longrightarrow> c (dir, n) = Some f \<longrightarrow>
     c (dir, checksum_name n) = Some g \<longrightarrow> pair_ok f g \<and> valid_bytes safe_load errors (f_data f))"

lemma name_paths:
  assumes "is_backup_name m"
  shows "(dir, m) \<notin> temps dir" "(dir, checksum_name m) \<notin> temps dir" "m \<noteq> manifest_name"
    "checksum_name m \<noteq> manifest_name" "m \<noteq> checksum_name k" "checksum_name k \<noteq> m"
  using backup_name_not_temp [OF assms] manifest_not_backup(1) manifest_not_backup(2) [symmetric]
    backup_not_checksum [OF assms] assms
  by (auto simp: temps_def)

lemma pair_there_other:
  assumes "pair_there dir n bs cs c0 c1" and "is_backup_name n" and "is_backup_name m" and "m \<noteq> n"
  shows "c1 (dir, m) = c0 (dir, m)" and "c1 (dir, checksum_name m) = c0 (dir, checksum_name m)"
proof -
  have s: "same_except (temps dir \<union> {(dir, checksum_name n), (dir, n)}) c0 c1"
    using assms(1) by (simp add: pair_there_def)
  show "c1 (dir, m) = c0 (dir, m)" "c1 (dir, checksum_name m) = c0 (dir, checksum_name m)"
    using name_paths(1,2) [OF assms(3)] name_paths(5,6) [OF assms(3), of n] name_paths(6) [OF assms(2), of m] assms(4)
    by (auto intro!: same_exceptD [OF s])
qed

lemma pair_paths_iff:
  assumes "is_backup_name m" and "\<And>v. v \<in> V \<Longrightarrow> is_backup_name v"
  shows "(dir, m) \<in> pair_paths dir V \<longleftrightarrow> m \<in> V" "(dir, checksum_name m) \<in> pair_paths dir V \<longleftrightarrow> m \<in> V"
  using assms backup_not_checksum by (auto simp: pair_paths_def)

lemma between_iff: "between A c0 c \<longleftrightarrow> (\<forall>p. p \<in> A \<and> c p = None \<or> c p = c0 p)"
  unfolding between_def by metis

lemma betweenD: "between A c0 c \<Longrightarrow> c p = c0 p \<or> c p = None"
  unfolding between_iff by metis

lemma between_keeps: "between A c0 c \<Longrightarrow> p \<notin> A \<Longrightarrow> c p = c0 p"
  unfolding between_iff by metis

lemma good_backups_mono:
  assumes "good_backups safe_load errors dir c"
    and "\<And>m. is_backup_name m \<Longrightarrow> c' (dir, m) = c (dir, m) \<or> c' (dir, m) = None"
    and "\<And>m. is_backup_name m \<Longrightarrow> c' (dir, checksum_name m) = c (dir, checksum_name m) \<or> c' (dir, checksum_name m) = None"
  shows "good_backups safe_load errors dir c'"
  unfolding good_backups_def
proof (intro allI impI)
  fix n f g
  assume n: "is_backup_name n" and f: "c' (dir, n) = Some f" and g: "c' (dir, checksum_name n) = Some g"
  then have "c (dir, n) = Some f" "c (dir, checksum_name n) = Some g"
    using assms(2) [OF n] assms(3) [OF n] by auto
  then show "pair_ok f g \<and> valid_bytes safe_load errors (f_data f)"
    using assms(1) n by (simp add: good_backups_def)
qed

lemma good_backups_pair_there:
  assumes good: "good_backups safe_load errors dir c0" and n: "is_backup_name n"
    and valid: "valid_bytes safe_load errors bs"
    and there: "pair_there dir n bs (ascii_bytes (hexdigest bs @ nl)) c0 c1"
  shows "good_backups safe_load errors dir c1"
  unfolding good_backups_def
proof (intro allI impI)
  fix m f g
  assume m: "is_backup_name m" and f: "c1 (dir, m) = Some f" and g: "c1 (dir, checksum_name m) = Some g"
  note same = there [unfolded pair_there_def]
  show "pair_ok f g \<and> valid_bytes safe_load errors (f_data f)"
  proof (cases "m = n")
    case True
    with same f g have "f_data f = bs" "f_data g = ascii_bytes (hexdigest bs @ nl)" by auto
    with valid show ?thesis by (simp add: pair_ok_fresh)
  next
    case False
    note pair_there_other [OF there n m False]
    with good m f g show ?thesis by (simp add: good_backups_def)
  qed
qed

lemma good_backups_stages:
  assumes good: "good_backups safe_load errors dir c0" and n: "is_backup_name n" and fresh: "c0 (dir, n) = None"
    and valid: "valid_bytes safe_load errors bs" and st: "backup_stages dir n r bs c0 c"
  shows "good_backups safe_load errors dir c"
  using st unfolding backup_stages_def
proof
  assume same: "same_except (temps dir \<union> {(dir, checksum_name n)}) c0 c"
  have "c (dir, n) = None" using same fresh name_paths [OF n] by (auto simp: same_except_def)
  show ?thesis
    unfolding good_backups_def
  proof (intro allI impI)
    fix m f g
    assume m: "is_backup_name m" "c (dir, m) = Some f" "c (dir, checksum_name m) = Some g"
    then have "m \<noteq> n" using \<open>c (dir, n) = None\<close> by auto
    with same m have "c0 (dir, m) = Some f" "c0 (dir, checksum_name m) = Some g"
      using name_paths [OF m(1)] by (auto simp: same_except_def)
    with good m(1) show "pair_ok f g \<and> valid_bytes safe_load errors (f_data f)" by (simp add: good_backups_def)
  qed
next
  assume "\<exists>c1 c2. pair_there dir n bs (ascii_bytes (hexdigest bs @ nl)) c0 c1
      \<and> between (pair_paths dir (set (superseded r (listing dir c1)))) c1 c2
      \<and> same_except (temps dir \<union> {(dir, manifest_name)}) c2 c"
  then obtain c1 c2 where "pair_there dir n bs (ascii_bytes (hexdigest bs @ nl)) c0 c1"
    and b: "between (pair_paths dir (set (superseded r (listing dir c1)))) c1 c2"
    and s: "same_except (temps dir \<union> {(dir, manifest_name)}) c2 c" by blast
  then have "good_backups safe_load errors dir c1" using good_backups_pair_there [OF good n valid] by blast
  then have "good_backups safe_load errors dir c2"
    by (rule good_backups_mono) (rule betweenD [OF b])+
  then show ?thesis
    by (rule good_backups_mono) (use s name_paths in \<open>auto simp: same_except_def\<close>)
qed

section \<open>Retention\<close>

definition newest :: "int \<Rightarrow> string list \<Rightarrow> string list" where
  "newest r ns = drop (length ns - nat r) ns"

lemma superseded_newest: "superseded r ns @ newest r ns = ns"
  by (simp add: superseded_def newest_def)

lemma length_newest: "length (newest r ns) = min (nat r) (length ns)"
  by (simp add: newest_def)

lemma newest_complement:
  assumes "finite S"
  shows "sorted_list_of_set (S - set (superseded r (sorted_list_of_set S))) = newest r (sorted_list_of_set S)"
proof -
  let ?l = "sorted_list_of_set S"
  have "S - set (superseded r ?l) = set (newest r ?l)"
  proof -
    have "set ?l = set (superseded r ?l) \<union> set (newest r ?l)"
      by (metis set_append superseded_newest)
    moreover have "set (superseded r ?l) \<inter> set (newest r ?l) = {}"
      by (metis distinct_append distinct_sorted_list_of_set superseded_newest)
    ultimately show ?thesis using assms by auto
  qed
  moreover have "sorted (newest r ?l)" "distinct (newest r ?l)"
    by (simp_all add: newest_def sorted_wrt_drop)
  ultimately show ?thesis by (simp add: sorted_list_of_set.idem_if_sorted_distinct)
qed

lemma complete_names: "m \<in> complete dir c \<Longrightarrow> is_backup_name m"
  by (simp add: complete_def)

lemma finite_complete: "finite (complete dir (find_file d))"
proof (rule finite_subset)
  show "complete dir (find_file d) \<subseteq> set (names_in dir d)" by (auto simp: complete_def set_names_in)
qed (rule finite_set)

lemma complete_pair_there:
  assumes n: "is_backup_name n" and there: "pair_there dir n bs cs c0 c1"
  shows "complete dir c1 = insert n (complete dir c0)"
proof -
  have "m \<in> complete dir c1 \<longleftrightarrow> m \<in> insert n (complete dir c0)" if m: "is_backup_name m" for m
  proof (cases "m = n")
    case True
    with n there show ?thesis by (auto simp: complete_def pair_there_def)
  next
    case False
    with pair_there_other [OF there n m False] show ?thesis by (simp add: complete_def)
  qed
  then show ?thesis using n by (auto dest: complete_names)
qed

lemma complete_without:
  assumes "\<And>v. v \<in> V \<Longrightarrow> is_backup_name v"
  shows "complete dir (without (pair_paths dir V) c) = complete dir c - V"
  using pair_paths_iff [where V = V] assms by (auto simp: complete_def without_def)

lemma superseded_names:
  "finite (complete dir c) \<Longrightarrow> v \<in> set (superseded r (listing dir c)) \<Longrightarrow> is_backup_name v"
  by (auto simp: superseded_def listing_def dest!: in_set_takeD complete_names)

text \<open>What a run that returns leaves, in terms of the files before it.\<close>

lemma backup_finished_listing:
  assumes n: "is_backup_name n" and fin: "finite (complete dir c0)"
    and finished: "backup_finished dir n r now bs c0 c"
  defines "kept \<equiv> newest r (sorted_list_of_set (insert n (complete dir c0)))"
  shows "listing dir c = kept"
    and "\<And>m. m \<in> set kept \<Longrightarrow> m \<noteq> n \<Longrightarrow> c (dir, m) = c0 (dir, m)"
    and "n \<in> set kept \<Longrightarrow> \<exists>f. c (dir, n) = Some f \<and> f_data f = bs"
    and "n \<notin> set kept \<Longrightarrow> c (dir, n) = None"
proof -
  from finished obtain c1 c2 where there: "pair_there dir n bs (ascii_bytes (hexdigest bs @ nl)) c0 c1"
    and c2: "c2 = without (pair_paths dir (set (superseded r (listing dir c1)))) c1"
    and s: "same_except (temps dir \<union> {(dir, manifest_name)}) c2 c"
    unfolding backup_finished_def by blast
  let ?V = "set (superseded r (listing dir c1))"
  have co: "complete dir c1 = insert n (complete dir c0)" by (rule complete_pair_there [OF n there])
  then have V: "is_backup_name v" if "v \<in> ?V" for v using superseded_names [OF _ that] fin by simp
  have "complete dir c = complete dir c2"
    by (rule complete_same [OF s]) (auto dest: name_paths)
  also have "\<dots> = insert n (complete dir c0) - ?V" unfolding c2 by (simp add: complete_without V co)
  finally have compl: "complete dir c = insert n (complete dir c0) - ?V" .
  show "listing dir c = kept"
    using newest_complement [of "insert n (complete dir c0)" r] fin
    by (simp add: listing_def compl kept_def co)
  then have kept: "set kept = insert n (complete dir c0) - ?V"
    using compl fin by (metis finite_Diff finite_insert listing_def set_sorted_list_of_set)
  have at_c: "c (dir, m) = (if m \<in> ?V then None else c1 (dir, m))" if m: "is_backup_name m" for m
    using same_exceptD [OF s, of "(dir, m)"] name_paths [OF m] pair_paths_iff [OF m V]
    by (auto simp: c2 without_def)
  show "c (dir, m) = c0 (dir, m)" if "m \<in> set kept" "m \<noteq> n" for m
  proof -
    have m: "is_backup_name m" "m \<notin> ?V" using that kept by (auto dest: complete_names)
    then have "c (dir, m) = c1 (dir, m)" using at_c by simp
    also have "\<dots> = c0 (dir, m)"
      using pair_there_other [OF there n m(1) that(2)] by simp
    finally show ?thesis .
  qed
  show "\<exists>f. c (dir, n) = Some f \<and> f_data f = bs" if "n \<in> set kept"
    using that kept at_c [OF n] there by (auto simp: pair_there_def)
  show "c (dir, n) = None" if "n \<notin> set kept"
    using that kept at_c [OF n] by auto
qed

text \<open>Wherever a run stops, the newest backups are still there, as they were.\<close>

lemma backup_stages_keep:
  assumes n: "is_backup_name n" and fin: "finite (complete dir c0)"
    and st: "backup_stages dir n r bs c0 c"
    and m: "m \<in> set (newest r (sorted_list_of_set (insert n (complete dir c0))))" "m \<noteq> n"
  shows "c (dir, m) = c0 (dir, m) \<and> c (dir, checksum_name m) = c0 (dir, checksum_name m)"
proof -
  let ?l = "sorted_list_of_set (insert n (complete dir c0))"
  have "m \<in> set ?l" using m(1) by (auto simp: newest_def dest: in_set_dropD)
  then have "m \<in> complete dir c0"
    using fin m(2) by (metis finite_insert insertE set_sorted_list_of_set)
  then have nm: "is_backup_name m" by (rule complete_names)
  note np = name_paths [OF nm] name_paths [OF n]
  show ?thesis
    using st unfolding backup_stages_def
  proof
    assume "same_except (temps dir \<union> {(dir, checksum_name n)}) c0 c"
    then show ?thesis using np m(2) by (auto simp: same_except_def)
  next
    assume "\<exists>c1 c2. pair_there dir n bs (ascii_bytes (hexdigest bs @ nl)) c0 c1
        \<and> between (pair_paths dir (set (superseded r (listing dir c1)))) c1 c2
        \<and> same_except (temps dir \<union> {(dir, manifest_name)}) c2 c"
    then obtain c1 c2 where there: "pair_there dir n bs (ascii_bytes (hexdigest bs @ nl)) c0 c1"
      and b: "between (pair_paths dir (set (superseded r (listing dir c1)))) c1 c2"
      and s: "same_except (temps dir \<union> {(dir, manifest_name)}) c2 c" by blast
    let ?V = "set (superseded r (listing dir c1))"
    have co: "complete dir c1 = insert n (complete dir c0)" by (rule complete_pair_there [OF n there])
    then have l: "listing dir c1 = ?l" by (simp add: listing_def)
    have V: "is_backup_name v" if "v \<in> ?V" for v using superseded_names [OF _ that] fin co by simp
    have "m \<notin> ?V"
      using m(1) by (metis disjoint_iff distinct_append distinct_sorted_list_of_set l superseded_newest)
    then have "(dir, m) \<notin> pair_paths dir ?V" "(dir, checksum_name m) \<notin> pair_paths dir ?V"
      using pair_paths_iff [OF nm V] by auto
    then have "c2 (dir, m) = c1 (dir, m)" "c2 (dir, checksum_name m) = c1 (dir, checksum_name m)"
      using between_keeps [OF b] by auto
    moreover have "c (dir, m) = c2 (dir, m)" "c (dir, checksum_name m) = c2 (dir, checksum_name m)"
      using s np by (auto simp: same_except_def)
    moreover have "c1 (dir, m) = c0 (dir, m)" "c1 (dir, checksum_name m) = c0 (dir, checksum_name m)"
      using pair_there_other [OF there n nm m(2)] by simp_all
    ultimately show ?thesis by simp
  qed
qed

section \<open>Reading backups\<close>

text \<open>A disk on which no call to come meets a fault.\<close>

definition calm :: "disk \<Rightarrow> bool" where
  "calm d \<longleftrightarrow> faults d = [] \<and> \<not> dead d"

lemma syscall_calm [simp]: "calm d \<Longrightarrow> syscall torn op d = op d"
  by (simp add: calm_def syscall_def)

definition verified :: "contents \<Rightarrow> path \<Rightarrow> bool" where
  "verified c p \<longleftrightarrow> (\<exists>f g. c p = Some f \<and> c (fst p, checksum_name (snd p)) = Some g \<and> pair_ok f g)"

lemma triple_verify:
  "triple (\<lambda>c. c = cc) (verify_backup p) (\<lambda>b c. c = cc \<and> (b \<longrightarrow> verified cc p)) (\<lambda>c. c = cc)"
  unfolding verify_backup_def
proof (rule triple_catch [where R = "\<lambda>c. c = cc"])
  let ?q = "(fst p, checksum_name (snd p))"
  show "triple (\<lambda>c. c = cc) (bind_cmd (read_ascii ?q) (\<lambda>t. bind_cmd (read_file p) (\<lambda>bs. ret (checksum_ok bs t))))
      (\<lambda>b c. c = cc \<and> (b \<longrightarrow> verified cc p)) (\<lambda>c. c = cc)"
  proof (rule triple_bind [OF triple_read_ascii])
    fix t
    let ?P = "\<lambda>c. c = cc \<and> (\<exists>g. cc ?q = Some g \<and> ascii_text (f_data g) = Inr t)"
    show "triple ?P (bind_cmd (read_file p) (\<lambda>bs. ret (checksum_ok bs t)))
        (\<lambda>b c. c = cc \<and> (b \<longrightarrow> verified cc p)) (\<lambda>c. c = cc)"
    proof (rule triple_bind)
      show "triple ?P (read_file p) (\<lambda>bs c. ?P c \<and> (\<exists>f. c p = Some f \<and> f_data f = bs)) (\<lambda>c. c = cc)"
        by (rule triple_conseq [OF triple_read [of ?P]]) auto
      show "triple (\<lambda>c. ?P c \<and> (\<exists>f. c p = Some f \<and> f_data f = bs)) (ret (checksum_ok bs t))
          (\<lambda>b c. c = cc \<and> (b \<longrightarrow> verified cc p)) (\<lambda>c. c = cc)" for bs
        by (rule triple_ret) (auto simp: verified_def pair_ok_def)
    qed
  qed
qed (auto intro: triple_ret)

text \<open>Without faults the check is exact.\<close>

lemma verify_backup_calm:
  assumes "calm d"
  shows "verify_backup p d = (Inr (verified (find_file d) p), d)"
  using assms
  by (auto simp: verify_backup_def catch_def read_ascii_def read_file_def with_file_def bind_cmd_def verified_def
      pair_ok_def ascii_text_def split: option.split)

lemma get_latest_triple:
  "triple (\<lambda>c. c = cc) (get_latest_backup dir)
     (\<lambda>p c. c = cc \<and> p = (if listing dir cc = [] then None else Some (dir, last (listing dir cc)))
          \<and> set (listing dir cc) = complete dir cc) (\<lambda>c. c = cc)"
  unfolding get_latest_backup_def
  by (rule triple_bind [OF triple_list_backups]) (auto intro!: triple_ret)

section \<open>The order of the names\<close>

text \<open>Python sorts the names as texts; the date-times are compared field by field.\<close>

definition dt_key :: "datetime \<Rightarrow> nat list" where
  "dt_key t = [dt_year t, dt_month t, dt_day t, dt_hour t, dt_minute t, dt_second t, dt_micro t]"

lemma append_less_append:
  fixes a b x y :: string
  assumes "length a = length b"
  shows "a @ x < b @ y \<longleftrightarrow> a < b \<or> a = b \<and> x < y"
  using assms by (induction a b rule: list_induct2) auto

lemma digit_char_less: "m < 10 \<Longrightarrow> n < 10 \<Longrightarrow> digit_char m < digit_char n \<longleftrightarrow> m < n"
  by (simp add: less_char_def code_digit_char)

lemma digit_char_eq: "m < 10 \<Longrightarrow> n < 10 \<Longrightarrow> digit_char m = digit_char n \<longleftrightarrow> m = n"
  by (metis add_left_cancel code_digit_char)

lemma digits_eq: "m < 10 ^ k \<Longrightarrow> n < 10 ^ k \<Longrightarrow> digits k m = digits k n \<longleftrightarrow> m = n"
proof (induction k arbitrary: m n)
  case (Suc k)
  have "m = n \<longleftrightarrow> m div 10 = n div 10 \<and> m mod 10 = n mod 10" by (metis div_mult_mod_eq)
  with Suc show ?case by (simp add: digit_char_eq less_mult_imp_div_less)
qed simp

lemma last_digit_less:
  fixes a b r s :: nat
  assumes "r < 10" and "s < 10"
  shows "a * 10 + r < b * 10 + s \<longleftrightarrow> a < b \<or> a = b \<and> r < s"
  using assms by (cases a b rule: linorder_cases) auto

lemma digits_less: "m < 10 ^ k \<Longrightarrow> n < 10 ^ k \<Longrightarrow> digits k m < digits k n \<longleftrightarrow> m < n"
proof (induction k arbitrary: m n)
  case (Suc k)
  have b: "m div 10 < 10 ^ k" "n div 10 < 10 ^ k" using Suc.prems by (simp_all add: less_mult_imp_div_less)
  have "m < n \<longleftrightarrow> m div 10 < n div 10 \<or> m div 10 = n div 10 \<and> m mod 10 < n mod 10"
    using last_digit_less [of "m mod 10" "n mod 10" "m div 10" "n div 10"] by simp
  with b show ?case by (simp add: append_less_append Suc.IH digits_eq digit_char_less)
qed simp

lemma show_nat_step: "10 \<le> n \<Longrightarrow> show_nat n = show_nat (n div 10) @ [digit_char (n mod 10)]"
  by (subst show_nat.simps) simp

lemma show_nat_year:
  assumes "1000 \<le> y" and "y \<le> 9999"
  shows "show_nat y = digits 4 y"
proof -
  let ?a = "y div 10" and ?b = "y div 10 div 10" and ?c = "y div 10 div 10 div 10"
  have "10 \<le> y" "10 \<le> ?a" "10 \<le> ?b" "?c < 10" using assms by auto
  moreover from this have "show_nat ?c = [digit_char (?c mod 10)]" by (subst show_nat.simps) simp
  ultimately have "show_nat y = [digit_char (?c mod 10)] @ [digit_char (?b mod 10)] @ [digit_char (?a mod 10)]
      @ [digit_char (y mod 10)]"
    using show_nat_step [of y] show_nat_step [of ?a] show_nat_step [of ?b] by simp
  moreover have four: "(4 :: nat) = Suc (Suc (Suc (Suc 0)))" by simp
  ultimately show ?thesis unfolding four digits.simps by simp
qed

lemma field_less:
  "m < 10 ^ k \<Longrightarrow> n < 10 ^ k \<Longrightarrow> digits k m @ x < digits k n @ y \<longleftrightarrow> m < n \<or> m = n \<and> x < y"
  by (simp add: append_less_append digits_less digits_eq)

lemma backup_name_less:
  assumes "datetime_ok t" and "datetime_ok u" and "1000 \<le> dt_year t" and "1000 \<le> dt_year u"
  shows "backup_name t < backup_name u \<longleftrightarrow> dt_key t < dt_key u"
proof -
  have b: "dt_year x < 10000 \<and> dt_month x < 100 \<and> dt_day x < 100 \<and> dt_hour x < 100
      \<and> dt_minute x < 100 \<and> dt_second x < 100 \<and> dt_micro x < 1000000" if "datetime_ok x" for x
    using that by (simp add: datetime_ok_def)
  note bt = b [OF assms(1)] and bu = b [OF assms(2)]
  have y: "show_nat (dt_year t) = digits 4 (dt_year t)" "show_nat (dt_year u) = digits 4 (dt_year u)"
    using show_nat_year assms by (simp_all add: datetime_ok_def)
  show ?thesis
    using bt bu unfolding backup_name_def y dt_key_def by (simp add: field_less)
qed

end
