(* ===== verification/BackupProgress.thy ===== *)
theory BackupProgress
  imports BackupGuarantees
begin

text \<open>
  Runs without faults: with a temporary name to spare for each file, every operation of the backups
  returns, so the guarantees about runs that return are not empty. Each lemma says what the call
  returns and what the files are afterwards.
\<close>

section \<open>Calm disks\<close>

lemma calm_put [simp]: "calm (put_file p f d) = calm d" "dirs (put_file p f d) = dirs d"
  "rand_names (put_file p f d) = rand_names d" "proc_gid (put_file p f d) = proc_gid d"
  by (simp_all add: calm_def put_file_def)

lemma calm_del [simp]: "calm (del_file p d) = calm d" "dirs (del_file p d) = dirs d"
  "rand_names (del_file p d) = rand_names d" "proc_gid (del_file p d) = proc_gid d"
  by (simp_all add: calm_def del_file_def)

lemma calm_update [simp]: "calm (d\<lparr>rand_names := rs\<rparr>) = calm d" "calm (d\<lparr>dirs := ds\<rparr>) = calm d"
  by (simp_all add: calm_def)

lemma find_put_fun: "find_file (put_file p f d) = (find_file d)(p \<mapsto> f)"
  by (simp add: fun_eq_iff)

text \<open>\<open>calm_step d d'\<close>: still calm, with the same directories.\<close>

definition calm_step :: "disk \<Rightarrow> disk \<Rightarrow> bool" where
  "calm_step d d' \<longleftrightarrow> calm d' \<and> dirs d' = dirs d"

lemma calm_step_trans: "calm_step a b \<Longrightarrow> calm_step b c \<Longrightarrow> calm_step a c"
  by (simp add: calm_step_def)

definition temp_path :: "string \<Rightarrow> string \<Rightarrow> string \<Rightarrow> path" where
  "temp_path dir n r = (dir, (''.'' @ n @ ''.'') @ r @ ''.tmp'')"

lemma temp_path_temps: "temp_path dir n r \<in> temps dir"
  by (simp add: temp_path_def temps_def is_temp_def)

lemma mkstemp_calm:
  assumes "calm d" and "map_of (dirs d) dir = Some g" and "rand_names d = r # rs"
    and "find_file d (temp_path dir n r) = None"
  shows "\<exists>d'. mkstemp dir (''.'' @ n @ ''.'') ''.tmp'' d = (Inr (temp_path dir n r), d')
    \<and> calm_step d d' \<and> rand_names d' = rs
    \<and> find_file d' = (find_file d)(temp_path dir n r \<mapsto> \<lparr>f_data = [], f_mode = 0x180, f_gid = proc_gid d\<rparr>)"
  using assms by (simp add: mkstemp_def temp_path_def calm_step_def find_put_fun)

lemma write_temp_calm:
  assumes "calm d" and "map_of (dirs d) dir = Some g" and "rand_names d = r # rs"
    and "find_file d (temp_path dir n r) = None"
  shows "\<exists>d'. write_temp_file (dir, n) bs d = (Inr (temp_path dir n r), d')
    \<and> calm_step d d' \<and> rand_names d' = rs
    \<and> find_file d' = (find_file d)(temp_path dir n r \<mapsto> \<lparr>f_data = bs, f_mode = 0x1A0, f_gid = g\<rparr>)"
proof -
  let ?t = "temp_path dir n r"
  obtain d1 where m: "mkstemp dir (''.'' @ n @ ''.'') ''.tmp'' d = (Inr ?t, d1)" and d1: "calm d1" "dirs d1 = dirs d"
    "rand_names d1 = rs" "find_file d1 = (find_file d)(?t \<mapsto> \<lparr>f_data = [], f_mode = 0x180, f_gid = proc_gid d\<rparr>)"
    using mkstemp_calm [OF assms] by (auto simp: calm_step_def)
  have there: "find_file d1 ?t = Some \<lparr>f_data = [], f_mode = 0x180, f_gid = proc_gid d\<rparr>" using d1 by simp
  have dir: "map_of (dirs d1) dir = Some g" using assms(2) d1(2) by simp
  show ?thesis
    unfolding write_temp_file_def fst_conv snd_conv bind_cmd_Inr [where m = "mkstemp dir _ _", OF m]
    using d1 there dir
    by (simp add: bind_cmd_def on_error_def write_file_def write_data_def fsync_file_def
        chmod_file_def chown_file_def stat_dir_def with_file_def calm_step_def find_put_fun)
qed

lemma write_pair_calm:
  assumes n: "is_backup_name n" and d: "calm d" "map_of (dirs d) dir = Some g" "rand_names d = r1 # r2 # rs"
    and free: "\<And>p. p \<in> temps dir \<Longrightarrow> find_file d p = None"
    and r1: "CHR ''.'' \<notin> set r1"
  shows "\<exists>d'. write_backup_pair (dir, n) bs cs d = (Inr (), d') \<and> calm_step d d' \<and> rand_names d' = rs
    \<and> find_file d' = (find_file d)
        ((dir, checksum_name n) \<mapsto> \<lparr>f_data = cs, f_mode = 0x1A0, f_gid = g\<rparr>,
         (dir, n) \<mapsto> \<lparr>f_data = bs, f_mode = 0x1A0, f_gid = g\<rparr>)"
proof -
  let ?b = "temp_path dir n r1" and ?c = "temp_path dir (checksum_name n) r2"
  let ?f = "\<lparr>f_data = bs, f_mode = 0x1A0, f_gid = g\<rparr>" and ?g = "\<lparr>f_data = cs, f_mode = 0x1A0, f_gid = g\<rparr>"
  note t = temp_path_temps [of dir n r1] temp_path_temps [of dir "checksum_name n" r2]
  have "find_file d ?b = None" using free t(1) by blast
  from write_temp_calm [OF d this, of bs] obtain d1 where
    m1: "write_temp_file (dir, n) bs d = (Inr ?b, d1)"
    and d1: "calm d1" "dirs d1 = dirs d" "rand_names d1 = r2 # rs" "find_file d1 = (find_file d)(?b \<mapsto> ?f)"
    by (auto simp: calm_step_def)
  have ne: "?c \<noteq> ?b"
  proof
    assume "?c = ?b"
    then have "''sha256.'' @ r2 = r1" by (simp add: temp_path_def checksum_name_def)
    with r1 show False by auto
  qed
  have "find_file d1 ?c = None" using free t(2) ne d1(4) by simp
  moreover have "map_of (dirs d1) dir = Some g" using d(2) d1(2) by simp
  ultimately obtain d2 where
    m2: "write_temp_file (dir, checksum_name n) cs d1 = (Inr ?c, d2)"
    and d2: "calm d2" "dirs d2 = dirs d" "rand_names d2 = rs" "find_file d2 = (find_file d)(?b \<mapsto> ?f, ?c \<mapsto> ?g)"
    using write_temp_calm [OF d1(1) _ d1(3), of dir g "checksum_name n" cs] d1 by (auto simp: calm_step_def)
  have np: "(dir, n) \<notin> temps dir" "(dir, checksum_name n) \<notin> temps dir" "n \<noteq> checksum_name n"
    using name_paths [OF n] by auto
  then have neq: "(dir, n) \<noteq> ?b" "(dir, n) \<noteq> ?c" "(dir, checksum_name n) \<noteq> ?b" "(dir, checksum_name n) \<noteq> ?c"
    using t by metis+
  have gone: "find_file d ?b = None" "find_file d ?c = None" using free t by blast+
  show ?thesis
    using d2 ne neq np(3) gone
    by (simp add: write_backup_pair_def Let_def bind_cmd_def m1 m2 on_error_def replace_file_def with_file_def
        calm_step_def find_put_fun find_del_fun) (auto simp: fun_eq_iff)
qed

section \<open>Listing, pruning and the manifest\<close>

lemma filter_cmd_calm:
  "(\<And>x. x \<in> set xs \<Longrightarrow> k x d = (Inr (A x), d)) \<Longrightarrow> filter_cmd k xs d = (Inr (filter A xs), d)"
  by (induction xs) (simp_all add: bind_cmd_def)

lemma list_backups_calm:
  assumes "calm d"
  shows "list_backups dir d = (Inr (listing dir (find_file d)), d)"
proof -
  have "sort (filter (\<lambda>n. find_file d (dir, checksum_name n) \<noteq> None) (filter is_backup_name (names_in dir d)))
      = listing dir (find_file d)"
    by (rule listing_eq) (simp_all add: distinct_names_in set_names_in)
  moreover have "filter_cmd (\<lambda>n. file_exists (dir, checksum_name n)) xs d
      = (Inr (filter (\<lambda>n. find_file d (dir, checksum_name n) \<noteq> None) xs), d)" for xs
    by (rule filter_cmd_calm) (simp add: file_exists_def assms)
  moreover have "listing dir (find_file d) = []" if "names_in dir d = []"
    using set_names_in [of dir d] that by (auto simp: listing_def complete_def)
  ultimately show ?thesis
    by (simp add: list_backups_def bind_cmd_def dir_exists_def list_dir_def assms)
qed

lemma get_latest_calm:
  "calm d \<Longrightarrow> get_latest_backup dir d =
     (Inr (if listing dir (find_file d) = [] then None else Some (dir, last (listing dir (find_file d)))), d)"
  by (simp add: get_latest_backup_def bind_cmd_def list_backups_calm)

lemma prune_loop_calm:
  "calm d \<Longrightarrow> \<exists>d'. for_each vs (\<lambda>n. bind_cmd (unlink_file (dir, checksum_name n)) (\<lambda>_. unlink_file (dir, n))) d
     = (Inr (), d') \<and> calm_step d d' \<and> rand_names d' = rand_names d
     \<and> find_file d' = without (pair_paths dir (set vs)) (find_file d)"
proof (induction vs arbitrary: d)
  case Nil
  then show ?case by (simp add: calm_step_def without_def pair_paths_def)
next
  case (Cons v vs)
  let ?d = "del_file (dir, v) (del_file (dir, checksum_name v) d)"
  have "calm ?d" using Cons.prems by simp
  from Cons.IH [OF this] obtain d' where
    run: "for_each vs (\<lambda>n. bind_cmd (unlink_file (dir, checksum_name n)) (\<lambda>_. unlink_file (dir, n))) ?d = (Inr (), d')"
    and st: "calm_step ?d d'" "rand_names d' = rand_names ?d"
    and d': "find_file d' = without (pair_paths dir (set vs)) (find_file ?d)" by blast
  have "find_file d' = without (pair_paths dir (set (v # vs))) (find_file d)"
    unfolding d' by (auto simp: fun_eq_iff without_def pair_paths_def)
  moreover have "for_each (v # vs) (\<lambda>n. bind_cmd (unlink_file (dir, checksum_name n)) (\<lambda>_. unlink_file (dir, n))) d
      = (Inr (), d')"
    using Cons.prems run by (simp add: bind_cmd_def unlink_file_def)
  moreover have "calm_step d d'" "rand_names d' = rand_names d" using st by (simp_all add: calm_step_def)
  ultimately show ?case by blast
qed

lemma prune_calm:
  assumes "calm d"
  shows "\<exists>d'. prune_backups dir r d = (Inr (), d') \<and> calm_step d d' \<and> rand_names d' = rand_names d
    \<and> find_file d' = without (pair_paths dir (set (superseded r (listing dir (find_file d))))) (find_file d)"
  using prune_loop_calm [OF assms, of "superseded r (listing dir (find_file d))" dir]
  by (simp add: prune_backups_def bind_cmd_def list_backups_calm assms)

lemma map_cmd_calm:
  "(\<And>x. x \<in> set xs \<Longrightarrow> \<exists>y. k x d = (Inr y, d)) \<Longrightarrow> \<exists>ys. map_cmd k xs d = (Inr ys, d)"
proof (induction xs)
  case (Cons x xs)
  then obtain y ys where "k x d = (Inr y, d)" "map_cmd k xs d = (Inr ys, d)" by fastforce
  then show ?case by (simp add: bind_cmd_def)
qed simp

text \<open>The checksums of all listed backups can be read as text.\<close>

definition checksums_readable :: "string \<Rightarrow> contents \<Rightarrow> bool" where
  "checksums_readable dir c \<longleftrightarrow> (\<forall>n g. is_backup_name n \<longrightarrow> c (dir, n) \<noteq> None \<longrightarrow>
     c (dir, checksum_name n) = Some g \<longrightarrow> (\<exists>t. ascii_text (f_data g) = Inr t))"

lemma good_backups_readable: "good_backups safe_load errors dir c \<Longrightarrow> checksums_readable dir c"
  unfolding checksums_readable_def
proof (intro allI impI)
  fix n g
  assume good: "good_backups safe_load errors dir c" and n: "is_backup_name n" "c (dir, n) \<noteq> None"
    "c (dir, checksum_name n) = Some g"
  then obtain f where "pair_ok f g" by (auto simp: good_backups_def)
  then show "\<exists>t. ascii_text (f_data g) = Inr t" by (auto simp: pair_ok_def split: sum.splits)
qed

lemma write_manifest_calm:
  assumes d: "calm d" "map_of (dirs d) dir = Some g" "rand_names d = r # rs"
    and free: "find_file d (temp_path dir manifest_name r) = None" and readable: "checksums_readable dir (find_file d)"
  shows "\<exists>d' bs. write_manifest dir now d = (Inr (), d') \<and> calm_step d d' \<and> rand_names d' = rs
    \<and> find_file d' = (find_file d)((dir, manifest_name) \<mapsto> \<lparr>f_data = bs, f_mode = 0x1A0, f_gid = g\<rparr>)"
proof -
  let ?k = "\<lambda>n. bind_cmd (read_ascii (dir, checksum_name n)) (\<lambda>t. ret (n, strip t))"
  let ?t = "temp_path dir manifest_name r"
  have "\<exists>ys. map_cmd ?k (listing dir (find_file d)) d = (Inr ys, d)"
  proof (rule map_cmd_calm)
    fix n
    assume "n \<in> set (listing dir (find_file d))"
    then have "n \<in> complete dir (find_file d)" by (simp add: listing_def finite_complete)
    then obtain h t where "find_file d (dir, checksum_name n) = Some h" "ascii_text (f_data h) = Inr t"
      using readable by (fastforce simp: complete_def checksums_readable_def)
    then show "\<exists>y. ?k n d = (Inr y, d)"
      using d(1) by (simp add: bind_cmd_def read_ascii_def read_file_def with_file_def)
  qed
  then obtain es where es: "map_cmd ?k (listing dir (find_file d)) d = (Inr es, d)" by blast
  from write_temp_calm [OF d free, of "ascii_bytes (manifest_text now es)"] obtain d1 where
    m: "write_temp_file (dir, manifest_name) (ascii_bytes (manifest_text now es)) d = (Inr ?t, d1)"
    and d1: "calm d1" "dirs d1 = dirs d" "rand_names d1 = rs"
    "find_file d1 = (find_file d)(?t \<mapsto> \<lparr>f_data = ascii_bytes (manifest_text now es), f_mode = 0x1A0, f_gid = g\<rparr>)"
    by (auto simp: calm_step_def)
  have "find_file d1 ?t = Some \<lparr>f_data = ascii_bytes (manifest_text now es), f_mode = 0x1A0, f_gid = g\<rparr>"
    using d1(4) by simp
  moreover have "(find_file d1)(?t := None) = find_file d" using d1(4) free by (auto simp: fun_eq_iff)
  ultimately show ?thesis
    unfolding write_manifest_def bind_cmd_Inr [where m = "list_backups dir", OF list_backups_calm [OF d(1)]]
      bind_cmd_Inr [where m = "map_cmd ?k (listing dir (find_file d))", OF es] bind_cmd_Inr [where m = "write_temp_file _ _", OF m]
    using d1 by (auto simp: on_error_def replace_file_def with_file_def calm_step_def find_put_fun find_del_fun)
qed

section \<open>The whole backup\<close>

text \<open>Nothing stands in the way of a backup: no left-over temporary file and readable checksums.\<close>

definition room_for_backup :: "string \<Rightarrow> disk \<Rightarrow> bool" where
  "room_for_backup dir d \<longleftrightarrow> calm d \<and> 3 \<le> length (rand_names d) \<and> CHR ''.'' \<notin> set (hd (rand_names d))
     \<and> (\<forall>p \<in> temps dir. find_file d p = None) \<and> checksums_readable dir (find_file d)"

lemma checksums_readable_mono:
  assumes "checksums_readable dir c"
    and "\<And>m. is_backup_name m \<Longrightarrow> c' (dir, m) = c (dir, m) \<or> c' (dir, m) = None"
    and "\<And>m. is_backup_name m \<Longrightarrow> c' (dir, checksum_name m) = c (dir, checksum_name m) \<or> c' (dir, checksum_name m) = None"
  shows "checksums_readable dir c'"
  unfolding checksums_readable_def
proof (intro allI impI)
  fix n g
  assume n: "is_backup_name n" and "c' (dir, n) \<noteq> None" and "c' (dir, checksum_name n) = Some g"
  then have "c (dir, n) \<noteq> None" "c (dir, checksum_name n) = Some g"
    using assms(2) [OF n] assms(3) [OF n] by auto
  then show "\<exists>t. ascii_text (f_data g) = Inr t" using assms(1) n unfolding checksums_readable_def by blast
qed

lemma digest_readable: "\<exists>t. ascii_text (ascii_bytes (hexdigest bs @ nl)) = Inr t"
  using pair_ok_fresh [of "\<lparr>f_data = ascii_bytes (hexdigest bs @ nl), f_mode = 0, f_gid = 0\<rparr>"
      "\<lparr>f_data = bs, f_mode = 0, f_gid = 0\<rparr>"]
  by (auto simp: pair_ok_def split: sum.splits)

lemma make_dir_calm:
  assumes "calm d"
  obtains d1 g where "make_dir dir d = (Inr (), d1)" and "calm d1" and "map_of (dirs d1) dir = Some g"
    and "rand_names d1 = rand_names d" and "find_file d1 = find_file d"
proof -
  let ?d = "if map_of (dirs d) dir = None then d\<lparr>dirs := (dir, proc_gid d) # dirs d\<rparr> else d"
  have "make_dir dir d = (Inr (), ?d)" "calm ?d" "rand_names ?d = rand_names d" "find_file ?d = find_file d"
    using assms by (simp_all add: make_dir_def)
  moreover have "\<exists>g. map_of (dirs ?d) dir = Some g" by auto
  ultimately show thesis using that by blast
qed

lemma create_calm:
  assumes room: "room_for_backup dir d" and config: "find_file d config = Some f"
    and valid: "valid_bytes safe_load errors (f_data f)" and r: "1 \<le> r"
  shows "\<exists>d'. create_backup safe_load errors config dir True now r d = (Inr (dir, backup_name now), d') \<and> calm d'"
proof -
  let ?n = "backup_name now" and ?cs = "ascii_bytes (hexdigest (f_data f) @ nl)"
  note n = is_backup_name_backup_name [of now]
  have d: "calm d" and free: "\<And>p. p \<in> temps dir \<Longrightarrow> find_file d p = None"
    and readable: "checksums_readable dir (find_file d)"
    using room by (auto simp: room_for_backup_def)
  obtain r1 r2 r3 rs where rands: "rand_names d = r1 # r2 # r3 # rs" and dot: "CHR ''.'' \<notin> set r1"
    using room by (auto simp: room_for_backup_def numeral_3_eq_3 Suc_le_length_iff)
  obtain t reason where t: "decode_utf8 (f_data f) = Inr t" "check_config_text safe_load errors t = Inr (True, reason)"
    using valid by (auto simp: valid_bytes_def)
  have read: "read_config config d = (Inr (f_data f, t), d)"
    using d config t(1) by (simp add: read_config_def catch_def bind_cmd_def read_file_def with_file_def)
  obtain d1 g where d1: "make_dir dir d = (Inr (), d1)" "calm d1" "map_of (dirs d1) dir = Some g"
    "rand_names d1 = rand_names d" "find_file d1 = find_file d"
    by (rule make_dir_calm [OF d])
  obtain d2 where pair: "write_backup_pair (dir, ?n) (f_data f) ?cs d1 = (Inr (), d2)"
    and d2: "calm d2" "dirs d2 = dirs d1" "rand_names d2 = r3 # rs" "find_file d2 = (find_file d)
        ((dir, checksum_name ?n) \<mapsto> \<lparr>f_data = ?cs, f_mode = 0x1A0, f_gid = g\<rparr>,
         (dir, ?n) \<mapsto> \<lparr>f_data = f_data f, f_mode = 0x1A0, f_gid = g\<rparr>)"
    using write_pair_calm [OF n d1(2,3), of r1 r2 "r3 # rs" "f_data f" ?cs] rands d1 free dot
    by (auto simp: calm_step_def)
  obtain d3 where prune: "prune_backups dir r d2 = (Inr (), d3)"
    and d3: "calm d3" "dirs d3 = dirs d2" "rand_names d3 = rand_names d2"
      "find_file d3 = without (pair_paths dir (set (superseded r (listing dir (find_file d2))))) (find_file d2)"
    using prune_calm [OF d2(1), of dir r] by (auto simp: calm_step_def)
  have "checksums_readable dir (find_file d2)"
    unfolding checksums_readable_def
  proof (intro allI impI)
    fix m g'
    assume m: "is_backup_name m" "find_file d2 (dir, m) \<noteq> None" "find_file d2 (dir, checksum_name m) = Some g'"
    show "\<exists>t. ascii_text (f_data g') = Inr t"
    proof (cases "m = ?n")
      case True
      then show ?thesis using m(3) d2(4) name_paths(5,6) [OF n] digest_readable by auto
    next
      case False
      then have "find_file d (dir, m) \<noteq> None" "find_file d (dir, checksum_name m) = Some g'"
        using m d2(4) name_paths(6) [OF n] name_paths(5) [OF m(1)] by auto
      then show ?thesis using readable m(1) unfolding checksums_readable_def by blast
    qed
  qed
  then have "checksums_readable dir (find_file d3)"
    by (rule checksums_readable_mono) (simp_all add: d3(4) without_def)
  moreover have "find_file d3 (temp_path dir manifest_name r3) = None"
    using temp_path_temps [of dir manifest_name r3] free name_paths(1,2) [OF n] d2(4) d3(4)
    by (auto simp: without_def)
  moreover have "map_of (dirs d3) dir = Some g" using d1(3) d2(2) d3(2) by simp
  ultimately obtain d4 where "write_manifest dir now d3 = (Inr (), d4)" "calm d4"
    using write_manifest_calm [OF d3(1), of dir g r3 rs] d2(3) d3(3) by (auto simp: calm_step_def)
  then have "create_backup safe_load errors config dir True now r d = (Inr (dir, ?n), d4)"
    using r read t(2) d1(1) pair prune
    by (simp add: create_backup_def bind_cmd_def Let_def)
  with \<open>calm d4\<close> show ?thesis by blast
qed

end
