(* ===== verification/BackupContract.thy ===== *)
theory BackupContract
  imports BackupProgress
begin

text \<open>
  The properties of the backups: what any number of calls, each with its own faults and perhaps its
  own death, leaves in the backup directory; what a call that returns has done; and that a
  backup can be read back.
\<close>

section \<open>Examples\<close>

definition demo_config :: path where
  "demo_config = (''/data/gateway'', ''gateway.yaml'')"

definition demo_dir :: string where
  "demo_dir = ''/data/backups''"

definition demo_disk :: disk where
  "demo_disk = \<lparr>files = [(demo_config, \<lparr>f_data = ascii_bytes ''good'', f_mode = 0x1B4, f_gid = 20\<rparr>)],
     dirs = [(''/data/gateway'', 20), (demo_dir, 30)], proc_gid = 10,
     rand_names = [''a'', ''b'', ''c'', ''e''], faults = [], dead = False\<rparr>"

lemma find_demo_disk: "find_file demo_disk p =
    (if p = demo_config then Some \<lparr>f_data = ascii_bytes ''good'', f_mode = 0x1B4, f_gid = 20\<rparr> else None)"
  by (auto simp: demo_disk_def find_file_def)

lemma demo_paths: "fst demo_config \<noteq> demo_dir" "(demo_dir, n) \<noteq> demo_config"
  by (simp_all add: demo_config_def demo_dir_def)

lemma demo_valid: "valid_bytes demo_load demo_errors (ascii_bytes ''good'')"
proof -
  have "decode_utf8 (ascii_bytes ''good'') = Inr (of_string ''good'')"
    by (simp add: decode_utf8_def ascii_bytes_def of_string_def)
  moreover have "check_config_text demo_load demo_errors (of_string ''good'') = Inr (True, ''ok'')"
    by (simp add: demo_evals demo_errors_def is_dict_def)
  ultimately show ?thesis by (auto simp: valid_bytes_def)
qed

lemma room_demo: "room_for_backup demo_dir demo_disk"
  by (auto simp: room_for_backup_def calm_def find_demo_disk temps_def checksums_readable_def demo_paths)
    (simp_all add: demo_disk_def demo_paths)

text \<open>The backup of the example.\<close>

definition demo_name :: string where
  "demo_name = backup_name noon"

lemma demo_name: "demo_name = ''gateway-20260704T120000.000000Z.yaml''"
  unfolding demo_name_def by code_simp

section \<open>One call\<close>

lemma create_backup_Inr:
  assumes "create_backup safe_load errors config dir healthy now r d = (Inr p, d')"
  shows "p = (dir, backup_name now) \<and> healthy \<and> 1 \<le> r \<and>
     (\<exists>f. find_file d config = Some f \<and> valid_bytes safe_load errors (f_data f)
        \<and> backup_finished dir (backup_name now) r now (f_data f) (find_file d) (find_file d'))"
  using tripleD_Inr [OF triple_create_backup refl assms] by blast

text \<open>Where any run of a call can leave the files.\<close>

lemma create_backup_stages:
  "find_file (snd (create_backup safe_load errors config dir healthy now r d)) = find_file d \<or>
   (\<exists>f. find_file d config = Some f \<and> valid_bytes safe_load errors (f_data f) \<and>
      backup_stages dir (backup_name now) r (f_data f) (find_file d)
        (find_file (snd (create_backup safe_load errors config dir healthy now r d))))"
proof (cases "create_backup safe_load errors config dir healthy now r d")
  case (Pair res d')
  show ?thesis
  proof (cases res)
    case (Inl e)
    with Pair tripleD_Inl [OF triple_create_backup refl, of safe_load errors config dir healthy now r d e d']
    show ?thesis by auto
  next
    case (Inr p)
    with Pair create_backup_Inr [of safe_load errors config dir healthy now r d p d']
    show ?thesis by (auto dest: backup_finished_stages)
  qed
qed

lemma create_backup_good:
  assumes "good_backups safe_load errors dir (find_file d)" and "find_file d (dir, backup_name now) = None"
  shows "good_backups safe_load errors dir
    (find_file (snd (create_backup safe_load errors config dir healthy now r d)))"
  using create_backup_stages [of safe_load errors config dir healthy now r d] assms
    good_backups_stages [OF assms(1) is_backup_name_backup_name assms(2)]
  by auto

lemma backup_stages_none:
  assumes n: "is_backup_name n" and m: "is_backup_name m" "m \<noteq> n" and st: "backup_stages dir n r bs c0 c"
    and none: "c0 (dir, m) = None"
  shows "c (dir, m) = None"
  using st unfolding backup_stages_def
proof
  assume "same_except (temps dir \<union> {(dir, checksum_name n)}) c0 c"
  then show ?thesis using none name_paths [OF m(1)] by (auto dest!: same_exceptD [of _ _ _ "(dir, m)"])
next
  assume "\<exists>c1 c2. pair_there dir n bs (ascii_bytes (hexdigest bs @ nl)) c0 c1
      \<and> between (pair_paths dir (set (superseded r (listing dir c1)))) c1 c2
      \<and> same_except (temps dir \<union> {(dir, manifest_name)}) c2 c"
  then obtain c1 c2 where there: "pair_there dir n bs (ascii_bytes (hexdigest bs @ nl)) c0 c1"
    and b: "between (pair_paths dir (set (superseded r (listing dir c1)))) c1 c2"
    and s: "same_except (temps dir \<union> {(dir, manifest_name)}) c2 c" by blast
  have "c1 (dir, m) = None" using pair_there_other(1) [OF there n m] none by simp
  then have "c2 (dir, m) = None" using betweenD [OF b, of "(dir, m)"] by auto
  then show ?thesis using same_exceptD [OF s, of "(dir, m)"] name_paths [OF m(1)] by auto
qed

lemma create_backup_none:
  assumes "is_backup_name m" and "m \<noteq> backup_name now" and "find_file d (dir, m) = None"
  shows "find_file (snd (create_backup safe_load errors config dir healthy now r d)) (dir, m) = None"
  using create_backup_stages [of safe_load errors config dir healthy now r d] assms(3)
    backup_stages_none [OF is_backup_name_backup_name assms(1,2)]
  by auto

lemma backup_stages_confined:
  assumes "backup_stages dir n r bs c0 c" and "fst p \<noteq> dir"
  shows "c p = c0 p"
proof -
  have out: "p \<notin> temps dir" "p \<noteq> (dir, m)" "p \<notin> pair_paths dir V" for m V
    using assms(2) by (auto simp: temps_def pair_paths_def)
  from assms(1) out show ?thesis
    unfolding backup_stages_def pair_there_def
    by (auto dest!: same_exceptD [of _ _ _ p] between_keeps [of _ _ _ p])
qed

lemma create_backup_confined:
  assumes "fst p \<noteq> dir"
  shows "find_file (snd (create_backup safe_load errors config dir healthy now r d)) p = find_file d p"
  using create_backup_stages [of safe_load errors config dir healthy now r d] backup_stages_confined [OF _ assms]
  by auto

text \<open>The manifest describes what is there, since writing it changes no pair.\<close>

lemma listing_names:
  assumes "n \<in> set (listing dir c)"
  shows "is_backup_name n"
proof (cases "finite (complete dir c)")
  case True
  with assms show ?thesis by (auto simp: listing_def dest: complete_names)
next
  case False
  with assms show ?thesis by (simp add: listing_def)
qed

lemma manifest_ok_same:
  assumes "same_except (temps dir \<union> {(dir, manifest_name)}) c2 c" and "manifest_ok dir now c2 m"
  shows "manifest_ok dir now c m"
proof -
  have "complete dir c = complete dir c2"
    by (rule complete_same [OF assms(1)]) (auto dest: name_paths)
  then have l: "listing dir c = listing dir c2" by (simp add: listing_def)
  have "c (dir, checksum_name n) = c2 (dir, checksum_name n)" if "n \<in> set (listing dir c2)" for n
    using listing_names [OF that] name_paths
    by (intro same_exceptD [OF assms(1)]) auto
  with assms(2) l show ?thesis
    unfolding manifest_ok_def by (auto elim!: list.rel_mono_strong)
qed

lemma backup_finished_manifest:
  "backup_finished dir n r now bs c0 c \<Longrightarrow>
   \<exists>m. c (dir, manifest_name) = Some m \<and> manifest_ok dir now c m"
  unfolding backup_finished_def using manifest_ok_same by blast

lemma backup_finished_verified:
  assumes n: "is_backup_name n" and finished: "backup_finished dir n r now bs c0 c" and "n \<in> complete dir c"
  shows "verified c (dir, n)"
proof -
  from finished obtain c1 c2 where there: "pair_there dir n bs (ascii_bytes (hexdigest bs @ nl)) c0 c1"
    and c2: "c2 = without (pair_paths dir (set (superseded r (listing dir c1)))) c1"
    and s: "same_except (temps dir \<union> {(dir, manifest_name)}) c2 c"
    unfolding backup_finished_def by blast
  have "c (dir, n) = c2 (dir, n)" "c (dir, checksum_name n) = c2 (dir, checksum_name n)"
    using name_paths [OF n] by (auto intro!: same_exceptD [OF s])
  then have "c (dir, n) = c1 (dir, n)" "c (dir, checksum_name n) = c1 (dir, checksum_name n)"
    using assms(3) by (auto simp: c2 without_def complete_def split: if_splits)
  with there obtain f g where "c (dir, n) = Some f" "c (dir, checksum_name n) = Some g"
    "f_data f = bs" "f_data g = ascii_bytes (hexdigest bs @ nl)" by (auto simp: pair_there_def)
  then show ?thesis by (auto simp: verified_def pair_ok_fresh)
qed

section \<open>Any number of calls\<close>

text \<open>
  A call of the history: the operator's edit of the configuration before it (\<open>None\<close> removes the
  file), its arguments, the faults it meets and its random names. A new process takes over when the
  last one died.
\<close>

record backup_call =
  bc_edit :: "inode option"
  bc_healthy :: bool
  bc_now :: datetime
  bc_retention :: int
  bc_faults :: "fault list"
  bc_rands :: "string list"

definition before_call :: "path \<Rightarrow> backup_call \<Rightarrow> disk \<Rightarrow> disk" where
  "before_call config c d =
     (case bc_edit c of None \<Rightarrow> del_file config d | Some f \<Rightarrow> put_file config f d)
       \<lparr>faults := bc_faults c, rand_names := bc_rands c, dead := False\<rparr>"

fun backup_calls ::
    "yaml_loader \<Rightarrow> validator \<Rightarrow> path \<Rightarrow> string \<Rightarrow> backup_call list \<Rightarrow> disk \<Rightarrow> disk" where
  "backup_calls safe_load errors config dir [] d = d"
| "backup_calls safe_load errors config dir (c # cs) d =
     backup_calls safe_load errors config dir cs
       (snd (create_backup safe_load errors config dir (bc_healthy c) (bc_now c) (bc_retention c)
          (before_call config c d)))"

lemma find_before_call: "p \<noteq> config \<Longrightarrow> find_file (before_call config c d) p = find_file d p"
  by (simp add: before_call_def split: option.split)

lemma good_before_call:
  assumes "fst config \<noteq> dir"
  shows "good_backups safe_load errors dir (find_file (before_call config c d))
    = good_backups safe_load errors dir (find_file d)"
proof -
  have "find_file (before_call config c d) (dir, n) = find_file d (dir, n)" for n
    by (rule find_before_call) (use assms in auto)
  then show ?thesis by (simp add: good_backups_def)
qed

lemma backup_calls_good:
  assumes "fst config \<noteq> dir" and "good_backups safe_load errors dir (find_file d)"
    and "distinct (map (\<lambda>c. backup_name (bc_now c)) cs)"
    and "\<forall>c \<in> set cs. find_file d (dir, backup_name (bc_now c)) = None"
  shows "good_backups safe_load errors dir (find_file (backup_calls safe_load errors config dir cs d))"
  using assms(2-)
proof (induction cs arbitrary: d)
  case (Cons c cs)
  let ?d = "before_call config c d"
  let ?d' = "snd (create_backup safe_load errors config dir (bc_healthy c) (bc_now c) (bc_retention c) ?d)"
  have same: "find_file ?d (dir, n) = find_file d (dir, n)" for n
    by (rule find_before_call) (use assms(1) in auto)
  have "good_backups safe_load errors dir (find_file ?d')"
    using Cons.prems same by (intro create_backup_good) (simp_all add: good_before_call [OF assms(1)])
  moreover have "find_file ?d' (dir, backup_name (bc_now b)) = None" if "b \<in> set cs" for b
    using Cons.prems that same
    by (intro create_backup_none is_backup_name_backup_name) (auto simp: image_iff)
  ultimately show ?case using Cons.IH [of ?d'] Cons.prems(2) by simp
qed simp

text \<open>
  C9. The backups can always be trusted: whatever sequence of calls is made, with whatever
  configuration in place, whatever call fails and wherever the process dies, every backup that is
  then listed has a matching checksum and holds the bytes of a configuration the controller accepts.
  No two calls share a time stamp, and none has the time stamp of an old backup.
\<close>

theorem listed_backups_are_valid:
  assumes "fst config \<noteq> dir" and "good_backups safe_load errors dir (find_file d)"
    and "distinct (map (\<lambda>c. backup_name (bc_now c)) cs)"
    and "\<forall>c \<in> set cs. find_file d (dir, backup_name (bc_now c)) = None"
    and "n \<in> complete dir (find_file (backup_calls safe_load errors config dir cs d))"
  shows "verified (find_file (backup_calls safe_load errors config dir cs d)) (dir, n)
    \<and> (\<exists>f. find_file (backup_calls safe_load errors config dir cs d) (dir, n) = Some f
         \<and> valid_bytes safe_load errors (f_data f))"
  using backup_calls_good [OF assms(1-4)] assms(5)
  by (auto simp: good_backups_def complete_def verified_def)

definition demo_call :: "datetime \<Rightarrow> fault list \<Rightarrow> backup_call" where
  "demo_call t fs = \<lparr>bc_edit = Some \<lparr>f_data = ascii_bytes ''good'', f_mode = 0x1B4, f_gid = 20\<rparr>,
     bc_healthy = True, bc_now = t, bc_retention = 2, bc_faults = fs, bc_rands = [''a'', ''b'', ''c'']\<rparr>"

lemma demo_call_returns:
  "\<exists>d'. create_backup demo_load demo_errors demo_config demo_dir True noon 2
     (before_call demo_config (demo_call noon []) demo_disk) = (Inr (demo_dir, demo_name), d') \<and> calm d'"
proof -
  let ?d = "before_call demo_config (demo_call noon []) demo_disk"
  have find: "find_file ?d = find_file demo_disk"
    by (auto simp: before_call_def demo_call_def find_demo_disk)
  have "room_for_backup demo_dir ?d"
    using room_demo unfolding room_for_backup_def find
    by (simp add: before_call_def demo_call_def calm_def)
  moreover have "find_file ?d demo_config = Some \<lparr>f_data = ascii_bytes ''good'', f_mode = 0x1B4, f_gid = 20\<rparr>"
    unfolding find by (simp add: find_demo_disk)
  ultimately show ?thesis
    using create_calm [of demo_dir ?d demo_config _ demo_load demo_errors 2 noon] demo_valid
    by (simp add: demo_name_def)
qed

lemma first_backup:
  assumes run: "create_backup safe_load errors config dir healthy now r d = (Inr p, d')"
    and none: "complete dir (find_file d) = {}"
  shows "listing dir (find_file d') = [backup_name now] \<and> complete dir (find_file d') = {backup_name now}"
proof -
  from create_backup_Inr [OF run] obtain f :: inode where r: "1 \<le> r"
    and finished: "backup_finished dir (backup_name now) r now (f_data f) (find_file d) (find_file d')" by auto
  have "newest r (sorted_list_of_set (insert (backup_name now) (complete dir (find_file d)))) = [backup_name now]"
    using none r by (simp add: newest_def)
  with backup_finished_listing(1) [OF is_backup_name_backup_name finite_complete finished]
  have l: "listing dir (find_file d') = [backup_name now]" by simp
  then have "set (listing dir (find_file d')) = {backup_name now}" by simp
  then have "complete dir (find_file d') = {backup_name now}"
    unfolding listing_def by (simp only: set_sorted_list_of_set [OF finite_complete])
  with l show ?thesis by simp
qed

theorem listed_backups_are_valid_witness:
  "verified (find_file (backup_calls demo_load demo_errors demo_config demo_dir [demo_call noon []] demo_disk))
     (demo_dir, demo_name)"
proof -
  let ?d = "before_call demo_config (demo_call noon []) demo_disk"
  let ?d' = "backup_calls demo_load demo_errors demo_config demo_dir [demo_call noon []] demo_disk"
  have find: "find_file ?d = find_file demo_disk"
    by (auto simp: before_call_def demo_call_def find_demo_disk)
  obtain d' where d': "create_backup demo_load demo_errors demo_config demo_dir True noon 2 ?d
      = (Inr (demo_dir, demo_name), d')" using demo_call_returns by blast
  then have eq: "?d' = d'" by (simp add: demo_call_def)
  have none: "complete demo_dir (find_file ?d) = {}"
    by (auto simp: complete_def find find_demo_disk demo_paths)
  from first_backup [OF d' none] have "demo_name \<in> complete demo_dir (find_file d')"
    by (simp add: demo_name_def)
  then have "demo_name \<in> complete demo_dir (find_file ?d')" by (simp only: eq)
  moreover have "good_backups demo_load demo_errors demo_dir (find_file demo_disk)"
    by (auto simp: good_backups_def find_demo_disk demo_paths)
  ultimately show ?thesis
    using listed_backups_are_valid [of demo_config demo_dir demo_load demo_errors demo_disk "[demo_call noon []]" demo_name]
    by (simp add: find_demo_disk demo_paths demo_call_def)
qed


text \<open>
  C37. What a call that returns has done: the gateway was healthy, the configuration was valid, the
  path returned is the one of the time stamp, the backups listed are exactly the newest of the old
  ones and the new one, as many as the retention count, the old ones among them unchanged, the new
  one a copy of the configuration if it is among them, and the manifest describes the listing.
\<close>

theorem create_backup_result:
  assumes "create_backup safe_load errors config dir healthy now r d = (Inr p, d')"
  shows "p = (dir, backup_name now) \<and> healthy \<and> 1 \<le> r
    \<and> listing dir (find_file d') = newest r (sorted_list_of_set (insert (backup_name now) (complete dir (find_file d))))
    \<and> length (listing dir (find_file d')) = min (nat r) (card (insert (backup_name now) (complete dir (find_file d))))
    \<and> (\<exists>f. find_file d config = Some f \<and> valid_bytes safe_load errors (f_data f) \<and>
         (backup_name now \<in> set (listing dir (find_file d')) \<longrightarrow>
           (\<exists>g. find_file d' p = Some g \<and> f_data g = f_data f)))
    \<and> (\<exists>m. find_file d' (dir, manifest_name) = Some m \<and> manifest_ok dir now (find_file d') m)"
proof -
  let ?n = "backup_name now"
  from create_backup_Inr [OF assms] obtain f where p: "p = (dir, ?n)" "healthy" "1 \<le> r"
    and f: "find_file d config = Some f" "valid_bytes safe_load errors (f_data f)"
    and finished: "backup_finished dir ?n r now (f_data f) (find_file d) (find_file d')" by blast
  note l = backup_finished_listing [OF is_backup_name_backup_name finite_complete finished]
  have "length (listing dir (find_file d')) = min (nat r) (card (insert ?n (complete dir (find_file d))))"
    unfolding l(1) length_newest by simp
  moreover have "\<exists>m. find_file d' (dir, manifest_name) = Some m \<and> manifest_ok dir now (find_file d') m"
    by (rule backup_finished_manifest [OF finished])
  ultimately show ?thesis using p f l(1,3) by auto
qed

section \<open>Reading a backup back\<close>

lemma last_newest:
  assumes fin: "finite C" and r: "1 \<le> r" and newer: "\<forall>m \<in> C. m < n"
  shows "newest r (sorted_list_of_set (insert n C)) \<noteq> []
    \<and> last (newest r (sorted_list_of_set (insert n C))) = n"
proof -
  let ?l = "sorted_list_of_set C"
  have "n \<notin> C" using newer by auto
  moreover have "sorted (?l @ [n])" using newer fin by (auto simp: sorted_append less_imp_le)
  moreover have "distinct (?l @ [n])" "set (?l @ [n]) = insert n C" using fin \<open>n \<notin> C\<close> by auto
  ultimately have "sorted_list_of_set (insert n C) = ?l @ [n]"
    by (metis sorted_list_of_set.idem_if_sorted_distinct)
  then show ?thesis using r by (simp add: newest_def last_drop)
qed

text \<open>
  A backup can be read back: without faults, from a valid configuration and with no older
  time stamp to come, \<^verbatim>\<open>create_backup\<close> returns, the path it returns is the latest backup from then on, it
  passes the check, and it holds exactly the bytes of the configuration.
\<close>

theorem backup_round_trip:
  assumes "room_for_backup dir d" and "find_file d config = Some f" and "valid_bytes safe_load errors (f_data f)"
    and "1 \<le> r" and "\<forall>m \<in> complete dir (find_file d). m < backup_name now"
  shows "\<exists>d'. create_backup safe_load errors config dir True now r d = (Inr (dir, backup_name now), d')
    \<and> get_latest_backup dir d' = (Inr (Some (dir, backup_name now)), d')
    \<and> verify_backup (dir, backup_name now) d' = (Inr True, d')
    \<and> read_file (dir, backup_name now) d' = (Inr (f_data f), d')"
proof -
  let ?n = "backup_name now"
  obtain d' where run: "create_backup safe_load errors config dir True now r d = (Inr (dir, ?n), d')"
    and calm: "calm d'" using create_calm [OF assms(1-4)] by blast
  from create_backup_Inr [OF run] assms(2) have
    finished: "backup_finished dir ?n r now (f_data f) (find_file d) (find_file d')" by auto
  note l = backup_finished_listing [OF is_backup_name_backup_name finite_complete finished]
  have ne: "listing dir (find_file d') \<noteq> []" "last (listing dir (find_file d')) = ?n"
    using last_newest [OF finite_complete assms(4,5)] l(1) by auto
  then have n: "?n \<in> set (listing dir (find_file d'))" by (metis last_in_set)
  obtain g where g: "find_file d' (dir, ?n) = Some g" "f_data g = f_data f" using l(1,3) n by auto
  have "verified (find_file d') (dir, ?n)"
    using backup_finished_verified [OF is_backup_name_backup_name finished] n
    by (simp add: listing_def finite_complete)
  then show ?thesis
    using run calm ne g
    by (intro exI [of _ d']) (simp add: get_latest_calm verify_backup_calm read_file_def with_file_def)
qed

theorem backup_round_trip_witness:
  "\<exists>d'. create_backup demo_load demo_errors demo_config demo_dir True noon 2 demo_disk = (Inr (demo_dir, demo_name), d')
    \<and> verify_backup (demo_dir, demo_name) d' = (Inr True, d')
    \<and> read_file (demo_dir, demo_name) d' = (Inr (ascii_bytes ''good''), d')"
proof -
  have "complete demo_dir (find_file demo_disk) = {}"
    by (auto simp: complete_def find_demo_disk demo_paths)
  then show ?thesis
    using backup_round_trip [OF room_demo, of demo_config _ demo_load demo_errors 2 noon] demo_valid
    by (auto simp: find_demo_disk demo_name_def)
qed

text \<open>
  The names are in the order of the times: for time stamps from the year 1000 on, the names compare
  as texts exactly as the time stamps do field by field, and different time stamps have different names,
  so the latest name is the latest backup.
\<close>

theorem names_in_time_order:
  assumes "datetime_ok t" and "datetime_ok u" and "1000 \<le> dt_year t" and "1000 \<le> dt_year u"
  shows "(backup_name t < backup_name u \<longleftrightarrow> dt_key t < dt_key u) \<and> (backup_name t = backup_name u \<longleftrightarrow> t = u)"
proof -
  note lt = backup_name_less [OF assms] backup_name_less [OF assms(2,1,4,3)]
  have "t = u" if "dt_key t = dt_key u"
    using that by (cases t; cases u) (simp add: dt_key_def)
  with lt show ?thesis by (metis linorder_less_linear order_less_irrefl)
qed

theorem names_in_time_order_witness:
  "backup_name noon < backup_name (noon\<lparr>dt_micro := 1\<rparr>)"
proof -
  have "datetime_ok noon" "datetime_ok (noon\<lparr>dt_micro := 1\<rparr>)" "1000 \<le> dt_year noon"
    by (simp_all add: datetime_ok_def noon_def)
  with names_in_time_order [of noon "noon\<lparr>dt_micro := 1\<rparr>"] show ?thesis
    by (simp add: dt_key_def noon_def)
qed

lemma later_fit:
  fixes l :: "'a :: linorder list"
  assumes "sorted l" and "n \<in> set (drop k l)" and "V \<subseteq> set l" and "\<forall>m \<in> V. n < m"
  shows "card V < length (drop k l)"
proof -
  obtain a b where ab: "drop k l = a @ n # b" using assms(2) by (meson split_list)
  then have l: "l = (take k l @ a) @ n # b" by (metis append_assoc append_take_drop_id)
  with assms(1) have le: "\<forall>x \<in> set (take k l @ a). x \<le> n" by (metis list.set_intros(1) sorted_append)
  have "V \<subseteq> set b"
  proof
    fix m
    assume m: "m \<in> V"
    then have "m \<in> set ((take k l @ a) @ n # b)" using assms(3) l by auto
    moreover have "n < m" using assms(4) m by blast
    ultimately consider "m \<in> set (take k l @ a)" | "m = n" | "m \<in> set b" by auto
    then show "m \<in> set b"
    proof cases
      case 1
      then have "m \<le> n" using le by blast
      with \<open>n < m\<close> show ?thesis by simp
    qed (use \<open>n < m\<close> in auto)
  qed
  then have "card V \<le> length b" by (meson card_length card_mono finite_set order_trans)
  then show ?thesis by (simp add: ab)
qed

text \<open>
  A clock that steps back loses the new backup: when as many backups as the retention count are
  listed under later time stamps, a call that returns has pruned the backup it just made, and the
  path it returns names no file.
\<close>

theorem clock_step_back_loses_backup:
  assumes "create_backup safe_load errors config dir healthy now r d = (Inr p, d')"
    and "V \<subseteq> complete dir (find_file d)" and "nat r \<le> card V" and "\<forall>m \<in> V. backup_name now < m"
  shows "p = (dir, backup_name now) \<and> find_file d' p = None"
proof -
  let ?n = "backup_name now" and ?C = "insert (backup_name now) (complete dir (find_file d))"
  from create_backup_Inr [OF assms(1)] obtain f :: inode where p: "p = (dir, ?n)"
    and finished: "backup_finished dir ?n r now (f_data f) (find_file d) (find_file d')" by auto
  have fin: "finite ?C" using finite_complete by simp
  have "?n \<notin> set (newest r (sorted_list_of_set ?C))"
  proof
    assume "?n \<in> set (newest r (sorted_list_of_set ?C))"
    moreover have "V \<subseteq> set (sorted_list_of_set ?C)"
      using assms(2) unfolding set_sorted_list_of_set [OF fin] by blast
    ultimately have "card V < length (newest r (sorted_list_of_set ?C))"
      unfolding newest_def using later_fit [OF sorted_sorted_list_of_set _ _ assms(4)] by blast
    then show False using assms(3) by (simp only: length_newest)
  qed
  with backup_finished_listing(4) [OF is_backup_name_backup_name finite_complete finished] p show ?thesis by simp
qed

text \<open>A disk with a backup from later in the year.\<close>

definition later_name :: string where
  "later_name = ''gateway-20261224T000000.000000Z.yaml''"

definition later_disk :: disk where
  "later_disk = put_file (demo_dir, checksum_name later_name) \<lparr>f_data = ascii_bytes ''x'', f_mode = 0x1A0, f_gid = 30\<rparr>
     (put_file (demo_dir, later_name) \<lparr>f_data = ascii_bytes ''x'', f_mode = 0x1A0, f_gid = 30\<rparr> demo_disk)"

lemma later_name: "is_backup_name later_name" "backup_name noon < later_name"
  by (simp_all add: later_name_def is_backup_name_def startswith_def demo_name [unfolded demo_name_def])

lemma later_newest:
  "newest 1 (sorted_list_of_set (insert (backup_name noon) (complete demo_dir (find_file later_disk)))) = [later_name]"
proof -
  have "find_file later_disk (demo_dir, n) \<noteq> None \<longleftrightarrow> n = later_name \<or> n = checksum_name later_name" for n
    by (simp add: later_disk_def find_demo_disk demo_paths)
  then have "complete demo_dir (find_file later_disk) = {later_name}"
    using later_name(1) by (auto simp only: complete_def dest: backup_not_checksum)
  then have C: "insert (backup_name noon) (complete demo_dir (find_file later_disk)) = set [backup_name noon, later_name]"
    by simp
  have "sorted_list_of_set (set [backup_name noon, later_name]) = [backup_name noon, later_name]"
    using later_name(2) by (intro sorted_list_of_set.idem_if_sorted_distinct) (simp_all add: less_imp_le)
  then show ?thesis unfolding C by (simp add: newest_def)
qed

lemma later_run:
  "\<exists>d'. create_backup demo_load demo_errors demo_config demo_dir True noon 1 later_disk
     = (Inr (demo_dir, demo_name), d') \<and> calm d'"
proof -
  have "ascii_text (ascii_bytes ''x'') = Inr ''x''" by (rule ascii_text_bytes) auto
  then have "checksums_readable demo_dir (find_file later_disk)"
    by (auto simp: checksums_readable_def later_disk_def find_demo_disk demo_paths)
  then have "room_for_backup demo_dir later_disk"
    using room_demo name_paths(1,2) [OF later_name(1)]
    by (auto simp: room_for_backup_def later_disk_def)
  moreover have "find_file later_disk demo_config = find_file demo_disk demo_config"
    by (simp add: later_disk_def demo_paths [symmetric])
  ultimately show ?thesis
    using create_calm [of demo_dir later_disk demo_config _ demo_load demo_errors 1 noon] demo_valid
    by (simp add: find_demo_disk demo_name_def)
qed

theorem clock_step_back_loses_backup_witness:
  "\<exists>d'. create_backup demo_load demo_errors demo_config demo_dir True noon 1 later_disk
     = (Inr (demo_dir, demo_name), d') \<and> find_file d' (demo_dir, demo_name) = None"
proof -
  obtain d' where run: "create_backup demo_load demo_errors demo_config demo_dir True noon 1 later_disk
     = (Inr (demo_dir, demo_name), d')" using later_run by blast
  have "later_name \<in> complete demo_dir (find_file later_disk)"
    using later_name(1) by (simp add: complete_def later_disk_def)
  with clock_step_back_loses_backup [OF run, of "{later_name}"] run later_name(2) show ?thesis by simp
qed

theorem create_backup_result_witness:
  "\<exists>d'. create_backup demo_load demo_errors demo_config demo_dir True noon 1 later_disk
       = (Inr (demo_dir, demo_name), d') \<and> listing demo_dir (find_file d') = [later_name]"
proof -
  obtain d' where run: "create_backup demo_load demo_errors demo_config demo_dir True noon 1 later_disk
     = (Inr (demo_dir, demo_name), d')" using later_run by blast
  with create_backup_result [OF run] later_newest show ?thesis by simp
qed


section \<open>When a backup is refused\<close>

text \<open>
  C38. Every answer of the operation: when there is room for a backup and no call of the system fails,
  \<^verbatim>\<open>create_backup\<close> returns exactly for a healthy gateway, a positive retention count and a
  configuration that is there, decodes and is valid; every other case has the exception the source
  names for it, an exception of the YAML loader passes through, and no file has changed then.
\<close>

theorem create_backup_answers:
  assumes "room_for_backup dir d"
  shows "fst (create_backup safe_load errors config dir healthy now r d) =
     (if \<not> healthy then Inl (BackupStateError ''backup requires a verified healthy gateway state'')
      else if r < 1 then Inl (ValueError ''retention_count must be at least 1'')
      else case find_file d config of
             None \<Rightarrow> Inl (BackupValidationError ''source_config_unreadable'')
           | Some f \<Rightarrow>
               (case decode_utf8 (f_data f) of
                  Inl e \<Rightarrow> Inl (BackupValidationError ''source_config_unreadable'')
                | Inr t \<Rightarrow>
                    (case check_config_text safe_load errors t of
                       Inl e \<Rightarrow> Inl e
                     | Inr (valid, reason) \<Rightarrow>
                         if valid then Inr (dir, backup_name now) else Inl (BackupValidationError reason))))
    \<and> ((\<exists>e. fst (create_backup safe_load errors config dir healthy now r d) = Inl e)
       \<longrightarrow> snd (create_backup safe_load errors config dir healthy now r d) = d)"
proof -
  have calm: "calm d" using assms by (simp add: room_for_backup_def)
  show ?thesis
  proof (cases "healthy \<and> 1 \<le> r \<and> (\<exists>f. find_file d config = Some f \<and> valid_bytes safe_load errors (f_data f))")
    case True
    then obtain f where f: "find_file d config = Some f" "valid_bytes safe_load errors (f_data f)" by blast
    moreover obtain t reason where "decode_utf8 (f_data f) = Inr t" "check_config_text safe_load errors t = Inr (True, reason)"
      using f(2) by (auto simp: valid_bytes_def)
    moreover obtain d' where "create_backup safe_load errors config dir True now r d = (Inr (dir, backup_name now), d')"
      using create_calm [OF assms f] True by blast
    ultimately show ?thesis using True by simp
  next
    case False
    have "read_config config d = (case find_file d config of
        None \<Rightarrow> (Inl (BackupValidationError ''source_config_unreadable''), d)
      | Some f \<Rightarrow> (case decode_utf8 (f_data f) of
            Inl e \<Rightarrow> (Inl (BackupValidationError ''source_config_unreadable''), d)
          | Inr t \<Rightarrow> (Inr (f_data f, t), d)))"
      using calm by (auto simp: read_config_def catch_def bind_cmd_def read_file_def with_file_def decode_utf8_def
          split: option.split sum.split)
    with False show ?thesis
      by (auto simp: create_backup_def bind_cmd_def valid_bytes_def split: option.split sum.split)
  qed
qed

theorem create_backup_answers_witness:
  "fst (create_backup demo_load demo_errors demo_config demo_dir False noon 1 demo_disk)
     = Inl (BackupStateError ''backup requires a verified healthy gateway state'')"
  using create_backup_answers [OF room_demo, of demo_load demo_errors demo_config False noon 1] by simp

section \<open>The interface to the recovery\<close>

text \<open>
  What a user of the backups relies on: both queries leave the files alone, the latest backup of
  trusted files is a file of the directory whose bytes are accepted, and only a backup that is there is confirmed.
\<close>

locale trusted_backups =
  fixes latest :: "(disk, path option) cmd"
    and verify :: "path \<Rightarrow> (disk, bool) cmd"
    and dir :: string
    and trusted :: "contents \<Rightarrow> bool"
    and accepted :: "byte list \<Rightarrow> bool"
  assumes latest: "triple (\<lambda>c. c = cc) latest
      (\<lambda>p c. c = cc \<and> (\<forall>q. trusted cc \<longrightarrow> p = Some q \<longrightarrow> fst q = dir \<and> (\<exists>f. cc q = Some f \<and> accepted (f_data f))))
      (\<lambda>c. c = cc)"
    and verify: "triple (\<lambda>c. c = cc) (verify p) (\<lambda>b c. c = cc \<and> (b \<longrightarrow> cc p \<noteq> None)) (\<lambda>c. c = cc)"
    and trusted_cong: "(\<And>n. c (dir, n) = c' (dir, n)) \<Longrightarrow> trusted c = trusted c'"

interpretation backups: trusted_backups "get_latest_backup dir" verify_backup dir
    "good_backups safe_load errors dir" "valid_bytes safe_load errors" for dir safe_load errors
proof unfold_locales
  fix cc
  have accepted: "\<exists>f. cc (dir, last (listing dir cc)) = Some f \<and> valid_bytes safe_load errors (f_data f)"
    if "good_backups safe_load errors dir cc" "listing dir cc \<noteq> []" "set (listing dir cc) = complete dir cc"
  proof -
    have "last (listing dir cc) \<in> complete dir cc" using that(2,3) last_in_set by blast
    with that(1) show ?thesis by (auto simp: complete_def good_backups_def)
  qed
  show "triple (\<lambda>c. c = cc) (get_latest_backup dir)
      (\<lambda>p c. c = cc \<and> (\<forall>q. good_backups safe_load errors dir cc \<longrightarrow> p = Some q \<longrightarrow>
         fst q = dir \<and> (\<exists>f. cc q = Some f \<and> valid_bytes safe_load errors (f_data f)))) (\<lambda>c. c = cc)"
    by (rule triple_conseq [OF get_latest_triple]) (auto dest: accepted)
next
  show "triple (\<lambda>c. c = cc) (verify_backup p) (\<lambda>b c. c = cc \<and> (b \<longrightarrow> cc p \<noteq> None)) (\<lambda>c. c = cc)" for cc p
    by (rule triple_conseq [OF triple_verify]) (auto simp: verified_def)
next
  show "good_backups safe_load errors dir c = good_backups safe_load errors dir c'"
    if "\<And>n. c (dir, n) = c' (dir, n)" for c c'
    using that by (simp add: good_backups_def)
qed

end
