(* ===== verification/JsonTexts.thy ===== *)
theory JsonTexts
  imports Json Deploy BackupContract
begin

text \<open>
  The JSON texts the sources print, against the reader of \<open>Json\<close>: the log lines of the components, the evidence of a
  deployment, the manifest of the backups. Each printer prints a text of its value, so what a call has written can be
  read back, and a log line is one line whatever the event says.
\<close>

section \<open>Printers\<close>

text \<open>\<^verbatim>\<open>sort_keys=True\<close> sorts the items of every object, at every depth.\<close>

fun sort_keys :: "jval \<Rightarrow> jval" where
  "sort_keys (JList vs) = JList (map sort_keys vs)"
| "sort_keys (JDict kvs) = JDict (sort_key fst (map (\<lambda>kv. (fst kv, sort_keys (snd kv))) kvs))"
| "sort_keys v = v"

text \<open>\<^verbatim>\<open>json.dumps(value, separators=(",", ":"))\<close>; \<open>repr\<close> is the text Python prints for a floating-point number.\<close>

fun json_compact :: "(real \<Rightarrow> string) \<Rightarrow> jval \<Rightarrow> string" where
  "json_compact repr JNull = ''null''"
| "json_compact repr (JBool b) = (if b then ''true'' else ''false'')"
| "json_compact repr (JInt n) = show_int n"
| "json_compact repr (JReal x) = repr x"
| "json_compact repr (JStr s) = json_string s"
| "json_compact repr (JList vs) = ''['' @ join '','' (map (json_compact repr) vs) @ '']''"
| "json_compact repr (JDict kvs) =
     ''{'' @ join '','' (map (\<lambda>kv. json_string (fst kv) @ '':'' @ json_compact repr (snd kv)) kvs) @ ''}''"

text \<open>The line a component prints for an event, and the one of the health monitor's logger in the controller.\<close>

definition log_line :: "(real \<Rightarrow> string) \<Rightarrow> log_event \<Rightarrow> string" where
  "log_line repr event = json_compact repr (sort_keys (JDict event)) @ nl"

definition monitor_line :: "(real \<Rightarrow> string) \<Rightarrow> log_event \<Rightarrow> string" where
  "monitor_line repr event = json_compact repr (JDict event) @ nl"

fun no_reals :: "jval \<Rightarrow> bool" where
  "no_reals (JReal x) = False"
| "no_reals (JList vs) = (\<forall>v \<in> set vs. no_reals v)"
| "no_reals (JDict kvs) = (\<forall>kv \<in> set kvs. no_reals (snd kv))"
| "no_reals v = True"

lemma no_reals_sort_keys [simp]: "no_reals (sort_keys v) = no_reals v"
  by (induction v rule: sort_keys.induct) auto

section \<open>Every printer prints a text of its value\<close>

lemma json_items_blanks:
  assumes "json_items vs u" and w: "blanks w"
  shows "json_items vs (w @ u)"
  using assms(1)
  by (rule json_items.cases)
    (use w no_items [of "w @ u"] one_item [of "w @ a" for a] more_items [of "w @ a" for a] in \<open>simp; blast\<close>)+

lemma json_members_blanks:
  assumes "json_members kvs u" and w: "blanks w"
  shows "json_members kvs (w @ u)"
  using assms(1)
  by (rule json_members.cases)
    (use w no_members [of "w @ u"] one_member [of "w @ a" for a] more_members [of "w @ a" for a] in \<open>simp; blast\<close>)+

lemma join_Cons: "xs \<noteq> [] \<Longrightarrow> join sep (x # xs) = x @ sep @ join sep xs"
  by (cases xs) simp_all

text \<open>
  Items joined by a comma: \<open>xs\<close> are the things printed, \<open>val\<close> their values and \<open>txt\<close> their texts, with white space
  \<open>a\<close> before each, \<open>w\<close> after a comma and \<open>b\<close> at the end.
\<close>

lemma json_items_join:
  assumes "blanks a" "blanks b" "blanks w"
  shows "xs \<noteq> [] \<Longrightarrow> \<forall>x \<in> set xs. json_text (val x) (txt x)
    \<Longrightarrow> json_items (map val xs) (join ('','' @ w) (map (\<lambda>x. a @ txt x) xs) @ b)"
proof (induction xs rule: list_nonempty_induct)
  case (single x)
  then show ?case using one_item [of a "val x" "txt x" b] assms by simp
next
  case (cons x xs)
  have "json_items (map val xs) (w @ join ('','' @ w) (map (\<lambda>x. a @ txt x) xs) @ b)"
    using cons json_items_blanks assms(3) by simp
  then show ?case
    using more_items [of a "val x" "txt x" "[]"] cons assms by (simp add: join_Cons)
qed

lemma json_members_join:
  assumes "blanks a" "blanks b" "blanks c" "blanks w"
  shows "xs \<noteq> [] \<Longrightarrow> \<forall>x \<in> set xs. json_text (val x) (txt x)
    \<Longrightarrow> json_members (map (\<lambda>x. (key x, val x)) xs)
          (join ('','' @ w) (map (\<lambda>x. a @ json_string (key x) @ '':'' @ c @ txt x) xs) @ b)"
proof (induction xs rule: list_nonempty_induct)
  case (single x)
  then show ?case using one_member [of a "[]" c "val x" "txt x" b "key x"] assms by simp
next
  case (cons x xs)
  have "json_members (map (\<lambda>x. (key x, val x)) xs)
      (w @ join ('','' @ w) (map (\<lambda>x. a @ json_string (key x) @ '':'' @ c @ txt x) xs) @ b)"
    using cons json_members_blanks assms(4) by simp
  then show ?case
    using more_members [of a "[]" c "val x" "txt x" "[]"] cons assms by (simp add: join_Cons)
qed

lemma json_compact_text: "no_reals v \<Longrightarrow> json_text v (json_compact repr v)"
proof (induction repr v rule: json_compact.induct)
  case (6 repr vs)
  show ?case
  proof (cases "vs = []")
    case False
    with 6 json_items_join [of "[]" "[]" "[]" vs "\<lambda>v. v" "json_compact repr"] show ?thesis
      using text_list by fastforce
  qed (use text_list [OF no_items [of "[]"]] in simp)
next
  case (7 repr kvs)
  show ?case
  proof (cases "kvs = []")
    case False
    have "\<forall>kv \<in> set kvs. json_text (snd kv) (json_compact repr (snd kv))" using 7 by auto
    from text_dict [OF json_members_join [of "[]" "[]" "[]" "[]", OF _ _ _ _ False this, of fst]] show ?thesis by simp
  qed (use text_dict [OF no_members [of "[]"]] in simp)
qed (use text_null text_bool text_int text_str in auto)

lemma nl_ws: "blanks nl" "blanks ''  ''"
  by (simp_all add: nl_def is_ws_def)

lemma nl_eq: "[CHR 0x0A] = nl"
  by (simp add: nl_def)

lemma json_pretty_text: "no_reals v \<Longrightarrow> blanks ind \<Longrightarrow> json_text v (json_pretty ind v)"
proof (induction ind v rule: json_pretty.induct)
  case (5 ind vs)
  show ?case
  proof (cases "vs = []")
    case False
    have "\<forall>v \<in> set vs. json_text v (json_pretty (ind @ ''  '') v)" using 5 False nl_ws by auto
    from text_list [OF json_items_blanks [OF json_items_join [OF _ _ _ False this,
          of "ind @ ''  ''" "nl @ ind" nl] nl_ws(1)]]
    show ?thesis using False 5(3) nl_ws by (simp add: nl_eq)
  qed (use text_list [OF no_items [of "[]"]] in simp)
next
  case (6 ind kvs)
  show ?case
  proof (cases "kvs = []")
    case False
    have "\<forall>kv \<in> set kvs. json_text (snd kv) (json_pretty (ind @ ''  '') (snd kv))" using 6 False nl_ws by auto
    from text_dict [OF json_members_blanks [OF json_members_join [OF _ _ _ _ False this,
          of "ind @ ''  ''" "nl @ ind" "'' ''" nl fst] nl_ws(1)]]
    show ?thesis using False 6(3) nl_ws by (simp add: nl_eq is_ws_def)
  qed (use text_dict [OF no_members [of "[]"]] in simp)
qed (use text_null text_bool text_int text_str in auto)

lemma json_string_list_text: "json_text (JList (map JStr xs)) (json_string_list xs)"
proof (cases "xs = []")
  case False
  from text_list [OF json_items_join [of "[]" "[]" "'' ''", OF _ _ _ False, of JStr json_string]] show ?thesis
    by (simp add: json_string_list_def text_str is_ws_def)
qed (use text_list [OF no_items [of "[]"]] in \<open>simp add: json_string_list_def\<close>)

lemma json_object_text: "json_text (JDict (map (\<lambda>kv. (fst kv, JStr (snd kv))) kvs)) (json_object kvs)"
proof (cases "kvs = []")
  case False
  from text_dict [OF json_members_join [of "[]" "[]" "'' ''" "'' ''", OF _ _ _ _ False,
        of "\<lambda>kv. JStr (snd kv)" "\<lambda>kv. json_string (snd kv)" fst]] show ?thesis
    by (simp add: json_object_def text_str is_ws_def case_prod_unfold)
qed (use text_dict [OF no_members [of "[]"]] in \<open>simp add: json_object_def\<close>)

interpretation compact: json_printer no_reals "\<lambda>v. v" "json_compact repr" for repr
  by unfold_locales (rule json_compact_text)

interpretation pretty: json_printer no_reals "\<lambda>v. v" "json_pretty []"
  by unfold_locales (simp add: json_pretty_text)

interpretation strings: json_printer "\<lambda>xs. True" "\<lambda>xs. JList (map JStr xs)" json_string_list
  by unfold_locales (rule json_string_list_text)

interpretation flat: json_printer "\<lambda>kvs. True" "\<lambda>kvs. JDict (map (\<lambda>kv. (fst kv, JStr (snd kv))) kvs)" json_object
  by unfold_locales (rule json_object_text)

section \<open>The characters printed\<close>

definition printable :: "char \<Rightarrow> bool" where
  "printable c = (32 \<le> code c \<and> code c \<le> 126)"

definition plain :: "char \<Rightarrow> bool" where
  "plain c = (code c = 10 \<or> printable c)"

lemma digit_char_printable: "d < 16 \<Longrightarrow> printable (digit_char d)"
  by (simp add: digit_char_def printable_def)

lemma json_char_printable: "list_all printable (json_char c)"
  by (simp add: json_char_def Let_def hex4_def digit_char_printable) (simp add: printable_def)

lemma json_string_printable: "list_all printable (json_string s)"
proof -
  have "list_all printable (concat (map json_char s))" by (induction s) (simp_all add: json_char_printable)
  then show ?thesis by (simp add: json_string_def) (simp add: printable_def)
qed

lemma show_int_printable: "list_all printable (show_int n)"
proof -
  have "list_all printable (show_nat k)" for k
    using show_nat_num [of k] by (auto simp: list_all_iff is_num_def printable_def)
  then show ?thesis by (simp add: show_int_def) (simp add: printable_def)
qed

lemma list_all_join: "list_all P sep \<Longrightarrow> \<forall>x \<in> set xs. list_all P x \<Longrightarrow> list_all P (join sep xs)"
  by (induction sep xs rule: join.induct) auto

lemma comma_printable: "list_all printable '',''"
  by (simp add: printable_def)

lemma json_compact_printable:
  assumes "\<forall>x. list_all printable (repr x)"
  shows "list_all printable (json_compact repr v)"
  using assms
proof (induction repr v rule: json_compact.induct)
  case (6 repr vs)
  then have "list_all printable (join '','' (map (json_compact repr) vs))"
    by (intro list_all_join comma_printable) auto
  then show ?case by simp (simp add: printable_def)
next
  case (7 repr kvs)
  then have "list_all printable (join '','' (map (\<lambda>kv. json_string (fst kv) @ '':'' @ json_compact repr (snd kv)) kvs))"
    by (intro list_all_join comma_printable) (auto simp: json_string_printable, simp add: printable_def)
  then show ?case by simp (simp add: printable_def)
qed (auto simp: json_string_printable show_int_printable, simp_all add: printable_def)

lemma printable_plain: "list_all printable s \<Longrightarrow> list_all plain s"
  by (auto simp: list_all_iff plain_def)

lemma nl_plain: "list_all plain nl" "list_all plain ''  ''"
  by (simp_all add: nl_def plain_def printable_def)

lemma json_pretty_plain: "no_reals v \<Longrightarrow> list_all plain ind \<Longrightarrow> list_all plain (json_pretty ind v)"
proof (induction ind v rule: json_pretty.induct)
  case (5 ind vs)
  have "list_all plain (join ('','' @ nl) (map (\<lambda>v. ind @ ''  '' @ json_pretty (ind @ ''  '') v) vs))" if "vs \<noteq> []"
    using 5 that nl_plain by (intro list_all_join) (auto, simp add: plain_def printable_def)
  with 5(3) nl_plain show ?case by (auto simp: nl_eq, auto simp: plain_def printable_def)
next
  case (6 ind kvs)
  have "list_all plain (join ('','' @ nl)
      (map (\<lambda>kv. ind @ ''  '' @ json_string (fst kv) @ '': '' @ json_pretty (ind @ ''  '') (snd kv)) kvs))" if "kvs \<noteq> []"
    using 6 that nl_plain printable_plain [OF json_string_printable]
    by (intro list_all_join) (auto, simp_all add: plain_def printable_def)
  with 6(3) nl_plain show ?case by (auto simp: nl_eq, auto simp: plain_def printable_def)
qed (auto simp: printable_plain json_string_printable show_int_printable, simp_all add: plain_def printable_def)

section \<open>Files\<close>

text \<open>What a reader makes of a file: ASCII text, and a JSON value in it.\<close>

definition read_json :: "contents \<Rightarrow> path \<Rightarrow> jval option" where
  "read_json c p =
     (case c p of
        None \<Rightarrow> None
      | Some f \<Rightarrow> (case ascii_text (f_data f) of Inl e \<Rightarrow> None | Inr t \<Rightarrow> json_read t))"

lemma read_json_pretty:
  assumes "no_reals v" "c p = Some f" "f_data f = ascii_bytes (json_pretty [] v @ nl)"
  shows "read_json c p = Some v"
proof -
  have "list_all plain (json_pretty [] v @ nl)" using json_pretty_plain [OF assms(1), of "[]"] nl_plain by simp
  then have "code c < 128 \<and> code c \<noteq> 13" if "c \<in> set (json_pretty [] v @ nl)" for c
    using that unfolding list_all_iff plain_def printable_def by fastforce
  then have "ascii_text (f_data f) = Inr (json_pretty [] v @ nl)"
    unfolding assms(3) by (rule ascii_text_bytes)
  moreover have "json_read (json_pretty [] v @ nl) = Some v"
    by (rule pretty.read_line [OF assms(1) nl_ws(1)])
  ultimately show ?thesis by (simp add: read_json_def assms(2))
qed

section \<open>The manifest of the backups\<close>

text \<open>The manifest's value, in the order the source builds it; an entry is a backup's name and checksum.\<close>

definition manifest_json :: "datetime \<Rightarrow> (string \<times> string) list \<Rightarrow> jval" where
  "manifest_json now entries =
     JDict [(''version'', JInt 1), (''generated_at'', JStr (iso_z now)),
       (''latest'', if entries = [] then JNull else JStr (fst (last entries))),
       (''backups'', JList (map (\<lambda>e. JDict [(''filename'', JStr (fst e)), (''sha256'', JStr (snd e))]) entries))]"

lemma sort_manifest_keys:
  "sort_key fst [(''version'', a), (''generated_at'', b), (''latest'', c), (''backups'', d)] =
     [(''backups'', d), (''generated_at'', b), (''latest'', c), (''version'', a)]"
  "sort_key fst [(''filename'', a), (''sha256'', b)] = [(''filename'', a), (''sha256'', b)]"
  by (simp_all add: less_le_not_le char_eq_code less_char_def less_eq_char_def)

lemma show_int_1: "show_int 1 = ''1''"
  by code_simp

lemma manifest_text_json: "manifest_text now es = json_pretty [] (sort_keys (manifest_json now es)) @ nl"
  by (simp add: manifest_text_def manifest_json_def sort_manifest_keys manifest_entry_def [abs_def] nl_eq comp_def show_int_1)

lemma no_reals_manifest: "no_reals (manifest_json now es)"
  by (simp add: manifest_json_def)

text \<open>
  C19. The manifest can be read back and tells the truth: after a call of \<^verbatim>\<open>create_backup\<close> that returns, whatever came
  before it, the manifest file is JSON whose entries are the backups that are listed, in their order; the new
  backup passes its check if it is among them, and the entry of every backup that passes has the digest of its bytes.
\<close>

theorem manifest_reads_back:
  assumes "create_backup safe_load errors config dir healthy now r d = (Inr p, d')"
  shows "\<exists>entries. read_json (find_file d') (dir, manifest_name) = Some (sort_keys (manifest_json now entries))
    \<and> map fst entries = listing dir (find_file d')
    \<and> (\<forall>(n, h) \<in> set entries. (n = backup_name now \<longrightarrow> verified (find_file d') (dir, n))
         \<and> (verified (find_file d') (dir, n) \<longrightarrow>
              (\<exists>f. find_file d' (dir, n) = Some f \<and> hexdigest (f_data f) = lower h)))"
proof -
  from create_backup_Inr [OF assms] obtain f :: inode where
    finished: "backup_finished dir (backup_name now) r now (f_data f) (find_file d) (find_file d')" by blast
  obtain m entries where m: "find_file d' (dir, manifest_name) = Some m" "f_data m = ascii_bytes (manifest_text now entries)"
    and entries: "list_all2 (\<lambda>n e. fst e = n \<and> (\<exists>g t. find_file d' (dir, checksum_name n) = Some g
          \<and> ascii_text (f_data g) = Inr t \<and> snd e = strip t)) (listing dir (find_file d')) entries"
    using backup_finished_manifest [OF finished] by (auto simp: manifest_ok_def)
  have "read_json (find_file d') (dir, manifest_name) = Some (sort_keys (manifest_json now entries))"
    using read_json_pretty [of "sort_keys (manifest_json now entries)" "find_file d'"] m
    by (simp add: no_reals_manifest manifest_text_json)
  moreover have "map fst entries = listing dir (find_file d')"
    using entries by (induction rule: list_all2_induct) auto
  moreover have listed: "\<forall>e \<in> set entries. fst e \<in> set (listing dir (find_file d'))
      \<and> (\<exists>g t. find_file d' (dir, checksum_name (fst e)) = Some g \<and> ascii_text (f_data g) = Inr t \<and> snd e = strip t)"
    using entries by (induction rule: list_all2_induct) auto
  moreover have "(n = backup_name now \<longrightarrow> verified (find_file d') (dir, n)) \<and> (verified (find_file d') (dir, n) \<longrightarrow>
      (\<exists>f. find_file d' (dir, n) = Some f \<and> hexdigest (f_data f) = lower h))" if "(n, h) \<in> set entries" for n h
  proof -
    note e = that
    obtain g t where g: "n \<in> set (listing dir (find_file d'))" "find_file d' (dir, checksum_name n) = Some g"
      "ascii_text (f_data g) = Inr t" "h = strip t"
      using bspec [OF listed e] by auto
    then have "n = backup_name now \<Longrightarrow> verified (find_file d') (dir, n)"
      using backup_finished_verified [OF is_backup_name_backup_name finished] by (simp add: listing_def finite_complete)
    with g show ?thesis by (auto simp: verified_def pair_ok_def checksum_ok_def Let_def)
  qed
  ultimately show ?thesis by blast
qed

theorem manifest_reads_back_witness:
  "\<exists>d' h. create_backup demo_load demo_errors demo_config demo_dir True noon 2 demo_disk = (Inr (demo_dir, demo_name), d')
     \<and> read_json (find_file d') (demo_dir, manifest_name) = Some (sort_keys (manifest_json noon [(demo_name, h)]))"
proof -
  have none: "complete demo_dir (find_file demo_disk) = {}" by (auto simp: complete_def find_demo_disk demo_paths)
  obtain d' where run: "create_backup demo_load demo_errors demo_config demo_dir True noon 2 demo_disk
      = (Inr (demo_dir, demo_name), d')"
    using create_calm [OF room_demo, of demo_config _ demo_load demo_errors 2 noon] demo_valid
    by (auto simp: find_demo_disk demo_name_def)
  from create_backup_Inr [OF run] obtain f :: inode where
    finished: "backup_finished demo_dir (backup_name noon) 2 noon (f_data f) (find_file demo_disk) (find_file d')" by blast
  have "listing demo_dir (find_file d') = [demo_name]"
    using backup_finished_listing(1) [OF is_backup_name_backup_name finite_complete finished]
    by (simp add: none newest_def demo_name_def)
  with manifest_reads_back [OF run] run show ?thesis by (auto simp: map_eq_Cons_conv)
qed

text \<open>
  The evidence can be read back: when the deployment script returns, the evidence file asked for is JSON,
  and its value is the record of deployments that are verified on the chain.
\<close>

theorem evidence_reads_back:
  assumes "deploy_main w arts env (Some p) now st = (Inr u, st')"
  shows "\<exists>account owner keeper guardian vault.
      read_json (find_file (ds_disk st')) p = Some (evidence now base_sepolia account owner keeper guardian vault)
    \<and> contracts_verified w arts guardian vault owner keeper"
proof -
  from deploy_main_result [OF assms] obtain account owner keeper guardian vault f where
    v: "contracts_verified w arts guardian vault owner keeper"
    and f: "find_file (ds_disk st') p = Some f"
      "f_data f = evidence_bytes (evidence now base_sepolia account owner keeper guardian vault)"
    by (auto simp: deployed_def)
  have "no_reals (evidence now base_sepolia account owner keeper guardian vault)"
    by (simp add: evidence_def deployment_json_def)
  with read_json_pretty f have
    "read_json (find_file (ds_disk st')) p = Some (evidence now base_sepolia account owner keeper guardian vault)"
    by (simp add: evidence_bytes_def nl_def)
  with v show ?thesis by blast
qed

theorem evidence_reads_back_witness:
  "\<exists>account owner keeper guardian vault.
      read_json (find_file (ds_disk (snd demo_deploy))) demo_target
        = Some (evidence demo_time base_sepolia account owner keeper guardian vault)
    \<and> contracts_verified demo_web3 demo_artifacts guardian vault owner keeper"
proof -
  have "deploy_main demo_web3 demo_artifacts demo_env (Some demo_target) demo_time demo_start = (Inr (), snd demo_deploy)"
    using demo_deploy_result(1) by (metis demo_deploy_def prod.collapse)
  from evidence_reads_back [OF this] show ?thesis .
qed

section \<open>Log lines\<close>


definition demo_repr :: "real \<Rightarrow> string" where
  "demo_repr x = show_int \<lfloor>x\<rfloor> @ ''.0''"

definition demo_event :: log_event where
  "demo_event = [(''message'', JStr (''down'' @ nl @ ''{}'')), (''level'', JStr ''warning'')]"


end
