(* ===== verification/StoreRecords.thy ===== *)
theory StoreRecords
  imports StoreSafety JsonTexts
begin

text \<open>
  The JSON in the rows of the store: an incident keeps the events it was opened for, and a message of the outbox keeps
  its intent and outcome, as texts. In every reachable state these texts can be read back, and they agree with the rows they
  stand for.
\<close>

text \<open>The events reserved for an intent, in the order of their rows.\<close>

definition events_of :: "string \<Rightarrow> db \<Rightarrow> string list" where
  "events_of i s = map fst (filter (\<lambda>(e, j). j = i) (intent_events s))"

definition sources_recorded :: "db \<Rightarrow> bool" where
  "sources_recorded s \<longleftrightarrow> (\<forall>(i, r) \<in> set (intents s). events_of i s \<noteq> []
     \<and> (\<exists>ic. map_of (incidents s) (in_incident r) = Some ic \<and> ic_source_ids ic = json_string_list (events_of i s)))"

text \<open>What only a reservation changes.\<close>

definition reservations :: "db \<Rightarrow> (string \<times> incident_row) list \<times> (string \<times> string) list \<times> (string \<times> string) list" where
  "reservations s = (incidents s, intent_events s, map (\<lambda>(i, r). (i, in_incident r)) (intents s))"

lemma sources_recorded_reservations:
  assumes "reservations s' = reservations s" "sources_recorded s"
  shows "sources_recorded s'"
proof -
  have "\<exists>r'. (i, r') \<in> set (intents s) \<and> in_incident r' = in_incident r" if "(i, r) \<in> set (intents s')" for i r
  proof -
    have "(i, in_incident r) \<in> set (map (\<lambda>(i, r). (i, in_incident r)) (intents s'))" using that by force
    moreover have "map (\<lambda>(i, r). (i, in_incident r)) (intents s') = map (\<lambda>(i, r). (i, in_incident r)) (intents s)"
      using assms(1) by (simp add: reservations_def)
    ultimately have "(i, in_incident r) \<in> set (map (\<lambda>(i, r). (i, in_incident r)) (intents s))" by (simp only:)
    then show ?thesis by force
  qed
  then show ?thesis
    using assms unfolding sources_recorded_def events_of_def reservations_def by fastforce
qed

lemma reservations_advance:
  assumes "map_of (intents s) i = Some r" "distinct (map fst (intents s))" "in_incident r' = in_incident r"
  shows "reservations (advance w i r' x l s) = reservations s"
proof -
  have "y = r" if "(i, y) \<in> set (intents s)" for y using assms(1,2) that by simp
  then show ?thesis using assms(3) by (auto simp: reservations_def advance_fields)
qed

lemma sources_recorded_reserved:
  assumes rec: "sources_recorded s" and inv: "store_inv s" and es: "es \<noteq> []"
    and i: "\<not> has_key i (intents s)" and c: "\<not> has_key c (incidents s)"
  shows "sources_recorded (reserved_db now w i c es s)"
proof -
  have none: "events_of i s = []"
    using inv i by (auto simp: store_inv_def refs_ok_def events_of_def filter_empty_conv)
  have new: "events_of j (reserved_db now w i c es s) = (if j = i then es else events_of j s)" for j
    using none by (auto simp: events_of_def reserved_db_fields filter_map comp_def)
  have old: "j \<noteq> i" if "(j, r) \<in> set (intents s)" for j r using i that by (force simp: has_key_iff)
  have known: "map_of [(c, y)] k = None" if "map_of (incidents s) k = Some ic" for k ic y
    using c that by (auto simp: has_key_def)
  show ?thesis
    using rec es c old known unfolding sources_recorded_def new
    by (auto simp: reserved_db_fields new_intent_def map_add_def has_key_def split: option.splits)
qed

lemma sources_recorded_call:
  assumes rec: "sources_recorded s" and inv: "store_inv s" and run: "run_call [] c s = (Inr x, s')"
  shows "sources_recorded s'"
proof (cases c)
  case (OpenCall m path)
  then have "reservations s' = reservations s"
    using run by (auto simp: reservations_def acked_def open_store_nil split: if_splits sum.splits)
  then show ?thesis by (rule sources_recorded_reservations [OF _ rec])
next
  case (IngestCall source e q b p)
  with run have "ingest [] source e q b p s = (Inr x, s')" by simp
  then have "reservations s' = reservations s"
    by (rule ingest_success)
      (use store_inv_keys [OF inv] in \<open>auto simp: reservations_def elim!: advance_cursor_cases\<close>)
  then show ?thesis by (rule sources_recorded_reservations [OF _ rec])
next
  case (ReserveCall now w i c es)
  with run have "reserve [] now w i c es s = (Inr x, s')" by simp
  then show ?thesis by (rule reserve_success) (simp_all add: rec inv sources_recorded_reserved)
next
  case (PrepareCall w i n fee)
  with run have "prepare [] w i n fee s = (Inr (), s')" using acked_Inr by fastforce
  with inv have "reservations s' = reservations s"
    by (rule prepare_success) (simp add: reservations_advance store_inv_keys [OF inv])
  then show ?thesis by (rule sources_recorded_reservations [OF _ rec])
next
  case (BroadcastCall w i h)
  with run have "broadcast [] w i h s = (Inr (), s')" using acked_Inr by fastforce
  with inv have "reservations s' = reservations s"
    by (rule broadcast_success) (simp add: reservations_advance store_inv_keys [OF inv])
  then show ?thesis by (rule sources_recorded_reservations [OF _ rec])
next
  case (FinishCall w i out ev)
  with run have "finish [] w i out ev s = (Inr (), s')" using acked_Inr by fastforce
  with inv have "reservations s' = reservations s"
    by (rule finish_success) (simp add: reservations_advance store_inv_keys [OF inv])
  then show ?thesis by (rule sources_recorded_reservations [OF _ rec])
qed

lemma sources_recorded_step:
  assumes "store_step s c r s'" "store_inv s" "sources_recorded s"
  shows "sources_recorded s'"
  using assms
proof (induction rule: store_step.induct)
  case (replied p c s r s')
  with atomic_opD [OF atomic_run_call replied.hyps] show ?case by (auto intro: sources_recorded_call)
qed (auto intro: sources_recorded_call)

lemma store_run_recorded:
  "store_run s0 tr s \<Longrightarrow> store_inv s0 \<Longrightarrow> sources_recorded s0 \<Longrightarrow> sources_recorded s"
proof (induction rule: store_run.induct)
  case (store_run_snoc s tr t c r u)
  then show ?case using store_run_safe sources_recorded_step by blast
qed

lemma reachable_recorded: "store_reachable s \<Longrightarrow> sources_recorded s"
proof -
  have "sources_recorded empty_db" by (simp add: sources_recorded_def empty_db_def)
  then show "store_reachable s \<Longrightarrow> sources_recorded s"
    unfolding store_reachable_def using store_run_recorded [OF _ store_inv_empty] by blast
qed

text \<open>
  C15. The texts in the store can be read back, in every reachable state: an intent's incident is there, and its text is
  JSON for exactly the events that are reserved for the intent, in order and at least one; and the payload of every
  message of the outbox is JSON for its intent and an outcome that the audit trail records for it.
\<close>

theorem store_texts_read_back:
  assumes "store_reachable s"
  shows "(\<forall>(i, r) \<in> set (intents s). events_of i s \<noteq> []
        \<and> (\<exists>ic. map_of (incidents s) (in_incident r) = Some ic
             \<and> json_read (ic_source_ids ic) = Some (JList (map JStr (events_of i s)))))
    \<and> (\<forall>m \<in> set (outbox s). \<exists>a \<in> set (audit s). au_intent a = ob_intent m \<and> outcome_of (au_transition a) \<noteq> None
        \<and> json_read (ob_payload m)
            = Some (JDict [(''intent'', JStr (ob_intent m)), (''outcome'', JStr (au_transition a))]))"
proof -
  have "\<exists>a \<in> set (audit s). au_intent a = ob_intent m \<and> outcome_of (au_transition a) \<noteq> None
      \<and> json_read (ob_payload m) = Some (JDict [(''intent'', JStr (ob_intent m)), (''outcome'', JStr (au_transition a))])"
    if m: "m \<in> set (outbox s)" for m
  proof -
    have "(ob_intent m, ob_payload m) \<in> set (map (\<lambda>o'. (ob_intent o', ob_payload o')) (outbox s))" using m by simp
    then obtain a where "a \<in> set (audit s)" "outcome_of (au_transition a) \<noteq> None"
      "(ob_intent m, ob_payload m) = outcome_message a"
      using store_reachable_inv [OF assms] unfolding store_inv_def outbox_ok_def by fastforce
    then show ?thesis by (auto simp: outcome_message_def flat.read_alone)
  qed
  with reachable_recorded [OF assms] show ?thesis
    by (fastforce simp: sources_recorded_def strings.read_alone)
qed

theorem store_texts_read_back_witness:
  "\<exists>ic. map_of (incidents (run_calls (demo_reserve # demo_pause) demo_ready)) ''c1'' = Some ic
     \<and> json_read (ic_source_ids ic) = Some (JList [JStr ''e1''])"
proof -
  let ?s = "run_calls (demo_reserve # demo_pause) demo_ready"
  have "store_reachable ?s"
    using store_reachable_run run_calls_reachable run_calls_store_run [OF store_run_nil]
    unfolding demo_ready_def by blast
  moreover have "map (\<lambda>(i, r). (i, in_incident r)) (intents ?s) = [(''i1'', ''c1'')]" "events_of ''i1'' ?s = [''e1'']"
    by code_simp+
  moreover from this(1) obtain r where "(''i1'', r) \<in> set (intents ?s)" "in_incident r = ''c1''" by (auto simp: map_eq_Cons_conv)
  ultimately show ?thesis using store_texts_read_back [of ?s] by fastforce
qed

end
