(* ===== verification/SentinelConfig.thy ===== *)
theory SentinelConfig
  imports PyText
begin

text \<open>
  The Sentinel's runtime settings (\<^verbatim>\<open>sentinel/config.py\<close>): the parts of \<^verbatim>\<open>urlsplit\<close> and of
  \<^verbatim>\<open>pathlib\<close> that \<^verbatim>\<open>Settings.from_env\<close> looks at, its three local readers, and the function
  itself with its checks in the order of the source. An environment is a map from names to
  texts.
\<close>

type_synonym env = "string \<Rightarrow> string option"

definition env_get :: "env \<Rightarrow> string \<Rightarrow> string \<Rightarrow> string" where
  "env_get env name dflt = (case env name of None \<Rightarrow> dflt | Some v \<Rightarrow> v)"

section \<open>URLs\<close>

text \<open>\<^verbatim>\<open>s.partition(c)\<close> without the separator, and whether it was found; \<^verbatim>\<open>rpartition\<close> likewise.\<close>

definition partition_at :: "char \<Rightarrow> string \<Rightarrow> string \<times> bool \<times> string" where
  "partition_at c s =
     (let a = takeWhile (\<lambda>x. x \<noteq> c) s
      in (a, length a < length s, drop (Suc (length a)) s))"

definition rpartition_at :: "char \<Rightarrow> string \<Rightarrow> string \<times> bool \<times> string" where
  "rpartition_at c s =
     (let b = rev (takeWhile (\<lambda>x. x \<noteq> c) (rev s))
      in (take (length s - Suc (length b)) s, length b < length s, b))"

definition is_ascii_alpha :: "char \<Rightarrow> bool" where
  "is_ascii_alpha c = (let n = code c in 65 \<le> n \<and> n \<le> 90 \<or> 97 \<le> n \<and> n \<le> 122)"

definition is_scheme_char :: "char \<Rightarrow> bool" where
  "is_scheme_char c = (is_ascii_alpha c \<or> 48 \<le> code c \<and> code c \<le> 57 \<or> c \<in> set ''+-.'')"

text \<open>Leading control characters and blanks go first, then every tab and line break.\<close>

definition clean_url :: "string \<Rightarrow> string" where
  "clean_url url = filter (\<lambda>c. code c \<notin> {9, 10, 13}) (dropWhile (\<lambda>c. code c \<le> 32) url)"

definition split_scheme :: "string \<Rightarrow> string \<times> string" where
  "split_scheme url =
     (case partition_at (CHR '':'') url of
        (before, found, after) \<Rightarrow>
          if found \<and> before \<noteq> [] \<and> is_ascii_alpha (hd before) \<and> list_all is_scheme_char before
          then (lower before, after) else ([], url))"

definition split_netloc :: "string \<Rightarrow> string" where
  "split_netloc rest =
     (if take 2 rest = ''//'' then takeWhile (\<lambda>c. c \<notin> set ''/?#'') (drop 2 rest) else [])"

record split_url =
  su_scheme :: string
  su_netloc :: string

text \<open>
  \<open>netloc_ok\<close> stands for the standard library's checks of a bracketed IP address and of
  characters that Unicode normalisation would turn into separators; it is asked only about
  authorities with both brackets or with characters outside ASCII.
\<close>

definition urlsplit :: "(string \<Rightarrow> bool) \<Rightarrow> string \<Rightarrow> split_url result" where
  "urlsplit netloc_ok url =
     (let (scheme, rest) = split_scheme (clean_url url);
          netloc = split_netloc rest;
          opened = CHR ''['' \<in> set netloc; closed = CHR '']'' \<in> set netloc
      in if opened \<noteq> closed then Inl (ValueError ''Invalid IPv6 URL'')
         else if (opened \<or> list_ex (\<lambda>c. 128 \<le> code c) netloc) \<and> \<not> netloc_ok netloc
         then Inl (ValueError ''Invalid netloc'')
         else Inr \<lparr>su_scheme = scheme, su_netloc = netloc\<rparr>)"

definition username :: "split_url \<Rightarrow> string option" where
  "username u =
     (case rpartition_at (CHR ''@'') (su_netloc u) of
        (userinfo, found, host) \<Rightarrow>
          if found then Some (fst (partition_at (CHR '':'') userinfo)) else None)"

definition hostname :: "split_url \<Rightarrow> string option" where
  "hostname u =
     (let hostinfo = snd (snd (rpartition_at (CHR ''@'') (su_netloc u)));
          (before, bracket, after) = partition_at (CHR ''['') hostinfo;
          host = (if bracket then fst (partition_at (CHR '']'') after)
                  else fst (partition_at (CHR '':'') hostinfo));
          (name, percent, zone) = partition_at (CHR ''%'') host
      in if host = [] then None
         else Some (lower name @ (if percent then ''%'' else []) @ zone))"

section \<open>Paths\<close>

fun split_on :: "char \<Rightarrow> string \<Rightarrow> string list" where
  "split_on c [] = [[]]"
| "split_on c (x # xs) =
     (if x = c then [] # split_on c xs
      else case split_on c xs of p # ps \<Rightarrow> (x # p) # ps | [] \<Rightarrow> [[x]])"

text \<open>\<^verbatim>\<open>str(Path(s))\<close> on POSIX: empty and \<^verbatim>\<open>"."\<close> components go, two leading slashes stay two.\<close>

definition path_text :: "string \<Rightarrow> string" where
  "path_text s =
     (let root = (if take 2 s = ''//'' \<and> take 3 s \<noteq> ''///'' then ''//''
                  else if take 1 s = ''/'' then ''/'' else []);
          parts = filter (\<lambda>p. p \<noteq> [] \<and> p \<noteq> ''.'') (split_on (CHR ''/'') s);
          text = root @ join ''/'' parts
      in if text = [] then ''.'' else text)"

section \<open>The settings\<close>

record settings =
  rpc_http :: string
  subgraph_url :: string
  guardian_address :: string
  vault_address :: string
  state_path :: string
  chain_id :: int
  confirmations :: int
  rewind_blocks :: int

definition required :: "env \<Rightarrow> string \<Rightarrow> string result" where
  "required env name =
     (let v = strip (env_get env name [])
      in if v = [] then Inl (ValueError (name @ '' is required'')) else Inr v)"

definition endpoint :: "(string \<Rightarrow> bool) \<Rightarrow> env \<Rightarrow> string \<Rightarrow> string result" where
  "endpoint netloc_ok env name =
     (case required env name of
        Inl e \<Rightarrow> Inl e
      | Inr v \<Rightarrow>
          (case urlsplit netloc_ok v of
             Inl e \<Rightarrow> Inl e
           | Inr u \<Rightarrow>
               if su_scheme u \<noteq> ''https'' \<or> hostname u = None \<or> username u \<notin> {None, Some []}
               then Inl (ValueError (name @ '' must be an HTTPS endpoint without userinfo''))
               else Inr v))"

definition address :: "env \<Rightarrow> string \<Rightarrow> string result" where
  "address env name =
     (case required env name of
        Inl e \<Rightarrow> Inl e
      | Inr w \<Rightarrow>
          (let v = lower w
           in if length v \<noteq> 42 \<or> \<not> startswith v ''0x''
              then Inl (ValueError (name @ '' must be an Ethereum address''))
              else case py_int 16 (drop 2 v) of
                     Inl e \<Rightarrow>
                       if is_value_error e
                       then Inl (ValueError (name @ '' must be an Ethereum address'')) else Inl e
                   | Inr n \<Rightarrow>
                       if n = 0 then Inl (ValueError (name @ '' cannot be zero'')) else Inr v))"

definition from_env :: "(string \<Rightarrow> bool) \<Rightarrow> env \<Rightarrow> settings result" where
  "from_env netloc_ok env =
     bind_result (py_int 10 (env_get env ''CHAIN_ID'' ''84532'')) (\<lambda>chain.
     bind_result (py_int 10 (env_get env ''SENTINEL_CONFIRMATIONS'' ''2'')) (\<lambda>conf.
     bind_result (py_int 10 (env_get env ''SENTINEL_REWIND_BLOCKS'' ''2'')) (\<lambda>rewind.
     if chain \<noteq> 84532 then Inl (ValueError ''Only Base Sepolia chain 84532 is supported'')
     else if conf < 1 \<or> rewind < conf
     then Inl (ValueError ''Require confirmations >= 1 and rewind >= confirmations'')
     else
       (let state = strip (env_get env ''SENTINEL_STATE_PATH'' ''.sentinel/state.sqlite3'')
        in if state = [] \<or> state = '':memory:''
           then Inl (ValueError ''A durable state path is required'')
           else
             bind_result (endpoint netloc_ok env ''RPC_HTTP'') (\<lambda>rpc.
             bind_result (endpoint netloc_ok env ''SUBGRAPH_URL'') (\<lambda>subgraph.
             bind_result (address env ''GUARDIAN_ADDRESS'') (\<lambda>guardian.
             bind_result (address env ''VAULT_ADDRESS'') (\<lambda>vault.
             Inr \<lparr>rpc_http = rpc, subgraph_url = subgraph, guardian_address = guardian,
                  vault_address = vault, state_path = path_text state, chain_id = chain,
                  confirmations = conf, rewind_blocks = rewind\<rparr>))))))))"

section \<open>Correctness\<close>

text \<open>What the guards accept, stated on the texts of the settings.\<close>

definition endpoint_ok :: "(string \<Rightarrow> bool) \<Rightarrow> string \<Rightarrow> bool" where
  "endpoint_ok netloc_ok v \<longleftrightarrow> strip v = v \<and>
     (\<exists>u. urlsplit netloc_ok v = Inr u \<and> su_scheme u = ''https'' \<and> hostname u \<noteq> None
        \<and> username u \<in> {None, Some []})"

definition address_ok :: "string \<Rightarrow> bool" where
  "address_ok v \<longleftrightarrow> length v = 42 \<and> startswith v ''0x'' \<and> lower v = v
     \<and> (\<exists>n. py_int 16 (drop 2 v) = Inr n \<and> n \<noteq> 0)"

definition settings_ok :: "(string \<Rightarrow> bool) \<Rightarrow> settings \<Rightarrow> bool" where
  "settings_ok netloc_ok s \<longleftrightarrow> chain_id s = 84532 \<and> 1 \<le> confirmations s
     \<and> confirmations s \<le> rewind_blocks s \<and> endpoint_ok netloc_ok (rpc_http s)
     \<and> endpoint_ok netloc_ok (subgraph_url s) \<and> address_ok (guardian_address s)
     \<and> address_ok (vault_address s) \<and> state_path s \<noteq> []"

lemma dropWhile_idem: "dropWhile P (dropWhile P s) = dropWhile P s"
  by (induction s) auto

lemma last_dropWhile: "dropWhile P s \<noteq> [] \<Longrightarrow> last (dropWhile P s) = last s"
  by (induction s) auto

lemma strip_by_idem: "strip_by P (strip_by P s) = strip_by P s"
proof -
  let ?t = "dropWhile P s" and ?u = "rev (dropWhile P (rev (dropWhile P s)))"
  have "dropWhile P ?u = ?u"
  proof (cases "?u = []")
    case False
    then have "hd ?u = hd ?t" using last_dropWhile [of P "rev ?t"] by (simp add: hd_rev last_rev)
    moreover have "?t \<noteq> []" using False by (auto dest: set_dropWhileD)
    then have "\<not> P (hd ?t)" using hd_dropWhile [of P s] by simp
    ultimately show ?thesis using False by (cases ?u) auto
  next
    case True
    show ?thesis by (simp only: True dropWhile.simps)
  qed
  then show ?thesis by (simp add: strip_by_def dropWhile_idem)
qed

lemma strip_idem: "strip (strip s) = strip s"
  by (simp add: strip_def strip_by_idem)

lemma code_lower_char: "code (lower_char c) = (let n = code c in
    if 65 \<le> n \<and> n \<le> 90 \<or> 192 \<le> n \<and> n \<le> 222 \<and> n \<noteq> 215 then n + 32 else n)"
  by (auto simp: lower_char_def Let_def code_char_of)

lemma lower_idem: "lower (lower s) = lower s"
proof -
  have "lower_char (lower_char c) = lower_char c" for c
    using code_lower_char [of c] by (auto simp: lower_char_def [of "lower_char c"] Let_def split: if_splits)
  then show ?thesis by (simp add: lower_def)
qed

lemma endpoint_Inr: "endpoint netloc_ok env name = Inr v \<Longrightarrow> endpoint_ok netloc_ok v"
  by (auto simp: endpoint_def required_def endpoint_ok_def Let_def strip_idem split: sum.splits if_splits)

lemma address_Inr: "address env name = Inr v \<Longrightarrow> address_ok v"
  by (auto simp: address_def required_def address_ok_def Let_def lower_idem split: sum.splits if_splits)

lemma path_text_not_Nil: "path_text s \<noteq> []"
  by (simp add: path_text_def Let_def)

text \<open>The environments of the examples: the one of the repository's tests, and edits of it.\<close>

definition test_env :: env where
  "test_env = map_of [(''RPC_HTTP'', ''https://sepolia.base.org''),
     (''SUBGRAPH_URL'', ''https://example.org/query''),
     (''GUARDIAN_ADDRESS'', ''0x'' @ concat (replicate 20 ''12'')),
     (''VAULT_ADDRESS'', ''0x'' @ concat (replicate 20 ''34''))]"

definition test_settings :: settings where
  "test_settings = \<lparr>rpc_http = ''https://sepolia.base.org'', subgraph_url = ''https://example.org/query'',
     guardian_address = ''0x'' @ concat (replicate 20 ''12''),
     vault_address = ''0x'' @ concat (replicate 20 ''34''),
     state_path = ''.sentinel/state.sqlite3'', chain_id = 84532, confirmations = 2, rewind_blocks = 2\<rparr>"

lemma test_env_settings: "from_env (\<lambda>_. False) test_env = Inr test_settings"
  by code_simp



definition settings_names :: "string list" where
  "settings_names = [''RPC_HTTP'', ''SUBGRAPH_URL'', ''GUARDIAN_ADDRESS'', ''VAULT_ADDRESS'',
     ''SENTINEL_STATE_PATH'', ''CHAIN_ID'', ''SENTINEL_CONFIRMATIONS'', ''SENTINEL_REWIND_BLOCKS'']"

text \<open>
  Credentials stay outside: the settings depend on eight names of the environment only, so
  whatever else it holds, a signing key for instance, neither reaches them nor changes an error.
\<close>

theorem from_env_reads_only:
  assumes "list_all (\<lambda>n. env n = env' n) settings_names"
  shows "from_env netloc_ok env = from_env netloc_ok env'"
  using assms
  by (simp add: settings_names_def from_env_def env_get_def endpoint_def address_def required_def
      cong: if_cong)

theorem from_env_reads_only_witness:
  "from_env (\<lambda>_. False) (test_env(''GUARDIAN_PRIVATE_KEY'' \<mapsto> ''0x01'')) = Inr test_settings"
proof -
  have "list_all (\<lambda>n. (test_env(''GUARDIAN_PRIVATE_KEY'' \<mapsto> ''0x01'')) n = test_env n) settings_names"
    by code_simp
  from from_env_reads_only [OF this] show ?thesis by (simp only: test_env_settings)
qed

lemma py_int_Inl: "py_int b s = Inl e \<Longrightarrow> is_value_error e"
  by (auto simp: py_int_def Let_def split: prod.splits option.splits if_splits)

lemma urlsplit_Inl: "urlsplit netloc_ok v = Inl e \<Longrightarrow> is_value_error e"
  by (auto simp: urlsplit_def Let_def split: prod.splits if_splits)

lemma endpoint_Inl: "endpoint netloc_ok env name = Inl e \<Longrightarrow> is_value_error e"
  by (auto simp: endpoint_def required_def Let_def urlsplit_Inl split: sum.splits if_splits)

lemma address_Inl: "address env name = Inl e \<Longrightarrow> is_value_error e"
  using py_int_Inl by (fastforce simp: address_def required_def Let_def split: sum.splits if_splits)

text \<open>
  A rejected environment raises \<^verbatim>\<open>ValueError\<close> and nothing else, whatever its texts are.
\<close>

theorem from_env_raises_value_error:
  assumes "from_env netloc_ok env = Inl e"
  shows "is_value_error e"
  using assms
  by (auto simp: from_env_def Let_def py_int_Inl endpoint_Inl address_Inl
      elim!: bind_result_InlE split: if_splits)

theorem from_env_raises_value_error_witness:
  "from_env (\<lambda>_. False) (test_env(''CHAIN_ID'' \<mapsto> ''1''))
     = Inl (ValueError ''Only Base Sepolia chain 84532 is supported'')
   \<and> is_value_error (ValueError ''Only Base Sepolia chain 84532 is supported'')"
proof -
  have "from_env (\<lambda>_. False) (test_env(''CHAIN_ID'' \<mapsto> ''1''))
     = Inl (ValueError ''Only Base Sepolia chain 84532 is supported'')"
    by code_simp
  with from_env_raises_value_error [OF this] show ?thesis by simp
qed

definition odd_address :: "string list" where
  "odd_address = [''0x-'' @ replicate 39 CHR ''1'', ''0x1_'' @ replicate 38 CHR ''1'',
     ''0x0x'' @ replicate 38 CHR ''1'']"

text \<open>
  Two gaps of the guards. An address is whatever 42 characters \<^verbatim>\<open>int(_, 16)\<close> reads after
  the prefix, so a negative number and a text with underscores pass; an endpoint with a password and
  an empty user name passes the check for user information.
\<close>

theorem guards_accept_non_addresses:
  "list_all (\<lambda>a. from_env (\<lambda>_. False) (test_env(''VAULT_ADDRESS'' \<mapsto> a)) = Inr (test_settings\<lparr>vault_address := a\<rparr>))
     odd_address
   \<and> from_env (\<lambda>_. False) (test_env(''RPC_HTTP'' \<mapsto> ''https://:secret@example.org''))
     = Inr (test_settings\<lparr>rpc_http := ''https://:secret@example.org''\<rparr>)"
  by code_simp

end
