(* ===== verification/Incident.thy ===== *)
theory Incident
  imports Models
begin

text \<open>
  The incident manager (\<^verbatim>\<open>app/incident.py\<close>): it opens one incident when the failures in a row
  reach the threshold and closes it on the first success. The manager's object is a record with
  its two Prometheus values and the events it has logged; the readings of its clock and of its id
  factory are arguments. The incident handed out is the value t that moment: the source hands
  out the object that \<^verbatim>\<open>record_success\<close> later closes.
\<close>

section \<open>The manager\<close>

record incident_metrics =
  incidents_total :: nat
  failures_gauge :: int

record incident_manager =
  failure_threshold :: int
  metrics :: incident_metrics
  consecutive_failures :: int
  current_incident :: "incident option"
  incident_log :: "log_event list"

text \<open>\<^verbatim>\<open>__post_init__\<close>; the collectors and the log outlive the manager and are arguments.\<close>

definition new_manager :: "int \<Rightarrow> incident_metrics \<Rightarrow> log_event list \<Rightarrow> incident_manager result" where
  "new_manager th ms lg =
     (if th < 1 then Inl (ValueError ''failure_threshold must be at least 1'')
      else Inr \<lparr>failure_threshold = th, metrics = ms\<lparr>failures_gauge := 0\<rparr>, consecutive_failures = 0,
                current_incident = None, incident_log = lg\<rparr>)"

definition opened_event :: "datetime \<Rightarrow> string \<Rightarrow> string \<Rightarrow> int \<Rightarrow> log_event" where
  "opened_event t i reason n =
     [(''timestamp'', JStr (iso_z t)), (''event_type'', JStr ''incident_opened''),
      (''level'', JStr ''ERROR''), (''message'', JStr ''Gateway incident opened''),
      (''incident_id'', JStr i), (''reason'', JStr reason), (''consecutive_failures'', JInt n)]"

definition closed_event :: "datetime \<Rightarrow> string \<Rightarrow> log_event" where
  "closed_event t i =
     [(''timestamp'', JStr (iso_z t)), (''event_type'', JStr ''incident_closed''),
      (''level'', JStr ''INFO''), (''message'', JStr ''Gateway incident closed''),
      (''incident_id'', JStr i)]"

definition record_failure ::
    "datetime \<Rightarrow> string \<Rightarrow> string \<Rightarrow> incident_manager \<Rightarrow> incident option \<times> incident_manager" where
  "record_failure t new_id reason m0 =
     (let n = consecutive_failures m0 + 1;
          m = m0\<lparr>consecutive_failures := n, metrics := (metrics m0)\<lparr>failures_gauge := n\<rparr>\<rparr>
      in if n \<noteq> failure_threshold m \<or> current_incident m \<noteq> None then (None, m)
         else
           (let i = \<lparr>inc_id = new_id, inc_reason = reason, inc_opened_at = t, inc_failures = n,
                     inc_closed_at = None\<rparr>
            in (Some i,
                m\<lparr>current_incident := Some i,
                  metrics := (metrics m)\<lparr>incidents_total := Suc (incidents_total (metrics m))\<rparr>,
                  incident_log := incident_log m @ [opened_event t new_id reason n]\<rparr>)))"

definition record_success ::
    "datetime \<Rightarrow> incident_manager \<Rightarrow> incident option \<times> incident_manager" where
  "record_success t m0 =
     (let m = m0\<lparr>consecutive_failures := 0, metrics := (metrics m0)\<lparr>failures_gauge := 0\<rparr>\<rparr>
      in case current_incident m of
           None \<Rightarrow> (None, m)
         | Some i \<Rightarrow>
             (Some (i\<lparr>inc_closed_at := Some t\<rparr>),
              m\<lparr>current_incident := None,
                incident_log := incident_log m @ [closed_event t (inc_id i)]\<rparr>))"

section \<open>Sequences of observations\<close>

text \<open>One observation: whether it was a success, the clock, the next id and the reason.\<close>

type_synonym observation = "bool \<times> datetime \<times> string \<times> string"

fun observe :: "observation \<Rightarrow> incident_manager \<Rightarrow> incident option \<times> incident_manager" where
  "observe (ok, t, i, reason) m = (if ok then record_success t m else record_failure t i reason m)"

fun observe_all :: "observation list \<Rightarrow> incident_manager \<Rightarrow> incident_manager" where
  "observe_all [] m = m"
| "observe_all (x # xs) m = observe_all xs (snd (observe x m))"

definition trailing_failures :: "observation list \<Rightarrow> nat" where
  "trailing_failures xs = length (takeWhile (\<lambda>x. \<not> fst x) (rev xs))"

text \<open>
  The outages of a history: the points at which the failures in a row are exactly as many as the
  threshold, so one for each maximal run of failures that is long enough.
\<close>

definition outages :: "nat \<Rightarrow> observation list \<Rightarrow> nat" where
  "outages th xs = card {k. k \<le> length xs \<and> trailing_failures (take k xs) = th}"

text \<open>
  Reading the log back: the id of the incident that is open after the events, or \<open>None\<close> for a log
  that opens an incident over another or closes one that is not open.
\<close>

fun replay_event :: "string option option \<Rightarrow> log_event \<Rightarrow> string option option" where
  "replay_event None e = None"
| "replay_event (Some s) e =
     (case (map_of e ''event_type'', map_of e ''incident_id'') of
        (Some (JStr ty), Some (JStr i)) \<Rightarrow>
          if ty = ''incident_opened'' \<and> s = None then Some (Some i)
          else if ty = ''incident_closed'' \<and> s = Some i then Some None
          else None
      | _ \<Rightarrow> None)"

definition replay_log :: "log_event list \<Rightarrow> string option option" where
  "replay_log es = foldl replay_event (Some None) es"

definition incident_inv :: "incident_manager \<Rightarrow> bool" where
  "incident_inv m \<longleftrightarrow> 1 \<le> failure_threshold m \<and> 0 \<le> consecutive_failures m
     \<and> failures_gauge (metrics m) = consecutive_failures m
     \<and> (current_incident m \<noteq> None \<longleftrightarrow> failure_threshold m \<le> consecutive_failures m)
     \<and> pred_option (\<lambda>i. is_open i \<and> inc_failures i = failure_threshold m) (current_incident m)"

lemma incident_inv_failure: "incident_inv m \<Longrightarrow> incident_inv (snd (record_failure t i reason m))"
  by (auto simp: incident_inv_def record_failure_def Let_def is_open_def)

lemma incident_inv_success: "incident_inv m \<Longrightarrow> incident_inv (snd (record_success t m))"
  by (auto simp: incident_inv_def record_success_def Let_def split: option.split)

lemma incident_inv_new: "new_manager th ms lg = Inr m \<Longrightarrow> incident_inv m"
  by (auto simp: incident_inv_def new_manager_def split: if_splits)

lemma observe_all_snoc: "observe_all (xs @ [x]) m = snd (observe x (observe_all xs m))"
  by (induction xs arbitrary: m) auto

lemma trailing_failures_snoc [simp]:
  "trailing_failures (xs @ [x]) = (if fst x then 0 else Suc (trailing_failures xs))"
  by (simp add: trailing_failures_def)

lemma outages_snoc:
  "0 < th \<Longrightarrow> outages th (xs @ [x]) =
     outages th xs + (if \<not> fst x \<and> Suc (trailing_failures xs) = th then 1 else 0)"
proof -
  assume th: "0 < th"
  let ?A = "{k. k \<le> length xs \<and> trailing_failures (take k xs) = th}"
  let ?B = "if \<not> fst x \<and> Suc (trailing_failures xs) = th then {Suc (length xs)} else {}"
  have "{k. k \<le> length (xs @ [x]) \<and> trailing_failures (take k (xs @ [x])) = th} = ?A \<union> ?B"
    using th by (cases "fst x") (auto simp: le_Suc_eq)
  moreover have "card (?A \<union> ?B) = card ?A + card ?B" by (rule card_Un_disjoint) auto
  ultimately show ?thesis by (simp add: outages_def)
qed

lemma observed_manager:
  assumes new: "new_manager th ms lg = Inr m"
  defines "m' \<equiv> \<lambda>xs. observe_all xs m"
  shows "incident_inv (m' xs) \<and> failure_threshold (m' xs) = th
         \<and> consecutive_failures (m' xs) = int (trailing_failures xs)
         \<and> incidents_total (metrics (m' xs)) = incidents_total ms + outages (nat th) xs"
proof (induction xs rule: rev_induct)
  case Nil
  from new incident_inv_new [OF new] show ?case
    by (auto simp: m'_def new_manager_def trailing_failures_def outages_def split: if_splits)
next
  case (snoc x xs)
  obtain ok t i reason where x: "x = (ok, t, i, reason)" by (cases x)
  then have observe_eq: "observe x m = (if ok then record_success t m else record_failure t i reason m)" for m
    by simp
  have th: "1 \<le> th" using new by (auto simp: new_manager_def split: if_splits)
  have step: "m' (xs @ [x]) = snd (observe x (m' xs))" by (simp add: m'_def observe_all_snoc)
  have inv: "incident_inv (m' (xs @ [x]))"
    using snoc.IH by (simp only: step observe_eq) (simp add: incident_inv_failure incident_inv_success)
  show ?case
  proof (cases ok)
    case True
    with snoc.IH inv step th show ?thesis
      by (auto simp: x record_success_def Let_def outages_snoc split: option.split)
  next
    case False
    have "current_incident (m' xs) = None" if "int (trailing_failures xs) + 1 = th"
      using snoc.IH that by (auto simp: incident_inv_def)
    with False snoc.IH inv step th show ?thesis
      by (auto simp: x record_failure_def Let_def outages_snoc)
  qed
qed

lemma replay_observe:
  assumes "replay_log (incident_log m) = Some (map_option inc_id (current_incident m))"
  shows "replay_log (incident_log (snd (observe x m)))
           = Some (map_option inc_id (current_incident (snd (observe x m))))"
  using assms
  by (cases x) (auto simp: record_success_def record_failure_def Let_def replay_log_def opened_event_def
      closed_event_def split: option.split)

lemma replay_observe_all:
  "replay_log (incident_log m) = Some (map_option inc_id (current_incident m)) \<Longrightarrow>
   replay_log (incident_log (observe_all xs m))
     = Some (map_option inc_id (current_incident (observe_all xs m)))"
  by (induction xs arbitrary: m) (simp_all add: replay_observe)

section \<open>Correctness\<close>

definition down :: observation where
  "down = (False, noon, ''i'', ''http_503'')"

definition up :: observation where
  "up = (True, noon, ''i'', [])"

text \<open>
  C35. One incident per outage: after any history of health results an incident is open exactly when
  the failures in a row have reached the threshold, the incidents counted are the runs of failures
  that have reached it, and the gauge shows the failures in a row.
\<close>

theorem incidents_match_outages:
  assumes "new_manager th ms lg = Inr m"
  shows "let m' = observe_all xs m
         in (current_incident m' \<noteq> None \<longleftrightarrow> th \<le> int (trailing_failures xs))
            \<and> incidents_total (metrics m') = incidents_total ms + outages (nat th) xs
            \<and> failures_gauge (metrics m') = int (trailing_failures xs)"
  using observed_manager [OF assms, of xs] by (auto simp: incident_inv_def Let_def)

theorem incidents_match_outages_witness:
  "incidents_total (metrics (observe_all [down, down, down, down, up, down, down, up, down, down, down]
     \<lparr>failure_threshold = 3, metrics = \<lparr>incidents_total = 0, failures_gauge = 0\<rparr>,
      consecutive_failures = 0, current_incident = None, incident_log = []\<rparr>)) = 2
   \<and> outages 3 [down, down, down, down, up, down, down, up, down, down, down] = 2"
proof -
  let ?m = "\<lparr>failure_threshold = 3, metrics = \<lparr>incidents_total = 0, failures_gauge = 0\<rparr>,
      consecutive_failures = 0, current_incident = None, incident_log = []\<rparr>"
  let ?xs = "[down, down, down, down, up, down, down, up, down, down, down]"
  have "new_manager 3 \<lparr>incidents_total = 0, failures_gauge = 7\<rparr> [] = Inr ?m" by (simp add: new_manager_def)
  from incidents_match_outages [OF this, of ?xs]
  have "incidents_total (metrics (observe_all ?xs ?m)) = outages 3 ?xs" by (simp add: Let_def)
  moreover have "incidents_total (metrics (observe_all ?xs ?m)) = 2"
    by (simp add: down_def up_def record_failure_def record_success_def Let_def)
  ultimately show ?thesis by simp
qed

text \<open>
  The incident log replays: it opens an incident only when none is open, closes only the open one,
  by its id, and after any history leaves open exactly the manager's current incident.
\<close>

theorem incident_log_replays:
  assumes "new_manager th ms [] = Inr m"
  shows "replay_log (incident_log (observe_all xs m))
           = Some (map_option inc_id (current_incident (observe_all xs m)))"
  using assms
  by (intro replay_observe_all) (auto simp: new_manager_def replay_log_def split: if_splits)

theorem incident_log_replays_witness:
  "replay_log (incident_log (observe_all [down, down, up]
     \<lparr>failure_threshold = 2, metrics = \<lparr>incidents_total = 0, failures_gauge = 0\<rparr>,
      consecutive_failures = 0, current_incident = None, incident_log = []\<rparr>)) = Some None"
proof -
  let ?m = "\<lparr>failure_threshold = 2, metrics = \<lparr>incidents_total = 0, failures_gauge = 0\<rparr>,
      consecutive_failures = 0, current_incident = None, incident_log = []\<rparr>"
  have new: "new_manager 2 \<lparr>incidents_total = 0, failures_gauge = 0\<rparr> [] = Inr ?m"
    by (simp add: new_manager_def)
  have "current_incident (observe_all [down, down, up] ?m) = None"
    by (simp add: down_def up_def record_failure_def record_success_def Let_def)
  with incident_log_replays [OF new, of "[down, down, up]"] show ?thesis by simp
qed

end
