(* ===== verification/DockerManager.thy ===== *)
theory DockerManager
  imports Models
begin

text \<open>
  The guarded Docker operations (\<^verbatim>\<open>app/docker_manager.py\<close>): the allowlist, the two guards of
  \<^verbatim>\<open>restart_container\<close> with the events they log, and the polling loop of \<^verbatim>\<open>wait_for_running\<close>. The
  Docker client is not part of the sources: what its calls return or raise are arguments.
\<close>

section \<open>Restarts\<close>

text \<open>\<^verbatim>\<open>{name.strip() for name in allowed_containers if name.strip()}\<close>\<close>

definition make_allowed :: "string set \<Rightarrow> string set" where
  "make_allowed names = strip ` {n \<in> names. strip n \<noteq> []}"

text \<open>The restarts asked of the client, in order, and the events logged.\<close>

record docker_world =
  dk_restarts :: "string list"
  dk_log :: "log_event list"

definition block_event :: "datetime \<Rightarrow> string \<Rightarrow> string \<Rightarrow> log_event" where
  "block_event now name reason =
     [(''event_type'', JStr ''SECURITY_BLOCK''), (''timestamp'', JStr (iso_z now)),
      (''level'', JStr ''ERROR''), (''message'', JStr ''Container restart blocked by security policy''),
      (''container'', JStr name), (''reason'', JStr reason)]"

definition security_block :: "datetime \<Rightarrow> string \<Rightarrow> string \<Rightarrow> (docker_world, unit) cmd" where
  "security_block now name reason w =
     (Inl (SecurityBlockError reason), w\<lparr>dk_log := dk_log w @ [block_event now name reason]\<rparr>)"

text \<open>
  \<open>get\<close> is what \<^verbatim>\<open>containers.get(name)\<close> gives: an exception or the labels of the container;
  \<open>outcome\<close> is what its \<^verbatim>\<open>restart(timeout=10)\<close> does.
\<close>

definition restart_container ::
    "string set \<Rightarrow> datetime \<Rightarrow> (string \<Rightarrow> exn + (string \<times> string) list) \<Rightarrow> unit result \<Rightarrow> string \<Rightarrow>
     (docker_world, unit) cmd" where
  "restart_container allowed now get outcome name =
     (if name \<notin> allowed then security_block now name ''container_not_in_allowlist''
      else bind_cmd (of_result (get name)) (\<lambda>labels.
        if map_of labels ''io.nexguard.managed'' \<noteq> Some ''true''
        then security_block now name ''managed_label_missing''
        else (\<lambda>w. (outcome, w\<lparr>dk_restarts := dk_restarts w @ [name]\<rparr>))))"

section \<open>Waiting for a container\<close>

text \<open>
  The loop of \<^verbatim>\<open>wait_for_running\<close>: \<open>reload k\<close> is the status the container has after the \<open>k\<close>-th
  \<^verbatim>\<open>reload()\<close>, or what it raises, \<open>clock k\<close> the \<open>k\<close>-th reading of the monotonic clock; the sleeps
  are collected. The source's loop has no bound of its own, so the value is \<open>None\<close> when it does
  not end.
\<close>

partial_function (option) wait_loop ::
    "real \<Rightarrow> real \<Rightarrow> (nat \<Rightarrow> real) \<Rightarrow> (nat \<Rightarrow> exn + string) \<Rightarrow> nat \<Rightarrow> real list \<Rightarrow>
     ((exn + bool) \<times> real list) option" where
  "wait_loop poll deadline clock reload k slept =
     (case reload k of
        Inl e \<Rightarrow> Some (Inl e, slept)
      | Inr st \<Rightarrow>
          if st = ''running'' then Some (Inr True, slept)
          else
            (let remaining = deadline - clock (Suc k)
             in if remaining \<le> 0 then Some (Inr False, slept)
                else wait_loop poll deadline clock reload (Suc k) (slept @ [min poll remaining])))"

definition wait_for_running ::
    "unit result \<Rightarrow> real \<Rightarrow> real \<Rightarrow> (nat \<Rightarrow> real) \<Rightarrow> (nat \<Rightarrow> exn + string) \<Rightarrow>
     ((exn + bool) \<times> real list) option" where
  "wait_for_running get timeout poll clock reload =
     (if timeout < 0 \<or> poll \<le> 0
      then Some (Inl (ValueError ''timeout must be non-negative and poll_interval must be positive''), [])
      else case get of
             Inl e \<Rightarrow> Some (Inl e, [])
           | Inr u \<Rightarrow> wait_loop poll (clock 0 + timeout) clock reload 0 [])"

section \<open>The restart guards\<close>

lemma restart_container_cases:
  "restart_container allowed now get outcome name w = (r, w') \<Longrightarrow>
     (name \<in> allowed \<and> (\<exists>labels. get name = Inr labels \<and> map_of labels ''io.nexguard.managed'' = Some ''true'')
        \<and> r = outcome \<and> w' = w\<lparr>dk_restarts := dk_restarts w @ [name]\<rparr>)
     \<or> (name \<in> allowed \<and> (\<exists>e. get name = Inl e \<and> r = Inl e) \<and> w' = w)
     \<or> (\<exists>reason. r = Inl (SecurityBlockError reason)
          \<and> (name \<notin> allowed \<and> reason = ''container_not_in_allowlist'' \<or>
             (\<exists>labels. get name = Inr labels \<and> map_of labels ''io.nexguard.managed'' \<noteq> Some ''true'')
               \<and> reason = ''managed_label_missing'')
          \<and> w' = w\<lparr>dk_log := dk_log w @ [block_event now name reason]\<rparr>)"
  by (auto simp: restart_container_def security_block_def bind_cmd_def split: if_splits sum.splits)

text \<open>
  Any sequence of restart requests: each comes with the client's behaviour at that time, and the
  caller may go on after an exception.
\<close>

record restart_request =
  rq_name :: string
  rq_now :: datetime
  rq_get :: "string \<Rightarrow> exn + (string \<times> string) list"
  rq_outcome :: "unit result"

fun restart_all :: "string set \<Rightarrow> restart_request list \<Rightarrow> docker_world \<Rightarrow> docker_world" where
  "restart_all allowed [] w = w"
| "restart_all allowed (q # qs) w =
     restart_all allowed qs
       (snd (restart_container allowed (rq_now q) (rq_get q) (rq_outcome q) (rq_name q) w))"

definition permitted :: "string set \<Rightarrow> restart_request \<Rightarrow> bool" where
  "permitted allowed q \<longleftrightarrow> rq_name q \<in> allowed \<and>
     (case rq_get q (rq_name q) of
        Inl e \<Rightarrow> False
      | Inr labels \<Rightarrow> map_of labels ''io.nexguard.managed'' = Some ''true'')"

definition blocked :: "string set \<Rightarrow> restart_request \<Rightarrow> bool" where
  "blocked allowed q \<longleftrightarrow> rq_name q \<notin> allowed \<or>
     (case rq_get q (rq_name q) of
        Inl e \<Rightarrow> False
      | Inr labels \<Rightarrow> map_of labels ''io.nexguard.managed'' \<noteq> Some ''true'')"

lemma restart_container_world:
  "snd (restart_container allowed (rq_now q) (rq_get q) (rq_outcome q) (rq_name q) w) =
     (if permitted allowed q then w\<lparr>dk_restarts := dk_restarts w @ [rq_name q]\<rparr>
      else if blocked allowed q
      then w\<lparr>dk_log := dk_log w @ [block_event (rq_now q) (rq_name q)
               (if rq_name q \<in> allowed then ''managed_label_missing'' else ''container_not_in_allowlist'')]\<rparr>
      else w)"
  by (auto simp: restart_container_def permitted_def blocked_def security_block_def bind_cmd_def
      split: sum.split)

text \<open>
  C25. The restart policy, over any sequence of requests against a client that may change between
  them: the containers restarted are exactly those of the requests that name an allowlisted container
  which carried the managed label at that moment, in order, and each request the policy turns away
  leaves exactly one \<^verbatim>\<open>SECURITY_BLOCK\<close> event.
\<close>

theorem restarts_are_permitted:
  "dk_restarts (restart_all allowed qs w) = dk_restarts w @ map rq_name (filter (permitted allowed) qs)
   \<and> length (dk_log (restart_all allowed qs w)) = length (dk_log w) + length (filter (blocked allowed) qs)"
proof (induction qs arbitrary: w)
  case (Cons q qs)
  have "\<not> (permitted allowed q \<and> blocked allowed q)"
    by (auto simp: permitted_def blocked_def split: sum.splits)
  with Cons show ?case by (simp add: restart_container_world)
qed simp

section \<open>The wait ends\<close>

text \<open>
  The clock moves on by at least each sleep: \<open>clock (k + 2)\<close>, the reading after the sleep that
  follows reading \<open>k + 1\<close>.
\<close>

definition sleeps_pass :: "real \<Rightarrow> real \<Rightarrow> (nat \<Rightarrow> real) \<Rightarrow> bool" where
  "sleeps_pass poll deadline clock \<longleftrightarrow> clock 0 \<le> clock 1 \<and>
     (\<forall>k. clock (Suc k) < deadline \<longrightarrow>
        clock (Suc k) + min poll (deadline - clock (Suc k)) \<le> clock (Suc (Suc k)))"

lemma wait_loop_ends:
  assumes pass: "sleeps_pass poll deadline clock" and poll: "0 < poll"
    and fuel: "deadline - clock (Suc k) \<le> real n * poll"
  shows "\<exists>r slept'. wait_loop poll deadline clock reload k slept = Some (r, slept @ slept')
     \<and> length slept' \<le> n \<and> sum_list slept' \<le> max 0 (deadline - clock (Suc k))
     \<and> (\<forall>p \<in> set slept'. 0 < p \<and> p \<le> poll)"
  using fuel
proof (induction n arbitrary: k slept)
  case 0
  then show ?case by (subst wait_loop.simps) (auto simp: Let_def split: sum.split)
next
  case (Suc n)
  let ?rem = "deadline - clock (Suc k)"
  show ?case
  proof (cases "\<exists>st. reload k = Inr st \<and> st \<noteq> ''running'' \<and> 0 < ?rem")
    case False
    then show ?thesis by (subst wait_loop.simps) (auto simp: Let_def split: sum.split)
  next
    case True
    then obtain st where st: "reload k = Inr st" "st \<noteq> ''running''" "0 < ?rem" by blast
    then have next_clock: "clock (Suc k) + min poll ?rem \<le> clock (Suc (Suc k))"
      using pass by (simp add: sleeps_pass_def)
    have nonneg: "0 \<le> real n * poll" using poll by simp
    have le: "deadline - clock (Suc (Suc k)) \<le> real n * poll"
    proof (cases "poll \<le> ?rem")
      case True
      then show ?thesis using next_clock Suc.prems by (simp add: algebra_simps)
    next
      case False
      then show ?thesis using next_clock nonneg by (simp add: min_def)
    qed
    obtain r s' where IH: "wait_loop poll deadline clock reload (Suc k) (slept @ [min poll ?rem])
         = Some (r, (slept @ [min poll ?rem]) @ s')"
      and s': "length s' \<le> n" "sum_list s' \<le> max 0 (deadline - clock (Suc (Suc k)))"
        "\<forall>p \<in> set s'. 0 < p \<and> p \<le> poll"
      using Suc.IH [OF le, of "slept @ [min poll ?rem]"] by blast
    have "wait_loop poll deadline clock reload k slept = Some (r, slept @ (min poll ?rem # s'))"
      using st IH by (subst wait_loop.simps) (simp add: Let_def)
    moreover have "sum_list (min poll ?rem # s') \<le> max 0 ?rem"
      using s'(2) next_clock st(3) by (auto simp: min_def max_def split: if_splits)
    ultimately show ?thesis using s' st(3) poll
      by (intro exI [of _ r] exI [of _ "min poll ?rem # s'"]) auto
  qed
qed

text \<open>
  Waiting ends in time: with a clock that moves on by at least each sleep, \<^verbatim>\<open>wait_for_running\<close>
  returns or raises for every behaviour of the container, after at most \<open>n\<close> sleeps when \<open>n\<close> polls
  cover the timeout; each sleep is positive and at most a poll interval, and together they are at
  most the timeout.
\<close>

theorem wait_for_running_ends:
  assumes "0 \<le> timeout" and "0 < poll" and "timeout \<le> real n * poll"
    and "sleeps_pass poll (clock 0 + timeout) clock"
  shows "\<exists>r slept. wait_for_running get timeout poll clock reload = Some (r, slept)
     \<and> length slept \<le> n \<and> sum_list slept \<le> timeout \<and> (\<forall>p \<in> set slept. 0 < p \<and> p \<le> poll)"
proof (cases get)
  case (Inl e)
  with assms show ?thesis by (simp add: wait_for_running_def)
next
  case (Inr u)
  have "clock 0 \<le> clock 1" using assms(4) by (simp add: sleeps_pass_def)
  then have "clock 0 + timeout - clock (Suc 0) \<le> real n * poll" using assms(3) by simp
  from wait_loop_ends [OF assms(4,2) this, of reload "[]"] obtain r s where
    "wait_loop poll (clock 0 + timeout) clock reload 0 [] = Some (r, s)" "length s \<le> n"
    "sum_list s \<le> max 0 (clock 0 + timeout - clock (Suc 0))" "\<forall>p \<in> set s. 0 < p \<and> p \<le> poll"
    by auto
  then show ?thesis
    using Inr assms(1,2) \<open>clock 0 \<le> clock 1\<close> by (auto simp: wait_for_running_def max_def split: if_splits)
qed

theorem wait_for_running_ends_witness:
  "\<exists>r slept. wait_for_running (Inr ()) 30 (1/2) (\<lambda>k. 100 + real k / 2) (\<lambda>k. Inr ''exited'') = Some (r, slept)
     \<and> length slept \<le> 60 \<and> sum_list slept \<le> 30"
proof -
  have "sleeps_pass (1/2) (100 + real 0 / 2 + 30) (\<lambda>k. 100 + real k / 2)"
    by (auto simp: sleeps_pass_def field_simps)
  from wait_for_running_ends [OF _ _ _ this, of 60 "Inr ()" "\<lambda>k. Inr ''exited''"]
  show ?thesis by auto
qed

definition answer_ok :: "real \<Rightarrow> (nat \<Rightarrow> real) \<Rightarrow> (nat \<Rightarrow> exn + string) \<Rightarrow> nat \<Rightarrow> bool \<Rightarrow> bool" where
  "answer_ok deadline clock reload k b \<longleftrightarrow>
     (\<exists>j \<ge> k. (\<forall>i. k \<le> i \<and> i < j \<longrightarrow> (\<exists>st. reload i = Inr st \<and> st \<noteq> ''running''))
        \<and> (\<exists>st. reload j = Inr st \<and> (b \<longleftrightarrow> st = ''running'')) \<and> (b \<or> deadline \<le> clock (Suc j)))"

lemma answer_ok_later:
  assumes "reload k = Inr st" and "st \<noteq> ''running''" and "answer_ok deadline clock reload (Suc k) b"
  shows "answer_ok deadline clock reload k b"
proof -
  obtain j where j: "Suc k \<le> j" "\<forall>i. Suc k \<le> i \<and> i < j \<longrightarrow> (\<exists>st. reload i = Inr st \<and> st \<noteq> ''running'')"
    "\<exists>st. reload j = Inr st \<and> (b \<longleftrightarrow> st = ''running'')" "b \<or> deadline \<le> clock (Suc j)"
    using assms(3) by (auto simp: answer_ok_def)
  have "\<exists>st. reload i = Inr st \<and> st \<noteq> ''running''" if "k \<le> i" "i < j" for i
    using that j(2) assms(1,2) by (cases "i = k") auto
  with j show ?thesis unfolding answer_ok_def by (intro exI [of _ j]) auto
qed

lemma wait_loop_answer:
  assumes "wait_loop poll deadline clock reload k slept = Some y"
  shows "\<forall>b. fst y = Inr b \<longrightarrow> answer_ok deadline clock reload k b"
proof (rule wait_loop.raw_induct [where P = "\<lambda>poll deadline clock reload k slept y.
    \<forall>b. fst y = Inr b \<longrightarrow> answer_ok deadline clock reload k b", OF _ assms])
  fix f :: "real \<Rightarrow> real \<Rightarrow> (nat \<Rightarrow> real) \<Rightarrow> (nat \<Rightarrow> exn + string) \<Rightarrow> nat \<Rightarrow> real list \<Rightarrow> ((exn + bool) \<times> real list) option"
  fix poll deadline clock reload k slept y
  assume IH: "\<And>poll deadline clock reload k slept y. f poll deadline clock reload k slept = Some y \<Longrightarrow>
      \<forall>b. fst y = Inr b \<longrightarrow> answer_ok deadline clock reload k b"
    and run: "(case reload k of Inl e \<Rightarrow> Some (Inl e, slept)
      | Inr st \<Rightarrow> if st = ''running'' then Some (Inr True, slept)
          else let remaining = deadline - clock (Suc k)
               in if remaining \<le> 0 then Some (Inr False, slept)
                  else f poll deadline clock reload (Suc k) (slept @ [min poll remaining])) = Some y"
  show "\<forall>b. fst y = Inr b \<longrightarrow> answer_ok deadline clock reload k b"
  proof (cases "\<exists>st. reload k = Inr st \<and> st \<noteq> ''running'' \<and> clock (Suc k) < deadline")
    case True
    then obtain st where st: "reload k = Inr st" "st \<noteq> ''running''" "clock (Suc k) < deadline" by blast
    then have "f poll deadline clock reload (Suc k) (slept @ [min poll (deadline - clock (Suc k))]) = Some y"
      using run by (simp add: Let_def)
    from IH [OF this] st show ?thesis by (blast intro: answer_ok_later)
  next
    case False
    with run show ?thesis
      by (auto simp: Let_def answer_ok_def split: sum.splits if_splits intro!: exI [of _ k])
  qed
qed

text \<open>
  What the answer means: True is returned at the first poll that finds the container running, and
  False only when every poll so far found it in another status and the deadline has passed after the
  last of them, so no running container is reported as stopped before the deadline.
\<close>

theorem wait_for_running_answer:
  assumes "wait_for_running get timeout poll clock reload = Some (Inr b, slept)"
  shows "\<exists>j. (\<forall>i < j. \<exists>st. reload i = Inr st \<and> st \<noteq> ''running'')
     \<and> (\<exists>st. reload j = Inr st \<and> (b \<longleftrightarrow> st = ''running'')) \<and> (b \<or> clock 0 + timeout \<le> clock (Suc j))"
proof -
  have "wait_loop poll (clock 0 + timeout) clock reload 0 [] = Some (Inr b, slept)"
    using assms by (auto simp: wait_for_running_def split: if_splits sum.splits)
  from wait_loop_answer [OF this] show ?thesis by (auto simp: answer_ok_def)
qed

theorem wait_for_running_answer_witness:
  "\<exists>j. (\<forall>i < j. \<exists>st. [Inr ''restarting'', Inr ''running''] ! i = (Inr st :: exn + string) \<and> st \<noteq> ''running'')
     \<and> [Inr ''restarting'', Inr ''running''] ! j = (Inr ''running'' :: exn + string)"
proof -
  let ?reload = "\<lambda>k. [Inr ''restarting'', Inr ''running''] ! k :: exn + string"
  have "wait_for_running (Inr ()) 30 (1/2) (\<lambda>k. real k / 2) ?reload = Some (Inr True, [1/2])"
    by (simp add: wait_for_running_def wait_loop.simps Let_def)
  from wait_for_running_answer [OF this] show ?thesis by auto
qed

end
