(* ===== verification/Gateway.thy ===== *)
theory Gateway
  imports ConfigChecker HealthMonitor
begin

text \<open>
  The gateway simulator (\<^verbatim>\<open>gateway-simulator/app\<close>): its own copy of the schema
  (\<^verbatim>\<open>schemas.py\<close>), the loading of the configuration (\<^verbatim>\<open>config.py\<close>) and the health endpoint
  (\<^verbatim>\<open>main.py\<close>), and what the controller's health check makes of its answers.
\<close>

section \<open>The simulator\<close>

definition sim_sensor_config :: schema where
  "sim_sensor_config = Model [(''id'', StrMin 1), (''type'', StrMin 1), (''unit'', StrMin 1)]"

definition sim_gateway_config :: schema where
  "sim_gateway_config = Model
     [(''id'', StrMin 1), (''name'', StrMin 1), (''location'', StrMin 1),
      (''sensors'', ListMin 1 sim_sensor_config), (''reporting_interval_seconds'', IntGt 0)]"

definition sim_gateway_document :: schema where
  "sim_gateway_document = Model [(''gateway'', sim_gateway_config)]"

definition get_config_path :: "(string \<Rightarrow> string option) \<Rightarrow> string" where
  "get_config_path env =
     (case env ''GATEWAY_CONFIG_PATH'' of None \<Rightarrow> ''/data/gateway/gateway.yaml'' | Some p \<Rightarrow> p)"

text \<open>
  \<^verbatim>\<open>load_config\<close>: the body of the \<^verbatim>\<open>try\<close>, and its \<^verbatim>\<open>except\<close>, which turns the listed classes into
  a \<^verbatim>\<open>ValueError\<close>. The value is the validated data.
\<close>

definition load_config_body :: "yaml_loader \<Rightarrow> validator \<Rightarrow> byte list result \<Rightarrow> yval result" where
  "load_config_body safe_load errors src =
     bind_result (read_text src) (\<lambda>raw.
       if blank raw then Inl (ValueError ''configuration is empty'')
       else bind_result (safe_load raw) (\<lambda>parsed.
         if \<not> is_dict parsed then Inl (ValueError ''configuration root must be a mapping'')
         else if errors sim_gateway_document parsed \<noteq> [] then Inl ValidationError
         else Inr parsed))"

definition load_config :: "yaml_loader \<Rightarrow> validator \<Rightarrow> byte list result \<Rightarrow> yval result" where
  "load_config safe_load errors src =
     (case load_config_body safe_load errors src of
        Inr v \<Rightarrow> Inr v
      | Inl e \<Rightarrow>
          if is_os_error e \<or> is_value_error e \<or> e = YAMLError then Inl (ValueError ''config_invalid'')
          else Inl e)"

definition config_is_valid :: "yaml_loader \<Rightarrow> validator \<Rightarrow> byte list result \<Rightarrow> bool result" where
  "config_is_valid safe_load errors src =
     (case load_config safe_load errors src of
        Inr v \<Rightarrow> Inr True
      | Inl e \<Rightarrow> if is_value_error e then Inr False else Inl e)"

text \<open>
  The endpoint: the status code and body, and the value of \<^verbatim>\<open>CONFIG_VALID\<close>; an exception that leaves
  the handler is answered with status 500 by the web framework and leaves the gauge alone.
\<close>

definition health :: "yaml_loader \<Rightarrow> validator \<Rightarrow> byte list result \<Rightarrow> int \<Rightarrow> response \<times> int" where
  "health safe_load errors src gauge =
     (case config_is_valid safe_load errors src of
        Inr True \<Rightarrow> ((200, Inr (JDict [(''status'', JStr ''healthy'')])), 1)
      | Inr False \<Rightarrow>
          ((503, Inr (JDict [(''status'', JStr ''unhealthy''), (''reason'', JStr ''config_invalid'')])), 0)
      | Inl e \<Rightarrow> ((500, Inl (ValueError ''Expecting value'')), gauge))"

section \<open>The two validations agree\<close>

text \<open>What is documented of the strict engine: a value that is no mapping does not fit a model.\<close>

definition rejects_non_dicts :: "validator \<Rightarrow> bool" where
  "rejects_non_dicts errors \<longleftrightarrow> (\<forall>fs v. errors (Model fs) v = [] \<longrightarrow> is_dict v)"

lemma sim_schema_eq: "sim_gateway_document = gateway_document"
  by (simp add: sim_gateway_document_def sim_gateway_config_def sim_sensor_config_def
      gateway_document_def gateway_config_def sensor_config_def)

lemma config_is_valid_eq:
  "config_is_valid safe_load errors src =
     (let caught = \<lambda>e. is_os_error e \<or> is_value_error e \<or> e = YAMLError
      in case read_text src of
           Inl e \<Rightarrow> if caught e then Inr False else Inl e
         | Inr t \<Rightarrow>
             if blank t then Inr False
             else (case safe_load t of
                     Inl e \<Rightarrow> if caught e then Inr False else Inl e
                   | Inr v \<Rightarrow> Inr (is_dict v \<and> errors gateway_document v = [])))"
proof (cases "read_text src")
  case (Inr t)
  then show ?thesis
    by (cases "safe_load t")
      (simp_all add: config_is_valid_def load_config_def load_config_body_def sim_schema_eq Let_def)
qed (simp add: config_is_valid_def load_config_def load_config_body_def Let_def)

lemma config_is_valid_True:
  assumes "rejects_non_dicts errors"
  shows "config_is_valid safe_load errors src = Inr True \<longleftrightarrow> config_ok safe_load errors src"
proof -
  have "is_dict v" if "errors gateway_document v = []" for v
    using assms that by (auto simp: rejects_non_dicts_def gateway_document_def)
  then show ?thesis
    by (auto simp: config_is_valid_eq config_ok_def read_text_cases blank_newlines Let_def split: sum.splits)
qed

text \<open>
  C34. The gateway and the controller agree on the configuration: whenever the controller's check
  returns a verdict, the simulator's check returns the same verdict for the same file; and when the
  controller's check raises a \<^verbatim>\<open>ValueError\<close>, the simulator still answers, with an invalid
  configuration.
\<close>

theorem validations_agree:
  assumes strict: "rejects_non_dicts errors"
  shows "(check_config safe_load errors src = Inr (b, reason) \<longrightarrow> config_is_valid safe_load errors src = Inr b)
     \<and> (check_config safe_load errors src = Inl e \<and> is_value_error e
          \<longrightarrow> config_is_valid safe_load errors src = Inr False)"
proof -
  have "config_is_valid safe_load errors src = Inr b"
    if c: "check_config safe_load errors src = Inr (b, reason)"
  proof (cases b)
    case True
    with check_config_Inr [OF c] config_is_valid_True [OF strict] show ?thesis by simp
  next
    case False
    with check_config_Inr [OF c] have no: "\<not> config_ok safe_load errors src" by simp
    with c have "\<exists>b. config_is_valid safe_load errors src = Inr b"
      by (auto simp: check_config_def reading_verdict_def check_config_text_eq config_is_valid_eq Let_def
          split: sum.splits if_splits)
    with False no config_is_valid_True [OF strict] show ?thesis by (metis (full_types))
  qed
  moreover have "config_is_valid safe_load errors src = Inr False"
    if c: "check_config safe_load errors src = Inl e" and e: "is_value_error e"
  proof -
    from c have "\<exists>b. config_is_valid safe_load errors src = Inr b \<and> \<not> config_ok safe_load errors src"
      using e by (auto simp: check_config_raises_iff config_is_valid_eq read_text_cases blank_newlines
          config_ok_def Let_def)
    with config_is_valid_True [OF strict] show ?thesis by (metis (full_types))
  qed
  ultimately show ?thesis by blast
qed

theorem validations_agree_witness:
  "config_is_valid demo_load demo_errors (Inr (ascii_bytes ''2024-13-45'')) = Inr False"
proof -
  have "rejects_non_dicts demo_errors" by (simp add: rejects_non_dicts_def demo_errors_def)
  from validations_agree [OF this, where safe_load = demo_load and
      src = "Inr (ascii_bytes ''2024-13-45'')" and e = "ValueError ''month must be in 1..12''"]
    check_config_raises_example
  show ?thesis by simp
qed

text \<open>
  The controller sees what the gateway sees: whatever the file holds, a health check of the
  simulator returns, is ok exactly when the configuration is valid, and otherwise has the reason
  \<^verbatim>\<open>config_invalid\<close>, or \<^verbatim>\<open>http_500\<close> when the handler itself raised; the gauge follows the verdict.
\<close>

theorem health_check_reflects_config:
  assumes "rejects_non_dicts errors"
  shows "\<exists>r ev. check_once a b t (Inr (fst (health safe_load errors src g))) = Inr (r, ev)
     \<and> (hr_ok r \<longleftrightarrow> config_ok safe_load errors src)
     \<and> hr_reason r = (case config_is_valid safe_load errors src of
          Inr True \<Rightarrow> ''ok'' | Inr False \<Rightarrow> ''config_invalid'' | Inl e \<Rightarrow> ''http_500'')
     \<and> snd (health safe_load errors src g) = (case config_is_valid safe_load errors src of
          Inr True \<Rightarrow> 1 | Inr False \<Rightarrow> 0 | Inl e \<Rightarrow> g)"
proof -
  have http: "''http_'' @ show_int 500 = ''http_500''"
    by (simp add: show_int_def show_nat.simps digit_char_def) code_simp
  note ok = config_is_valid_True [OF assms, of safe_load src]
  let ?d = "max 0 (b - a)"
  show ?thesis
  proof (cases "config_is_valid safe_load errors src")
    case (Inl e)
    have "check_response t ?d (500, Inl (ValueError ''Expecting value'')) =
        Inr \<lparr>hr_ok = False, hr_reason = ''http_'' @ show_int 500, hr_checked_at = t,
             hr_status_code = Some 500, hr_duration = ?d\<rparr>"
      by (simp add: check_response_def failure_reason_def Let_def)
    from check_once_Inr [OF this, folded http] Inl ok http show ?thesis by (simp add: health_def)
  next
    case (Inr v)
    have "check_response t ?d (503, Inr (JDict [(''status'', JStr ''unhealthy''), (''reason'', JStr ''config_invalid'')])) =
        Inr \<lparr>hr_ok = False, hr_reason = ''config_invalid'', hr_checked_at = t,
             hr_status_code = Some 503, hr_duration = ?d\<rparr>"
      and "check_response t ?d (200, Inr (JDict [(''status'', JStr ''healthy'')])) =
        Inr \<lparr>hr_ok = True, hr_reason = ''ok'', hr_checked_at = t,
             hr_status_code = Some 200, hr_duration = ?d\<rparr>"
      by (simp_all add: check_response_def failure_reason_def payload_reason_def Let_def)
    from this [THEN check_once_Inr] Inr ok show ?thesis by (cases v) (simp_all add: health_def)
  qed
qed

theorem health_check_reflects_config_witness:
  "\<exists>r ev. check_once 0 1 noon (Inr (fst (health demo_load demo_errors (Inr (ascii_bytes ''{'')) 1))) = Inr (r, ev)
     \<and> hr_reason r = ''config_invalid''"
proof -
  have r: "rejects_non_dicts demo_errors" by (simp add: rejects_non_dicts_def demo_errors_def)
  have "config_is_valid demo_load demo_errors (Inr (ascii_bytes ''{'')) = Inr False"
    by (simp add: config_is_valid_def load_config_def load_config_body_def read_text_cases decode_utf8_def
        ascii_bytes_def blank_def uni_space_def demo_load_def of_string_def)
  with health_check_reflects_config [OF r, of 0 1 noon demo_load "Inr (ascii_bytes ''{'')" 1]
  show ?thesis by auto
qed

end
