(* ===== verification/Recovery.thy ===== *)
theory Recovery
  imports BackupContract DockerManager
begin

text \<open>
  Recovery (\<^verbatim>\<open>app/recovery.py\<close>): the atomic restoration of the configuration, the admission of an
  attempt (sliding window, cooldown, manual intervention), the two branches of an attempt and the
  readiness loop. The manager's object is a record together with the disk, the Docker world and the
  events logged; what the clocks, Docker and the health checks answer is an input of the attempt.
\<close>

section \<open>Restoring the configuration\<close>

definition restore_backup :: "path \<Rightarrow> path \<Rightarrow> (disk, unit) cmd" where
  "restore_backup backup config =
     bind_cmd (verify_backup backup) (\<lambda>ok.
     if \<not> ok then raise (ValueError ''backup_checksum_invalid'')
     else
       bind_cmd (read_file backup) (\<lambda>contents.
       bind_cmd (make_dir (fst config)) (\<lambda>_.
       bind_cmd
         (catch (bind_cmd (stat_file config) (\<lambda>f. ret (f_mode f, f_gid f)))
            (\<lambda>e. e = FileNotFoundError)
            (\<lambda>e. bind_cmd (stat_dir (fst config)) (\<lambda>gid. ret (0x1B4, gid)))) (\<lambda>(mode, gid).
       bind_cmd (mkstemp (fst config) (''.'' @ snd config @ ''.'') ''.tmp'') (\<lambda>temp.
       on_error
         (bind_cmd (write_file temp contents) (\<lambda>_.
          bind_cmd (fsync_file temp) (\<lambda>_.
          bind_cmd (chmod_file temp mode) (\<lambda>_.
          bind_cmd (chown_file temp gid) (\<lambda>_.
          replace_file temp config)))))
         (unlink_file temp))))))"

section \<open>The manager\<close>

record recovery_result =
  rr_success :: bool
  rr_reason :: string
  rr_restored :: bool

text \<open>The configured fields; the allowlist is the one of the Docker manager it is given.\<close>

record recovery_settings =
  rs_config :: path
  rs_backup_dir :: string
  rs_container :: string
  rs_allowed :: "string set"
  rs_cooldown :: real
  rs_max_recoveries :: int
  rs_window :: real
  rs_wait :: real

record recovery_state =
  rv_status :: string
  rv_attempts :: "real list"
  rv_last :: "real option"
  rv_disk :: disk
  rv_docker :: docker_world
  rv_log :: "log_event list"

text \<open>\<^verbatim>\<open>__post_init__\<close>\<close>

definition new_recovery :: "recovery_settings \<Rightarrow> disk \<Rightarrow> docker_world \<Rightarrow> log_event list \<Rightarrow> recovery_state result" where
  "new_recovery s d w lg =
     (if rs_cooldown s < 0 then Inl (ValueError ''cooldown_seconds must be non-negative'')
      else if rs_max_recoveries s < 1 then Inl (ValueError ''max_recoveries_per_window must be at least 1'')
      else if rs_window s \<le> 0 \<or> rs_wait s < 0
      then Inl (ValueError ''recovery and restart windows must be valid'')
      else Inr \<lparr>rv_status = ''ready'', rv_attempts = [], rv_last = None, rv_disk = d, rv_docker = w,
                rv_log = lg\<rparr>)"

text \<open>
  The inputs of an attempt: the monotonic clock, the wall clock at the \<open>k\<close>-th event of the log, the
  Docker client (see \<open>DockerManager\<close>), the event loop's clock, the health checks that follow, and
  the class name and text of an exception object.
\<close>

record attempt_io =
  io_now :: real
  io_stamp :: "nat \<Rightarrow> datetime"
  io_docker_now :: datetime
  io_get :: "string \<Rightarrow> exn + (string \<times> string) list"
  io_restart :: "unit result"
  io_wait_get :: "unit result"
  io_wait_clock :: "nat \<Rightarrow> real"
  io_reload :: "nat \<Rightarrow> exn + string"
  io_time :: "nat \<Rightarrow> real"
  io_health :: "nat \<Rightarrow> health_result result"
  io_describe :: "exn \<Rightarrow> string \<times> string"

definition recovery_event :: "datetime \<Rightarrow> string \<Rightarrow> string \<Rightarrow> string \<Rightarrow> log_event \<Rightarrow> log_event" where
  "recovery_event t event_type level message context =
     [(''timestamp'', JStr (iso_z t)), (''event_type'', JStr event_type), (''level'', JStr level),
      (''message'', JStr message)] @ context"

definition log_recovery ::
    "attempt_io \<Rightarrow> string \<Rightarrow> string \<Rightarrow> string \<Rightarrow> log_event \<Rightarrow> recovery_state \<Rightarrow> recovery_state" where
  "log_recovery io event_type level message context st =
     st\<lparr>rv_log := rv_log st @ [recovery_event (io_stamp io (length (rv_log st))) event_type level message context]\<rparr>"

definition failed :: "string \<Rightarrow> bool \<Rightarrow> recovery_result" where
  "failed reason restored = \<lparr>rr_success = False, rr_reason = reason, rr_restored = restored\<rparr>"

section \<open>Admission\<close>

text \<open>\<^verbatim>\<open>while self._attempts and now - self._attempts[0] >= window: popleft()\<close>\<close>

definition expire :: "real \<Rightarrow> real \<Rightarrow> real list \<Rightarrow> real list" where
  "expire window now attempts = dropWhile (\<lambda>a. window \<le> now - a) attempts"

text \<open>The result of a refusal, or \<open>None\<close> for an attempt that starts.\<close>

definition admit :: "recovery_settings \<Rightarrow> attempt_io \<Rightarrow> recovery_state \<Rightarrow> recovery_result option \<times> recovery_state" where
  "admit s io st0 =
     (let now = io_now io;
          st = st0\<lparr>rv_attempts := expire (rs_window s) now (rv_attempts st0)\<rparr>
      in if rv_status st = ''manual_intervention_required''
         then (Some (failed ''manual_intervention_required'' False), st)
         else if rs_max_recoveries s \<le> int (length (rv_attempts st))
         then (Some (failed ''manual_intervention_required'' False),
               log_recovery io ''manual_intervention_required'' ''ERROR'' ''Automatic recovery rate limit exceeded''
                 [(''attempts'', JInt (int (length (rv_attempts st))))]
                 (st\<lparr>rv_status := ''manual_intervention_required''\<rparr>))
         else if rv_last st \<noteq> None \<and> now - the (rv_last st) < rs_cooldown s
         then (Some (failed ''cooldown_active'' False),
               log_recovery io ''recovery_deferred'' ''WARNING'' ''Recovery cooldown is active'' [] st)
         else (None,
               log_recovery io ''recovery_started'' ''INFO'' ''Recovery attempt started'' []
                 (st\<lparr>rv_attempts := rv_attempts st @ [now], rv_last := Some now\<rparr>)))"

section \<open>The configuration branch\<close>

definition path_str :: "path \<Rightarrow> string" where
  "path_str p = fst p @ ''/'' @ snd p"

definition log_failure :: "attempt_io \<Rightarrow> string \<Rightarrow> log_event \<Rightarrow> recovery_state \<Rightarrow> recovery_state" where
  "log_failure io = log_recovery io ''recovery_failed'' ''ERROR''"

text \<open>
  The branch for an invalid configuration: \<open>Inr None\<close> when it is restored, \<open>Inr (Some r)\<close> for an
  early return; an exception that no clause catches leaves the attempt.
\<close>

definition restore_branch ::
    "recovery_settings \<Rightarrow> attempt_io \<Rightarrow> recovery_state \<Rightarrow> (exn + recovery_result option) \<times> recovery_state" where
  "restore_branch s io st =
     (case get_latest_backup (rs_backup_dir s) (rv_disk st) of
        (Inl e, d) \<Rightarrow>
          let st = st\<lparr>rv_disk := d\<rparr>
          in if is_os_error e
             then (Inr (Some (failed ''restore_failed'' False)),
                   log_failure io ''Backup directory could not be read''
                     [(''reason'', JStr (snd (io_describe io e)))] st)
             else (Inl e, st)
      | (Inr None, d) \<Rightarrow>
          (Inr (Some (failed ''backup_not_found'' False)),
           log_failure io ''No valid backup is available'' [] (st\<lparr>rv_disk := d\<rparr>))
      | (Inr (Some backup), d) \<Rightarrow>
          (case restore_backup backup (rs_config s) d of
             (Inl e, d') \<Rightarrow>
               let st = st\<lparr>rv_disk := d'\<rparr>
               in if is_os_error e \<or> is_value_error e
                  then (Inr (Some (failed ''restore_failed'' False)),
                        log_failure io ''Config restoration failed''
                          [(''reason'', JStr (snd (io_describe io e)))] st)
                  else (Inl e, st)
           | (Inr u, d') \<Rightarrow>
               (Inr None,
                log_recovery io ''config_restored'' ''INFO'' ''Gateway config restored atomically'' []
                  (log_recovery io ''backup_verified'' ''INFO'' ''Backup checksum verified''
                    [(''backup'', JStr (path_str backup))] (st\<lparr>rv_disk := d'\<rparr>)))))"

section \<open>Restarting and waiting\<close>

definition docker_failure :: "attempt_io \<Rightarrow> string \<Rightarrow> exn \<Rightarrow> recovery_state \<Rightarrow> recovery_state" where
  "docker_failure io message e =
     log_failure io message
       [(''error_type'', JStr (fst (io_describe io e))), (''reason'', JStr (snd (io_describe io e)))]"

text \<open>\<open>Some None\<close> for a container that runs; no value for a wait that does not end.\<close>

definition restart_branch ::
    "recovery_settings \<Rightarrow> attempt_io \<Rightarrow> bool \<Rightarrow> recovery_state \<Rightarrow> (recovery_result option \<times> recovery_state) option" where
  "restart_branch s io restored st =
     (case restart_container (rs_allowed s) (io_docker_now io) (io_get io) (io_restart io) (rs_container s)
             (rv_docker st) of
        (Inl e, w) \<Rightarrow>
          Some (Some (failed ''docker_operation_failed'' restored),
                docker_failure io ''Container restart failed'' e (st\<lparr>rv_docker := w\<rparr>))
      | (Inr u, w) \<Rightarrow>
          (let st = log_recovery io ''container_restarted'' ''INFO'' ''Managed container restart requested''
                      [(''container'', JStr (rs_container s))] (st\<lparr>rv_docker := w\<rparr>)
           in case wait_for_running (io_wait_get io) (rs_wait s) (1/2) (io_wait_clock io) (io_reload io) of
                None \<Rightarrow> None
              | Some (Inl e, slept) \<Rightarrow>
                  Some (Some (failed ''docker_operation_failed'' restored),
                        docker_failure io ''Container state polling failed'' e st)
              | Some (Inr False, slept) \<Rightarrow>
                  Some (Some (failed ''container_not_running'' restored),
                        log_failure io ''Container did not reach running state'' [] st)
              | Some (Inr True, slept) \<Rightarrow> Some (None, st)))"

section \<open>The readiness loop\<close>

partial_function (option) readiness_loop ::
    "real \<Rightarrow> (nat \<Rightarrow> real) \<Rightarrow> (nat \<Rightarrow> health_result result) \<Rightarrow> nat \<Rightarrow> real list \<Rightarrow>
     (health_result result \<times> real list) option" where
  "readiness_loop deadline clock health k slept =
     (case health k of
        Inl e \<Rightarrow> Some (Inl e, slept)
      | Inr r \<Rightarrow>
          if hr_ok r then Some (Inr r, slept)
          else
            (let remaining = deadline - clock (Suc k)
             in if remaining \<le> 0 then Some (Inr r, slept)
                else readiness_loop deadline clock health (Suc k) (slept @ [min (1/2) remaining])))"

definition check_readiness ::
    "recovery_settings \<Rightarrow> attempt_io \<Rightarrow> bool \<Rightarrow> recovery_state \<Rightarrow> ((exn + recovery_result) \<times> recovery_state) option" where
  "check_readiness s io restored st =
     (case readiness_loop (io_time io 0 + rs_wait s) (io_time io) (io_health io) 0 [] of
        None \<Rightarrow> None
      | Some (Inl e, slept) \<Rightarrow> Some (Inl e, st)
      | Some (Inr r, slept) \<Rightarrow>
          Some (Inr (if hr_ok r then \<lparr>rr_success = True, rr_reason = ''ok'', rr_restored = restored\<rparr>
                     else failed ''post_recovery_health_failed'' restored),
                log_recovery io ''recovery_verified'' (if hr_ok r then ''INFO'' else ''ERROR'')
                  ''Post-recovery health check completed''
                  [(''ok'', JBool (hr_ok r)), (''reason'', JStr (hr_reason r))] st))"

section \<open>An attempt\<close>

definition restart_and_check ::
    "recovery_settings \<Rightarrow> attempt_io \<Rightarrow> bool \<Rightarrow> recovery_state \<Rightarrow> ((exn + recovery_result) \<times> recovery_state) option" where
  "restart_and_check s io restored st =
     (case restart_branch s io restored st of
        None \<Rightarrow> None
      | Some (Some r, st') \<Rightarrow> Some (Inr r, st')
      | Some (None, st') \<Rightarrow> check_readiness s io restored st')"

definition attempt_recovery ::
    "recovery_settings \<Rightarrow> attempt_io \<Rightarrow> bool \<Rightarrow> recovery_state \<Rightarrow> ((exn + recovery_result) \<times> recovery_state) option" where
  "attempt_recovery s io config_valid st0 =
     (case admit s io st0 of
        (Some r, st) \<Rightarrow> Some (Inr r, st)
      | (None, st) \<Rightarrow>
          if config_valid then restart_and_check s io False st
          else (case restore_branch s io st of
                  (Inl e, st') \<Rightarrow> Some (Inl e, st')
                | (Inr (Some r), st') \<Rightarrow> Some (Inr r, st')
                | (Inr None, st') \<Rightarrow> restart_and_check s io True st'))"

end
