(* ===== verification/Notifier.thy ===== *)
theory Notifier
  imports Models
begin

text \<open>
  The Telegram notifier (\<^verbatim>\<open>app/notifier.py\<close>): when it is configured, what a notification sends, and
  that a failed one is logged and swallowed. \<^verbatim>\<open>send_async\<close> gives the coroutine it schedules, as a
  command over the log; who runs it, and when, is the business of the runtime.
\<close>

section \<open>The notifier\<close>

record notifier =
  nt_token :: "string option"
  nt_chat_id :: "string option"

text \<open>\<^verbatim>\<open>os.getenv(name) or None\<close>\<close>

definition getenv_or_none :: "(string \<Rightarrow> string option) \<Rightarrow> string \<Rightarrow> string option" where
  "getenv_or_none env name = (case env name of None \<Rightarrow> None | Some v \<Rightarrow> if v = [] then None else Some v)"

definition notifier_from_env :: "(string \<Rightarrow> string option) \<Rightarrow> notifier" where
  "notifier_from_env env =
     \<lparr>nt_token = getenv_or_none env ''TELEGRAM_BOT_TOKEN'', nt_chat_id = getenv_or_none env ''TELEGRAM_CHAT_ID''\<rparr>"

definition truthy :: "string option \<Rightarrow> bool" where
  "truthy v = (case v of None \<Rightarrow> False | Some s \<Rightarrow> s \<noteq> [])"

definition is_configured :: "notifier \<Rightarrow> bool" where
  "is_configured n = (truthy (nt_token n) \<and> truthy (nt_chat_id n))"

section \<open>Sending\<close>

text \<open>
  \<open>post url body timeout\<close> is what \<^verbatim>\<open>client.post\<close> followed by \<^verbatim>\<open>raise_for_status\<close> gives.
\<close>

type_synonym poster = "string \<Rightarrow> (string \<times> string) list \<Rightarrow> int \<Rightarrow> unit result"

definition default_sender :: "poster \<Rightarrow> string \<Rightarrow> string \<Rightarrow> string \<Rightarrow> unit result" where
  "default_sender post token chat_id message =
     post (''https://api.telegram.org/bot'' @ token @ ''/sendMessage'')
       [(''chat_id'', chat_id), (''text'', message)] 5"

definition notification_failed :: "string \<Rightarrow> log_event" where
  "notification_failed error_type =
     [(''event_type'', JStr ''notification_failed''), (''level'', JStr ''WARNING''),
      (''message'', JStr ''Telegram notification failed''), (''error_type'', JStr error_type)]"

text \<open>\<open>type_name\<close> is \<^verbatim>\<open>type(exc).__name__\<close>, the sender is \<^verbatim>\<open>_default_sender\<close>, the state is the log.\<close>

definition send_safely ::
    "poster \<Rightarrow> (exn \<Rightarrow> string) \<Rightarrow> notifier \<Rightarrow> string \<Rightarrow> (log_event list, unit) cmd" where
  "send_safely post type_name n message lg =
     (case (nt_token n, nt_chat_id n) of
        (Some token, Some chat_id) \<Rightarrow>
          (case default_sender post token chat_id message of
             Inr u \<Rightarrow> (Inr (), lg)
           | Inl e \<Rightarrow> (Inr (), lg @ [notification_failed (type_name e)]))
      | _ \<Rightarrow> (Inr (), lg))"

definition send_async ::
    "poster \<Rightarrow> (exn \<Rightarrow> string) \<Rightarrow> notifier \<Rightarrow> string \<Rightarrow> (log_event list, unit) cmd option" where
  "send_async post type_name n message =
     (if \<not> is_configured n then None else Some (send_safely post type_name n message))"

section \<open>Notifications never raise\<close>

lemma is_configured_from_env:
  "is_configured (notifier_from_env env) \<longleftrightarrow>
     (\<exists>t c. t \<noteq> [] \<and> c \<noteq> [] \<and> env ''TELEGRAM_BOT_TOKEN'' = Some t \<and> env ''TELEGRAM_CHAT_ID'' = Some c)"
  by (auto simp: is_configured_def notifier_from_env_def truthy_def getenv_or_none_def split: option.splits)

text \<open>
  A notification cannot disturb recovery: one is scheduled exactly when both settings are there and
  not empty; a scheduled one never raises, whatever the network does, posts the message once to the bot of
  the token, and adds to the log nothing on success and exactly one warning with the class of the
  error on failure.
\<close>

theorem notification_never_raises:
  assumes "send_async post type_name (notifier_from_env env) message = Some task"
  shows "\<exists>token chat_id. env ''TELEGRAM_BOT_TOKEN'' = Some token \<and> env ''TELEGRAM_CHAT_ID'' = Some chat_id
    \<and> token \<noteq> [] \<and> chat_id \<noteq> []
    \<and> task lg = (Inr (), lg @ (case post (''https://api.telegram.org/bot'' @ token @ ''/sendMessage'')
           [(''chat_id'', chat_id), (''text'', message)] 5 of
         Inr u \<Rightarrow> [] | Inl e \<Rightarrow> [notification_failed (type_name e)]))"
proof -
  from assms have "is_configured (notifier_from_env env)" and task: "task = send_safely post type_name (notifier_from_env env) message"
    by (auto simp: send_async_def split: if_splits)
  then obtain t c where tc: "t \<noteq> []" "c \<noteq> []" "env ''TELEGRAM_BOT_TOKEN'' = Some t" "env ''TELEGRAM_CHAT_ID'' = Some c"
    by (auto simp: is_configured_from_env)
  then have n: "nt_token (notifier_from_env env) = Some t" "nt_chat_id (notifier_from_env env) = Some c"
    by (simp_all add: notifier_from_env_def getenv_or_none_def)
  have "task lg = (Inr (), lg @ (case post (''https://api.telegram.org/bot'' @ t @ ''/sendMessage'')
           [(''chat_id'', c), (''text'', message)] 5 of Inr u \<Rightarrow> [] | Inl e \<Rightarrow> [notification_failed (type_name e)]))"
    unfolding task send_safely_def n default_sender_def by (simp split: sum.split)
  with tc show ?thesis by blast
qed

theorem notification_never_raises_witness:
  "\<exists>task. send_async (\<lambda>url body t. Inl (RequestError ''ConnectTimeout'')) (\<lambda>e. ''ConnectTimeout'')
       (notifier_from_env (map_of [(''TELEGRAM_BOT_TOKEN'', ''42:x''), (''TELEGRAM_CHAT_ID'', ''7'')])) ''hello'' = Some task
     \<and> fst (task []) = Inr () \<and> length (snd (task [])) = 1"
proof -
  let ?env = "map_of [(''TELEGRAM_BOT_TOKEN'', ''42:x''), (''TELEGRAM_CHAT_ID'', ''7'')]"
  obtain task where "send_async (\<lambda>url body t. Inl (RequestError ''ConnectTimeout'')) (\<lambda>e. ''ConnectTimeout'')
       (notifier_from_env ?env) ''hello'' = Some task"
    by (simp add: send_async_def is_configured_from_env)
  with notification_never_raises [OF this, of "[]"] show ?thesis by auto
qed

end
