(* ===== verification/ControllerSettings.thy ===== *)
theory ControllerSettings
  imports SentinelConfig Models
begin

text \<open>
  The settings of the controller (\<^verbatim>\<open>Settings.from_env\<close> of \<^verbatim>\<open>app/main.py\<close>). Its numbers are read with
  \<^verbatim>\<open>int()\<close> (see \<open>PyText\<close>) and \<^verbatim>\<open>float()\<close>, whose grammar is modelled here: a decimal number of any
  size, an infinity or not a number. Decimal values are exact reals: rounding to 53 bits and overflow to an
  infinity are not modelled.
\<close>

section \<open>\<^verbatim>\<open>float()\<close> of a text\<close>

datatype pyfloat = Fin real | Infinite bool | NotANumber

definition is_digit :: "char \<Rightarrow> bool" where
  "is_digit c = (48 \<le> code c \<and> code c \<le> 57)"

text \<open>An underscore must stand between two digits.\<close>

fun underscores_ok :: "bool \<Rightarrow> string \<Rightarrow> bool" where
  "underscores_ok prev [] = True"
| "underscores_ok prev (c # cs) =
     (if c = CHR ''_'' then prev \<and> (case cs of [] \<Rightarrow> False | d # ds \<Rightarrow> is_digit d) \<and> underscores_ok False cs
      else underscores_ok (is_digit c) cs)"

definition digits_value :: "string \<Rightarrow> nat" where
  "digits_value ds = foldl (\<lambda>n c. n * 10 + (code c - 48)) 0 ds"

definition scale10 :: "nat \<Rightarrow> int \<Rightarrow> real" where
  "scale10 m e = (if 0 \<le> e then real m * 10 ^ nat e else real m / 10 ^ nat (- e))"

text \<open>The exponent: nothing, or \<^verbatim>\<open>e\<close>, a sign and at least one digit.\<close>

definition parse_exponent :: "string \<Rightarrow> int option" where
  "parse_exponent s =
     (case s of
        [] \<Rightarrow> Some 0
      | c # cs \<Rightarrow>
          (let (neg, ds) = split_sign cs
           in if (c = CHR ''e'' \<or> c = CHR ''E'') \<and> ds \<noteq> [] \<and> list_all is_digit ds
              then Some (if neg then - int (digits_value ds) else int (digits_value ds)) else None))"

definition parse_decimal :: "string \<Rightarrow> real option" where
  "parse_decimal s =
     (let whole_part = takeWhile is_digit s;
          rest = dropWhile is_digit s;
          after = (case rest of c # cs \<Rightarrow> if c = CHR ''.'' then cs else [] | [] \<Rightarrow> []);
          dotted = (case rest of c # cs \<Rightarrow> c = CHR ''.'' | [] \<Rightarrow> False);
          fraction = takeWhile is_digit after;
          tail = (if dotted then dropWhile is_digit after else rest)
      in if whole_part = [] \<and> fraction = [] then None
         else case parse_exponent tail of
                None \<Rightarrow> None
              | Some e \<Rightarrow> Some (scale10 (digits_value (whole_part @ fraction)) (e - int (length fraction))))"

definition py_float :: "string \<Rightarrow> pyfloat result" where
  "py_float s =
     (let t = strip_by (int_space s) s;
          bad = Inl (ValueError ''could not convert string to float'')
      in if \<not> underscores_ok False t then bad
         else
           (let (neg, u) = split_sign (filter (\<lambda>c. c \<noteq> CHR ''_'') t)
            in if lower u = ''inf'' \<or> lower u = ''infinity'' then Inr (Infinite neg)
               else if lower u = ''nan'' then Inr NotANumber
               else case parse_decimal u of
                      None \<Rightarrow> bad
                    | Some r \<Rightarrow> Inr (Fin (if neg then - r else r))))"

section \<open>The settings\<close>

definition getenv :: "env \<Rightarrow> string \<Rightarrow> string \<Rightarrow> string" where
  "getenv env name dflt = (case env name of None \<Rightarrow> dflt | Some v \<Rightarrow> v)"

text \<open>\<^verbatim>\<open>float(os.getenv(name, str(default)))\<close> and \<^verbatim>\<open>int(...)\<close>; every default is a small integer.\<close>

definition env_float :: "env \<Rightarrow> string \<Rightarrow> nat \<Rightarrow> pyfloat result" where
  "env_float env name dflt = py_float (getenv env name (show_nat dflt))"

definition env_int :: "env \<Rightarrow> string \<Rightarrow> nat \<Rightarrow> int result" where
  "env_int env name dflt = py_int 10 (getenv env name (show_nat dflt))"

record controller_settings =
  cs_health_url :: string
  cs_health_interval :: pyfloat
  cs_failure_threshold :: int
  cs_config_path :: string
  cs_backup_dir :: string
  cs_backup_interval :: pyfloat
  cs_retention :: int
  cs_allowed :: "string set"
  cs_container :: string
  cs_cooldown :: pyfloat
  cs_max_recoveries :: int
  cs_window :: pyfloat
  cs_restart_wait :: pyfloat

definition allowed_from_text :: "string \<Rightarrow> string set" where
  "allowed_from_text s = set (filter (\<lambda>t. t \<noteq> []) (map strip (split_on (CHR '','') s)))"

definition controller_from_env :: "env \<Rightarrow> controller_settings result" where
  "controller_from_env env =
     (let allowed = allowed_from_text (getenv env ''NEXGUARD_ALLOWED_CONTAINERS'' ''gateway-simulator'')
      in bind_result (env_float env ''HEALTH_CHECK_INTERVAL_SECONDS'' 10) (\<lambda>interval.
         bind_result (env_int env ''FAILURE_THRESHOLD'' 3) (\<lambda>threshold.
         bind_result (env_float env ''BACKUP_INTERVAL_SECONDS'' 60) (\<lambda>backup_interval.
         bind_result (env_int env ''BACKUP_RETENTION_COUNT'' 10) (\<lambda>retention.
         bind_result (env_float env ''RECOVERY_COOLDOWN_SECONDS'' 60) (\<lambda>cooldown.
         bind_result (env_int env ''MAX_RECOVERIES_PER_WINDOW'' 3) (\<lambda>max_recoveries.
         bind_result (env_float env ''RECOVERY_WINDOW_SECONDS'' 600) (\<lambda>window.
         bind_result (env_float env ''RESTART_WAIT_SECONDS'' 30) (\<lambda>restart_wait.
         Inr \<lparr>cs_health_url = getenv env ''GATEWAY_HEALTH_URL'' ''http://gateway-simulator:8080/health'',
              cs_health_interval = interval, cs_failure_threshold = threshold,
              cs_config_path = path_text (getenv env ''CONFIG_PATH'' ''/data/gateway/gateway.yaml''),
              cs_backup_dir = path_text (getenv env ''BACKUP_DIR'' ''/data/backups''),
              cs_backup_interval = backup_interval, cs_retention = retention, cs_allowed = allowed,
              cs_container = getenv env ''GATEWAY_CONTAINER_NAME'' ''gateway-simulator'',
              cs_cooldown = cooldown, cs_max_recoveries = max_recoveries, cs_window = window,
              cs_restart_wait = restart_wait\<rparr>)))))))))"

end
