(* ===== verification/Runtime.thy ===== *)
theory Runtime
  imports Recovery Incident HealthMonitor Notifier ControllerSettings Gateway
begin

text \<open>
  The runtime of the controller (\<^verbatim>\<open>app/main.py\<close> and \<^verbatim>\<open>app/metrics.py\<close>): what it is wired from, and the
  handler that the monitoring loop calls with each health result, which feeds the incidents, the
  backups, the recovery, the gauges and the notifications. Tasks of notifications are kept until they run.
\<close>

section \<open>Metrics\<close>

text \<open>
  The collectors of the controller apart from those of the incidents, which are in their manager: two gauges, a
  counter, the observations of a histogram and the gauge of the last backup.
\<close>

record controller_metrics =
  gateway_up :: int
  config_integrity :: int
  recoveries_total :: nat
  recovery_durations :: "real list"
  last_backup_timestamp :: real

definition fresh_metrics :: controller_metrics where
  "fresh_metrics = \<lparr>gateway_up = 0, config_integrity = 0, recoveries_total = 0, recovery_durations = [],
     last_backup_timestamp = 0\<rparr>"

section \<open>The runtime\<close>

record runtime_settings =
  rt_recovery :: recovery_settings
  rt_retention :: int
  rt_backup_interval :: real

record runtime =
  rn_metrics :: controller_metrics
  rn_incidents :: incident_manager
  rn_recovery :: recovery_state
  rn_last_backup :: "real option"
  rn_notifier :: notifier
  rn_tasks :: "string list"
  rn_log :: "log_event list"

text \<open>A path text as the directory and the name of the file model.\<close>

definition as_path :: "string \<Rightarrow> path" where
  "as_path s = (join ''/'' (butlast (split_on (CHR ''/'') s)), last (split_on (CHR ''/'') s))"

text \<open>
  \<open>wire c\<close>: the settings of the parts, when all durations are finite; the recovery has the Docker
  manager's allowlist.
\<close>

definition wire :: "controller_settings \<Rightarrow> runtime_settings option" where
  "wire c =
     (case (cs_backup_interval c, cs_cooldown c, cs_window c, cs_restart_wait c) of
        (Fin interval, Fin cooldown, Fin window, Fin restart_wait) \<Rightarrow>
          Some \<lparr>rt_recovery = \<lparr>rs_config = as_path (cs_config_path c), rs_backup_dir = cs_backup_dir c,
                  rs_container = cs_container c, rs_allowed = make_allowed (cs_allowed c), rs_cooldown = cooldown,
                  rs_max_recoveries = cs_max_recoveries c, rs_window = window, rs_wait = restart_wait\<rparr>,
                rt_retention = cs_retention c, rt_backup_interval = interval\<rparr>
      | _ \<Rightarrow> None)"

text \<open>\<^verbatim>\<open>ControllerRuntime.__init__\<close>; the incident collectors and the logs outlive it.\<close>

definition new_runtime ::
    "runtime_settings \<Rightarrow> int \<Rightarrow> env \<Rightarrow> disk \<Rightarrow> docker_world \<Rightarrow> incident_metrics \<Rightarrow> log_event list \<Rightarrow> runtime result" where
  "new_runtime s threshold env d w ms lg =
     bind_result (new_manager threshold ms lg) (\<lambda>incidents.
     bind_result (new_recovery (rt_recovery s) d w []) (\<lambda>recovery.
       Inr \<lparr>rn_metrics = fresh_metrics, rn_incidents = incidents, rn_recovery = recovery, rn_last_backup = None,
            rn_notifier = notifier_from_env env, rn_tasks = [], rn_log = []\<rparr>))"

definition rn_disk :: "runtime \<Rightarrow> disk" where
  "rn_disk rt = rv_disk (rn_recovery rt)"

definition set_disk :: "disk \<Rightarrow> runtime \<Rightarrow> runtime" where
  "set_disk d rt = rt\<lparr>rn_recovery := (rn_recovery rt)\<lparr>rv_disk := d\<rparr>\<rparr>"

definition set_metrics :: "(controller_metrics \<Rightarrow> controller_metrics) \<Rightarrow> runtime \<Rightarrow> runtime" where
  "set_metrics f rt = rt\<lparr>rn_metrics := f (rn_metrics rt)\<rparr>"

definition runtime_event :: "datetime \<Rightarrow> string \<Rightarrow> string \<Rightarrow> string \<Rightarrow> log_event \<Rightarrow> log_event" where
  "runtime_event t event_type level message context =
     [(''timestamp'', JStr (iso_z t)), (''event_type'', JStr event_type), (''level'', JStr level),
      (''message'', JStr message)] @ context"

definition log_runtime :: "datetime \<Rightarrow> string \<Rightarrow> string \<Rightarrow> string \<Rightarrow> log_event \<Rightarrow> runtime \<Rightarrow> runtime" where
  "log_runtime t event_type level message context rt =
     rt\<lparr>rn_log := rn_log rt @ [runtime_event t event_type level message context]\<rparr>"

section \<open>Notifications\<close>

text \<open>A scheduled task is kept as the message it sends.\<close>

definition notify :: "string \<Rightarrow> runtime \<Rightarrow> runtime" where
  "notify message rt = (if is_configured (rn_notifier rt) then rt\<lparr>rn_tasks := rn_tasks rt @ [message]\<rparr> else rt)"

text \<open>The event loop runs the \<open>k\<close>-th task to its end; its callback discards it.\<close>

definition run_task :: "poster \<Rightarrow> (exn \<Rightarrow> string) \<Rightarrow> nat \<Rightarrow> runtime \<Rightarrow> runtime" where
  "run_task post type_name k rt =
     (if k < length (rn_tasks rt)
      then rt\<lparr>rn_tasks := take k (rn_tasks rt) @ drop (Suc k) (rn_tasks rt),
              rn_log := snd (send_safely post type_name (rn_notifier rt) (rn_tasks rt ! k) (rn_log rt))\<rparr>
      else rt)"

text \<open>\<^verbatim>\<open>close\<close> cancels every task that is left and waits for them.\<close>

definition close_runtime :: "runtime \<Rightarrow> runtime" where
  "close_runtime rt = rt\<lparr>rn_tasks := []\<rparr>"

section \<open>The handler\<close>

text \<open>The readings of the clocks in the handler, the next incident id, and the inputs of an attempt.\<close>

record handle_io =
  hi_now :: real
  hi_clock :: datetime
  hi_new_id :: string
  hi_backup_now :: datetime
  hi_time :: real
  hi_stamp :: datetime
  hi_started :: real
  hi_finished :: real
  hi_closed_at :: datetime
  hi_attempt :: attempt_io

definition text_of :: "handle_io \<Rightarrow> exn \<Rightarrow> string" where
  "text_of io e = snd (io_describe (hi_attempt io) e)"

definition flag :: "bool \<Rightarrow> int" where
  "flag b = (if b then 1 else 0)"

text \<open>The branch of a healthy gateway: the incident is closed and, if due, a backup is made.\<close>

definition handle_ok ::
    "yaml_loader \<Rightarrow> validator \<Rightarrow> runtime_settings \<Rightarrow> handle_io \<Rightarrow> bool \<Rightarrow> runtime \<Rightarrow> (exn + unit) \<times> runtime" where
  "handle_ok safe_load errors s io config_valid rt0 =
     (let rt = rt0\<lparr>rn_incidents := snd (record_success (hi_clock io) (rn_incidents rt0))\<rparr>;
          dir = rs_backup_dir (rt_recovery s)
      in case get_latest_backup dir (rn_disk rt) of
           (Inl e, d) \<Rightarrow> (Inl e, set_disk d rt)
         | (Inr latest, d) \<Rightarrow>
             (let rt = set_disk d rt;
                  backup_due = (latest = None \<or> rn_last_backup rt = None
                                \<or> rt_backup_interval s \<le> hi_now io - the (rn_last_backup rt))
              in if \<not> (config_valid \<and> backup_due) then (Inr (), rt)
                 else case create_backup safe_load errors (rs_config (rt_recovery s)) dir True (hi_backup_now io)
                             (rt_retention s) d of
                        (Inl e, d') \<Rightarrow>
                          if is_backup_error e \<or> is_os_error e
                          then (Inr (), log_runtime (hi_stamp io) ''backup_failed'' ''ERROR'' ''Config backup failed''
                                  [(''reason'', JStr (text_of io e))] (set_disk d' rt))
                          else (Inl e, set_disk d' rt)
                      | (Inr backup, d') \<Rightarrow>
                          (Inr (),
                           log_runtime (hi_stamp io) ''backup_created'' ''INFO'' ''Healthy gateway config backed up''
                             [(''backup'', JStr (path_str backup))]
                             (set_metrics (\<lambda>m. m\<lparr>last_backup_timestamp := hi_time io\<rparr>)
                               ((set_disk d' rt)\<lparr>rn_last_backup := Some (hi_now io)\<rparr>)))))"

text \<open>The end of an attempt: the gauges, the incident and the notification.\<close>

definition after_recovery :: "handle_io \<Rightarrow> string \<Rightarrow> recovery_result \<Rightarrow> runtime \<Rightarrow> runtime" where
  "after_recovery io config_reason r rt0 =
     (let rt = set_metrics (\<lambda>m. m\<lparr>recovery_durations := recovery_durations m @ [max 0 (hi_finished io - hi_started io)]\<rparr>) rt0
      in if rr_success r
         then (let rt1 = set_metrics (\<lambda>m. m\<lparr>recoveries_total := Suc (recoveries_total m), gateway_up := 1,
                           config_integrity := 1\<rparr>) rt
               in notify ''NexGuard recovery completed successfully''
                    (rt1\<lparr>rn_incidents := snd (record_success (hi_closed_at io) (rn_incidents rt1))\<rparr>))
         else log_runtime (hi_stamp io) ''recovery_failed'' ''ERROR'' ''Recovery attempt did not restore health''
                [(''reason'', JStr (rr_reason r)), (''config_reason'', JStr config_reason)]
                (notify (''NexGuard recovery failed: '' @ rr_reason r) rt))"

text \<open>The branch of an unhealthy gateway; no value when the attempt does not end.\<close>

definition handle_failure ::
    "runtime_settings \<Rightarrow> handle_io \<Rightarrow> string \<Rightarrow> bool \<Rightarrow> string \<Rightarrow> runtime \<Rightarrow> ((exn + unit) \<times> runtime) option" where
  "handle_failure s io reason config_valid config_reason rt0 =
     (let (new_incident, incidents) = record_failure (hi_clock io) (hi_new_id io) reason (rn_incidents rt0);
          rt1 = rt0\<lparr>rn_incidents := incidents\<rparr>;
          rt = (case new_incident of None \<Rightarrow> rt1 | Some i \<Rightarrow> notify (''NexGuard incident opened: '' @ inc_reason i) rt1)
      in if current_incident (rn_incidents rt) = None then Some (Inr (), rt)
         else if rv_status (rn_recovery rt) = ''manual_intervention_required'' then Some (Inr (), rt)
         else case attempt_recovery (rt_recovery s) (hi_attempt io) config_valid (rn_recovery rt) of
                None \<Rightarrow> None
              | Some (Inl e, st) \<Rightarrow> Some (Inl e, rt\<lparr>rn_recovery := st\<rparr>)
              | Some (Inr r, st) \<Rightarrow> Some (Inr (), after_recovery io config_reason r (rt\<lparr>rn_recovery := st\<rparr>)))"

definition handle_health_result ::
    "yaml_loader \<Rightarrow> validator \<Rightarrow> runtime_settings \<Rightarrow> handle_io \<Rightarrow> health_result \<Rightarrow> runtime \<Rightarrow>
     ((exn + unit) \<times> runtime) option" where
  "handle_health_result safe_load errors s io result rt0 =
     (let rt = set_metrics (\<lambda>m. m\<lparr>gateway_up := flag (hr_ok result)\<rparr>) rt0;
          (src, d) = read_file (rs_config (rt_recovery s)) (rn_disk rt);
          rt = set_disk d rt
      in case check_config safe_load errors src of
           Inl e \<Rightarrow> Some (Inl e, rt)
         | Inr (config_valid, config_reason) \<Rightarrow>
             (let rt = set_metrics (\<lambda>m. m\<lparr>config_integrity := flag config_valid\<rparr>) rt
              in if hr_ok result then Some (handle_ok safe_load errors s io config_valid rt)
                 else handle_failure s io (hr_reason result) config_valid config_reason rt))"

section \<open>The endpoint\<close>

definition health_status :: "runtime option \<Rightarrow> jval" where
  "health_status rt =
     JDict [(''status'', JStr (case rt of None \<Rightarrow> ''starting'' | Some r \<Rightarrow> rv_status (rn_recovery r)))]"

end
