(* ===== verification/RecoverySafety.thy ===== *)
theory RecoverySafety
  imports Recovery
begin

text \<open>
  What recovery guarantees about the files: the configuration is replaced as a whole by a verified
  backup or not at all, under every plan of faults, and only exceptions that the attempt catches
  leave the file operations.
\<close>

section \<open>Restoring is atomic\<close>

text \<open>Mode and group of the file that is replaced, or the defaults of a new one.\<close>

definition keeps_owner :: "contents \<Rightarrow> path \<Rightarrow> nat \<Rightarrow> int \<Rightarrow> bool" where
  "keeps_owner c p mode gid \<longleftrightarrow>
     (case c p of None \<Rightarrow> mode = 0x1B4 | Some h \<Rightarrow> mode = f_mode h \<and> gid = f_gid h)"

lemma triple_owner:
  "triple (\<lambda>c. c = c0)
     (catch (bind_cmd (stat_file config) (\<lambda>f. ret (f_mode f, f_gid f))) (\<lambda>e. e = FileNotFoundError)
       (\<lambda>e. bind_cmd (stat_dir (fst config)) (\<lambda>gid. ret (0x1B4, gid))))
     (\<lambda>(mode, gid) c. c = c0 \<and> keeps_owner c0 config mode gid) (\<lambda>c. c = c0)"
  by (auto simp: triple_def catch_def bind_cmd_def stat_file_def stat_dir_def syscall_def with_file_def
      whole_def died_def keeps_owner_def split: list.splits fault.splits option.splits)

definition restored_from :: "contents \<Rightarrow> path \<Rightarrow> path \<Rightarrow> contents \<Rightarrow> bool" where
  "restored_from c0 backup config c \<longleftrightarrow> same_except (temps (fst config) \<union> {config}) c0 c \<and> verified c0 backup
     \<and> (\<exists>f g. c0 backup = Some f \<and> c config = Some g \<and> f_data g = f_data f
          \<and> keeps_owner c0 config (f_mode g) (f_gid g))"

lemma triple_install:
  assumes cfg: "\<not> is_temp (snd config)"
  shows "triple (\<lambda>c. c = c0)
     (bind_cmd (mkstemp (fst config) (''.'' @ snd config @ ''.'') ''.tmp'') (\<lambda>temp.
       on_error
         (bind_cmd (write_file temp bs) (\<lambda>_. bind_cmd (fsync_file temp) (\<lambda>_. bind_cmd (chmod_file temp mode) (\<lambda>_.
          bind_cmd (chown_file temp gid) (\<lambda>_. replace_file temp config)))))
         (unlink_file temp)))
     (\<lambda>_ c. same_except (temps (fst config) \<union> {config}) c0 c
        \<and> (\<exists>g. c config = Some g \<and> f_data g = bs \<and> f_mode g = mode \<and> f_gid g = gid))
     (same_except (temps (fst config)) c0)"
proof -
  let ?T = "temps (fst config)"
  let ?S = "same_except ?T c0"
  let ?I = "\<lambda>t c. ?S c \<and> t \<in> ?T \<and> c t \<noteq> None" and ?E = "\<lambda>t c. ?S c \<and> t \<in> ?T"
  let ?D = "\<lambda>t P c. ?S c \<and> t \<in> ?T \<and> (\<exists>f. c t = Some f \<and> f_data f = bs \<and> P f)"
  let ?Q = "\<lambda>c. same_except (?T \<union> {config}) c0 c
      \<and> (\<exists>g. c config = Some g \<and> f_data g = bs \<and> f_mode g = mode \<and> f_gid g = gid)"
  have made: "triple (\<lambda>c. c = c0) (mkstemp (fst config) (''.'' @ snd config @ ''.'') ''.tmp'') ?I ?S"
    by (rule triple_conseq [OF triple_mkstemp])
      (auto simp: temps_def is_temp_def same_except_refl intro!: same_except_upd)
  have notin: "config \<notin> ?T" using cfg by (simp add: temps_def)
  have body: "triple (?I t)
      (bind_cmd (write_file t bs) (\<lambda>_. bind_cmd (fsync_file t) (\<lambda>_. bind_cmd (chmod_file t mode) (\<lambda>_.
       bind_cmd (chown_file t gid) (\<lambda>_. replace_file t config))))) (\<lambda>_. ?Q) (?E t)" for t
  proof (intro triple_bind)
    show "triple (?I t) (write_file t bs) (\<lambda>_. ?D t (\<lambda>f. True)) (?E t)"
    proof (rule triple_conseq [OF triple_write [where P = "?I t" and R = "?E t"]])
      fix c bs'
      assume "?I t c"
      then show "?E t (case c t of None \<Rightarrow> c | Some f \<Rightarrow> c(t \<mapsto> f\<lparr>f_data := bs'\<rparr>))"
        by (auto intro: same_except_upd split: option.split)
    next
      fix c
      assume "\<exists>c1. ?I t c1 \<and> c = (case c1 t of None \<Rightarrow> c1 | Some f \<Rightarrow> c1(t \<mapsto> f\<lparr>f_data := bs\<rparr>))"
      then obtain c1 where "?I t c1" "c = (case c1 t of None \<Rightarrow> c1 | Some f \<Rightarrow> c1(t \<mapsto> f\<lparr>f_data := bs\<rparr>))" by blast
      then show "?D t (\<lambda>f. True) c" by (cases "c1 t") (auto intro: same_except_upd)
    qed auto
    show "triple (?D t (\<lambda>f. True)) (fsync_file t) (\<lambda>_. ?D t (\<lambda>f. True)) (?E t)"
      by (rule triple_conseq [OF triple_fsync [of "?D t (\<lambda>f. True)"]]) auto
    show "triple (?D t (\<lambda>f. True)) (chmod_file t mode) (\<lambda>_. ?D t (\<lambda>f. f_mode f = mode)) (?E t)"
      by (rule triple_chmod) (auto intro: same_except_upd)
    show "triple (?D t (\<lambda>f. f_mode f = mode)) (chown_file t gid)
        (\<lambda>_. ?D t (\<lambda>f. f_mode f = mode \<and> f_gid f = gid)) (?E t)"
      by (rule triple_chown) (auto intro: same_except_upd)
    show "triple (?D t (\<lambda>f. f_mode f = mode \<and> f_gid f = gid)) (replace_file t config) (\<lambda>_. ?Q) (?E t)"
      using notin by (intro triple_replace) (auto intro!: same_except_upd intro: same_except_mono)
  qed
  have clean: "triple (?E t) (unlink_file t) (\<lambda>_. ?S) ?S" for t
    by (rule triple_unlink) (auto intro: same_except_upd)
  show ?thesis
    by (rule triple_bind [OF made], rule triple_on_error [OF body clean])
qed

lemma triple_restore:
  assumes cfg: "\<not> is_temp (snd config)"
  shows "triple (\<lambda>c. c = c0) (restore_backup backup config) (\<lambda>_. restored_from c0 backup config)
     (same_except (temps (fst config)) c0)"
  unfolding restore_backup_def
proof (rule triple_bind [OF triple_conseq [OF triple_verify [of c0 backup]]], assumption, assumption)
  let ?R = "same_except (temps (fst config)) c0" and ?P = "\<lambda>c. c = c0"
  let ?install = "\<lambda>bs mode gid. bind_cmd (mkstemp (fst config) (''.'' @ snd config @ ''.'') ''.tmp'') (\<lambda>temp.
       on_error
         (bind_cmd (write_file temp bs) (\<lambda>_. bind_cmd (fsync_file temp) (\<lambda>_. bind_cmd (chmod_file temp mode) (\<lambda>_.
          bind_cmd (chown_file temp gid) (\<lambda>_. replace_file temp config)))))
         (unlink_file temp))"
  let ?owner = "catch (bind_cmd (stat_file config) (\<lambda>f. ret (f_mode f, f_gid f))) (\<lambda>e. e = FileNotFoundError)
       (\<lambda>e. bind_cmd (stat_dir (fst config)) (\<lambda>gid. ret (0x1B4, gid)))"
  show r: "?R c" if "c = c0" for c using that by (simp add: same_except_refl)
  have rest: "triple ?P (bind_cmd (make_dir (fst config)) (\<lambda>_. bind_cmd ?owner (\<lambda>(mode, gid). ?install bs mode gid)))
      (\<lambda>_. restored_from c0 backup config) ?R"
    if "verified c0 backup" "c0 backup = Some f" "f_data f = bs" for bs f
  proof (rule triple_bind [OF triple_conseq [OF triple_make_dir [of ?P]]], assumption, assumption, erule r)
    show "triple ?P (bind_cmd ?owner (\<lambda>(mode, gid). ?install bs mode gid)) (\<lambda>_. restored_from c0 backup config) ?R"
    proof (rule triple_bind [OF triple_conseq [OF triple_owner]], assumption, assumption, erule r)
      show "triple (case x of (mode, gid) \<Rightarrow> \<lambda>c. c = c0 \<and> keeps_owner c0 config mode gid)
          (case x of (mode, gid) \<Rightarrow> ?install bs mode gid) (\<lambda>_. restored_from c0 backup config) ?R" for x
      proof (cases "keeps_owner c0 config (fst x) (snd x)")
        case True
        then show ?thesis
          unfolding split_beta
          by (intro triple_conseq [OF triple_install [OF cfg, of c0 bs "fst x" "snd x"]])
            (use that in \<open>auto simp: restored_from_def\<close>)
      qed (simp add: triple_def split_beta)
    qed
  qed
  have read: "triple (\<lambda>c. c = c0 \<and> verified c0 backup) (bind_cmd (read_file backup) (\<lambda>contents.
       bind_cmd (make_dir (fst config)) (\<lambda>_. bind_cmd ?owner (\<lambda>(mode, gid). ?install contents mode gid))))
      (\<lambda>_. restored_from c0 backup config) ?R"
  proof (rule triple_bind [OF triple_conseq [OF triple_read [of "\<lambda>c. c = c0 \<and> verified c0 backup"]]], assumption, assumption)
    show "triple (\<lambda>c. (c = c0 \<and> verified c0 backup) \<and> (\<exists>f. c backup = Some f \<and> f_data f = bs))
        (bind_cmd (make_dir (fst config)) (\<lambda>_. bind_cmd ?owner (\<lambda>(mode, gid). ?install bs mode gid)))
        (\<lambda>_. restored_from c0 backup config) ?R" for bs
    proof (cases "verified c0 backup \<and> (\<exists>f. c0 backup = Some f \<and> f_data f = bs)")
      case True
      then obtain f where "verified c0 backup" "c0 backup = Some f" "f_data f = bs" by blast
      from rest [OF this] show ?thesis by (rule triple_conseq) auto
    qed (auto simp: triple_def)
  qed (auto intro: r)
  show "triple (\<lambda>c. c = c0 \<and> (ok \<longrightarrow> verified c0 backup))
      (if \<not> ok then raise (ValueError ''backup_checksum_invalid'')
       else bind_cmd (read_file backup) (\<lambda>contents. bind_cmd (make_dir (fst config)) (\<lambda>_.
         bind_cmd ?owner (\<lambda>(mode, gid). ?install contents mode gid))))
      (\<lambda>_. restored_from c0 backup config) ?R" for ok
    by (rule triple_if, rule triple_raise, simp add: r, rule triple_conseq [OF read]) auto
qed

section \<open>What the file operations raise\<close>

definition raises_only :: "(exn \<Rightarrow> bool) \<Rightarrow> (disk, 'a) cmd \<Rightarrow> bool" where
  "raises_only E m \<longleftrightarrow> (\<forall>d e d'. m d = (Inl e, d') \<longrightarrow> E e)"

named_theorems raising

lemma raises_ret [raising]: "raises_only E (ret x)"
  by (simp add: raises_only_def)

lemma raises_raise: "E e \<Longrightarrow> raises_only E (raise e)"
  by (simp add: raises_only_def)

lemma raises_bind [raising]: "raises_only E m \<Longrightarrow> (\<And>x. raises_only E (k x)) \<Longrightarrow> raises_only E (bind_cmd m k)"
  by (fastforce simp: raises_only_def bind_cmd_def split: prod.splits sum.splits)

lemma raises_on_error [raising]: "raises_only E m \<Longrightarrow> raises_only E k \<Longrightarrow> raises_only E (on_error m k)"
  by (fastforce simp: raises_only_def on_error_def split: prod.splits sum.splits)

lemma raises_catch:
  "raises_only E m \<Longrightarrow> (\<And>e. E e \<Longrightarrow> caught e \<Longrightarrow> raises_only E' (h e)) \<Longrightarrow> (\<And>e. E e \<Longrightarrow> \<not> caught e \<Longrightarrow> E' e) \<Longrightarrow>
   raises_only E' (catch m caught h)"
  by (fastforce simp: raises_only_def catch_def split: prod.splits sum.splits if_splits)

lemma raises_if [raising]: "raises_only E m \<Longrightarrow> raises_only E n \<Longrightarrow> raises_only E (if b then m else n)"
  by simp

lemma raises_for_each [raising]: "(\<And>x. raises_only E (k x)) \<Longrightarrow> raises_only E (for_each xs k)"
  by (induction xs) (auto intro: raising)

lemma raises_map_cmd [raising]: "(\<And>x. raises_only E (k x)) \<Longrightarrow> raises_only E (map_cmd k xs)"
  by (induction xs) (auto intro!: raising)

lemma raises_filter_cmd [raising]: "(\<And>x. raises_only E (k x)) \<Longrightarrow> raises_only E (filter_cmd k xs)"
  by (induction xs) (auto intro!: raising)

lemma raises_mono: "raises_only E m \<Longrightarrow> (\<And>e. E e \<Longrightarrow> E' e) \<Longrightarrow> raises_only E' m"
  by (auto simp: raises_only_def)

lemma raises_syscall:
  "(\<And>d e d'. op d = (Inl e, d') \<Longrightarrow> is_os_error e) \<Longrightarrow> raises_only is_os_error (syscall torn op)"
  by (auto simp: raises_only_def syscall_def died_def split: if_splits list.splits fault.splits)

lemma raises_calls [raising]:
  "raises_only is_os_error (mkstemp dir a b)" "raises_only is_os_error (write_file p bs)"
  "raises_only is_os_error (fsync_file p)" "raises_only is_os_error (chmod_file p m)"
  "raises_only is_os_error (chown_file p g)" "raises_only is_os_error (stat_file p)"
  "raises_only is_os_error (stat_dir dir)" "raises_only is_os_error (read_file p)"
  "raises_only is_os_error (replace_file p q)" "raises_only is_os_error (unlink_file p)"
  "raises_only is_os_error (file_exists p)" "raises_only is_os_error (make_dir dir)"
  "raises_only is_os_error (dir_exists dir)" "raises_only is_os_error (list_dir dir)"
  unfolding mkstemp_def write_file_def fsync_file_def chmod_file_def chown_file_def stat_file_def stat_dir_def
    read_file_def replace_file_def unlink_file_def file_exists_def make_dir_def dir_exists_def list_dir_def
  by (rule raises_syscall; auto simp: with_file_def split: option.splits if_splits)+

lemma raises_list_backups [raising]: "raises_only is_os_error (list_backups dir)"
  unfolding list_backups_def by (intro raising)

lemma raises_get_latest [raising]: "raises_only is_os_error (get_latest_backup dir)"
  unfolding get_latest_backup_def by (intro raising)

lemma raises_write_temp [raising]: "raises_only is_os_error (write_temp_file p bs)"
  unfolding write_temp_file_def by (intro raising)

definition is_file_error :: "exn \<Rightarrow> bool" where
  "is_file_error e \<longleftrightarrow> is_os_error e \<or> is_value_error e"

lemma raises_read_ascii [raising]: "raises_only (\<lambda>e. is_os_error e \<or> e = UnicodeError) (read_ascii p)"
  unfolding read_ascii_def
  by (rule raises_bind, rule raises_mono [OF raises_calls(8)], simp) (simp add: raises_only_def ascii_text_def)

lemma raises_verify: "raises_only E (verify_backup p)"
  unfolding verify_backup_def
  by (rule raises_catch [where E = "\<lambda>e. is_os_error e \<or> e = UnicodeError"])
    (auto intro!: raising raises_mono [OF raises_calls(8)])

lemma raises_restore: "raises_only is_file_error (restore_backup backup config)"
proof -
  have os: "raises_only is_file_error m" if "raises_only is_os_error m" for m :: "(disk, 'a) cmd"
    by (rule raises_mono [OF that]) (simp add: is_file_error_def)
  have owner: "raises_only is_os_error
      (catch (bind_cmd (stat_file config) (\<lambda>f. ret (f_mode f, f_gid f))) (\<lambda>e. e = FileNotFoundError)
       (\<lambda>e. bind_cmd (stat_dir (fst config)) (\<lambda>gid. ret (0x1B4, gid))))"
    by (rule raises_catch [where E = is_os_error]) (auto intro!: raising)
  show ?thesis
    unfolding restore_backup_def
    by (rule raises_bind [OF raises_verify], rule raises_if, rule raises_raise, simp add: is_file_error_def,
        rule os, intro raises_bind raises_calls owner) (auto intro!: raising split: prod.split)
qed

end
