(* ===== verification/RecoveryRun.thy ===== *)
theory RecoveryRun
  imports RecoverySafety
begin

text \<open>
  The properties of recovery attempts, one by one and in sequence: the rate limit, manual
  intervention, what success means, which configuration is in place afterwards, that an attempt ends
  and what it raises.
\<close>

section \<open>What the branches leave alone\<close>

definition same_admission :: "recovery_state \<Rightarrow> recovery_state \<Rightarrow> bool" where
  "same_admission a b \<longleftrightarrow> rv_status a = rv_status b \<and> rv_attempts a = rv_attempts b \<and> rv_last a = rv_last b"

lemma log_recovery_fields [simp]:
  "rv_status (log_recovery io a b c e st) = rv_status st" "rv_attempts (log_recovery io a b c e st) = rv_attempts st"
  "rv_last (log_recovery io a b c e st) = rv_last st" "rv_disk (log_recovery io a b c e st) = rv_disk st"
  "rv_docker (log_recovery io a b c e st) = rv_docker st"
  by (simp_all add: log_recovery_def)

lemma log_failure_fields [simp]:
  "rv_status (log_failure io c e st) = rv_status st" "rv_attempts (log_failure io c e st) = rv_attempts st"
  "rv_last (log_failure io c e st) = rv_last st" "rv_disk (log_failure io c e st) = rv_disk st"
  "rv_docker (log_failure io c e st) = rv_docker st"
  by (simp_all add: log_failure_def)

lemma docker_failure_fields [simp]:
  "rv_status (docker_failure io c e st) = rv_status st" "rv_attempts (docker_failure io c e st) = rv_attempts st"
  "rv_last (docker_failure io c e st) = rv_last st" "rv_disk (docker_failure io c e st) = rv_disk st"
  "rv_docker (docker_failure io c e st) = rv_docker st"
  by (simp_all add: docker_failure_def)

lemma restore_branch_state:
  assumes "restore_branch s io st = (q, st')"
  shows "same_admission st st' \<and> rv_docker st' = rv_docker st \<and> (\<forall>r. q = Inr (Some r) \<longrightarrow> \<not> rr_success r \<and> \<not> rr_restored r
      \<and> rr_reason r \<in> {''restore_failed'', ''backup_not_found''})"
  using assms
  by (auto simp: restore_branch_def Let_def same_admission_def failed_def split: prod.splits sum.splits option.splits if_splits)

lemma restart_branch_state:
  assumes "restart_branch s io b st = Some (q, st')"
  shows "same_admission st st' \<and> rv_disk st' = rv_disk st
    \<and> (dk_restarts (rv_docker st') = dk_restarts (rv_docker st)
       \<or> dk_restarts (rv_docker st') = dk_restarts (rv_docker st) @ [rs_container s])
    \<and> (\<forall>r. q = Some r \<longrightarrow> \<not> rr_success r \<and> rr_restored r = b
        \<and> rr_reason r \<in> {''docker_operation_failed'', ''container_not_running''})"
  using assms
  by (auto simp: restart_branch_def Let_def same_admission_def failed_def restart_container_def security_block_def
      bind_cmd_def split: prod.splits sum.splits option.splits if_splits bool.splits)

lemma check_readiness_state:
  assumes "check_readiness s io b st = Some (q, st')"
  shows "same_admission st st' \<and> rv_disk st' = rv_disk st \<and> rv_docker st' = rv_docker st
    \<and> (\<forall>r. q = Inr r \<longrightarrow> rr_restored r = b \<and> rr_reason r \<in> {''ok'', ''post_recovery_health_failed''}
         \<and> (rr_success r \<longleftrightarrow> rr_reason r = ''ok''))"
  using assms
  by (auto simp: check_readiness_def same_admission_def failed_def split: prod.splits sum.splits option.splits if_splits)

lemma restart_and_check_state:
  assumes "restart_and_check s io b st = Some (q, st')"
  shows "same_admission st st' \<and> rv_disk st' = rv_disk st
    \<and> (dk_restarts (rv_docker st') = dk_restarts (rv_docker st)
       \<or> dk_restarts (rv_docker st') = dk_restarts (rv_docker st) @ [rs_container s])
    \<and> (\<forall>r. q = Inr r \<longrightarrow> rr_restored r = b
        \<and> rr_reason r \<in> {''docker_operation_failed'', ''container_not_running'', ''ok'', ''post_recovery_health_failed''})"
proof (cases "restart_branch s io b st")
  case None
  with assms show ?thesis by (simp add: restart_and_check_def)
next
  case (Some x)
  obtain p st1 where x: "x = (p, st1)" by (cases x)
  note rb = restart_branch_state [OF Some [unfolded x]]
  show ?thesis
  proof (cases p)
    case None
    with assms Some x have "check_readiness s io b st1 = Some (q, st')" by (simp add: restart_and_check_def)
    from check_readiness_state [OF this] rb show ?thesis by (auto simp: same_admission_def)
  next
    case p: (Some r)
    with assms Some x have "q = Inr r" "st' = st1" by (simp_all add: restart_and_check_def)
    with p rb show ?thesis by auto
  qed
qed

definition refusal :: "(exn + recovery_result) \<Rightarrow> bool" where
  "refusal r \<longleftrightarrow> r = Inr (failed ''manual_intervention_required'' False) \<or> r = Inr (failed ''cooldown_active'' False)"

lemma admit_refusal: "admit s io st = (Some q, st') \<Longrightarrow> refusal (Inr q) \<and> rv_docker st' = rv_docker st \<and> rv_disk st' = rv_disk st"
  by (auto simp: admit_def Let_def refusal_def split: if_splits)

text \<open>An attempt either is refused, or starts; once started it keeps to what admission recorded.\<close>

lemma attempt_cases:
  assumes "attempt_recovery s io v st = Some (r, st')"
  obtains (refused) q where "admit s io st = (Some q, st')" and "r = Inr q" and "refusal r"
  | (started) st1 where "admit s io st = (None, st1)" and "same_admission st1 st'" and "\<not> refusal r"
      and "dk_restarts (rv_docker st') = dk_restarts (rv_docker st1)
         \<or> dk_restarts (rv_docker st') = dk_restarts (rv_docker st1) @ [rs_container s]"
proof -
  obtain p st1 where adm: "admit s io st = (p, st1)" by fastforce
  have not_refusal: "\<not> refusal (Inr q)"
    if "rr_reason q \<in> {''docker_operation_failed'', ''container_not_running'', ''ok'', ''post_recovery_health_failed'',
      ''restore_failed'', ''backup_not_found''}" for q
    using that by (auto simp: refusal_def failed_def)
  have run: thesis if adm: "admit s io st = (None, st1)" and st1: "same_admission st1 st2" "rv_docker st2 = rv_docker st1"
      and run: "restart_and_check s io b st2 = Some (r, st')" for b st2
  proof (rule started [OF adm])
    note k = restart_and_check_state [OF run]
    show "same_admission st1 st'" using k st1 by (auto simp: same_admission_def)
    show "\<not> refusal r"
    proof (cases r)
      case (Inr q)
      with k show ?thesis by (auto intro!: not_refusal)
    qed (simp add: refusal_def)
    show "dk_restarts (rv_docker st') = dk_restarts (rv_docker st1)
         \<or> dk_restarts (rv_docker st') = dk_restarts (rv_docker st1) @ [rs_container s]" using k st1 by auto
  qed
  show thesis
  proof (cases p)
    case (Some q)
    with adm assms have "r = Inr q" "st' = st1" by (simp_all add: attempt_recovery_def)
    with adm Some admit_refusal [of s io st q st1] show thesis by (auto intro: refused)
  next
    case None
    show thesis
    proof (cases v)
      case True
      with None adm assms have "restart_and_check s io False st1 = Some (r, st')" by (simp add: attempt_recovery_def)
      with adm None run show thesis by (simp add: same_admission_def)
    next
      case False
      obtain x st2 where rb: "restore_branch s io st1 = (x, st2)" by fastforce
      note k = restore_branch_state [OF rb]
      show thesis
      proof (cases "x = Inr None")
        case True
        with False None adm assms rb have "restart_and_check s io True st2 = Some (r, st')"
          by (simp add: attempt_recovery_def)
        with adm None k run show thesis by blast
      next
        case x: False
        with False None adm assms rb have "st' = st2" "r = (case x of Inl e \<Rightarrow> Inl e | Inr q \<Rightarrow> Inr (the q))"
          by (auto simp: attempt_recovery_def split: sum.splits option.splits)
        moreover from this x k have "\<not> refusal r"
          by (auto simp: not_refusal split: sum.splits option.splits) (auto simp: refusal_def)
        ultimately show thesis using started adm None k by metis
      qed
    qed
  qed
qed

section \<open>Sequences of attempts\<close>

text \<open>
  One step of a sequence: the disk as others have left it, the inputs, and the verdict on the
  configuration. The trace has the time and the outcome of every attempt that ends; a wait that never
  ends stops the caller, and with it the sequence.
\<close>

record recovery_step =
  sp_disk :: disk
  sp_io :: attempt_io
  sp_valid :: bool

fun recovery_trace ::
    "recovery_settings \<Rightarrow> recovery_step list \<Rightarrow> recovery_state \<Rightarrow>
     (real \<times> (exn + recovery_result)) list \<times> recovery_state" where
  "recovery_trace s [] st = ([], st)"
| "recovery_trace s (x # xs) st =
     (case attempt_recovery s (sp_io x) (sp_valid x) (st\<lparr>rv_disk := sp_disk x\<rparr>) of
        None \<Rightarrow> ([], st)
      | Some (r, st') \<Rightarrow>
          (let (ts, st'') = recovery_trace s xs st' in ((io_now (sp_io x), r) # ts, st'')))"

definition started_at :: "(real \<times> (exn + recovery_result)) list \<Rightarrow> real list" where
  "started_at ts = map fst (filter (\<lambda>x. \<not> refusal (snd x)) ts)"

text \<open>Any \<open>k + 1\<close> entries in a row span at least \<open>w\<close>.\<close>

definition spaced :: "nat \<Rightarrow> real \<Rightarrow> real list \<Rightarrow> bool" where
  "spaced k w ts \<longleftrightarrow> (\<forall>i. i + k < length ts \<longrightarrow> w \<le> ts ! (i + k) - ts ! i)"

lemma spaced_snoc:
  assumes "spaced k w ts" and "k \<le> length ts \<Longrightarrow> w \<le> x - ts ! (length ts - k)" and "0 < k"
  shows "spaced k w (ts @ [x])"
  unfolding spaced_def
proof (intro allI impI)
  fix i
  assume i: "i + k < length (ts @ [x])"
  show "w \<le> (ts @ [x]) ! (i + k) - (ts @ [x]) ! i"
  proof (cases "i + k = length ts")
    case True
    then have "i = length ts - k" "k \<le> length ts" "i < length ts" using assms(3) by auto
    with True assms(2) show ?thesis by (simp add: nth_append)
  next
    case False
    with i assms(1) show ?thesis by (simp add: nth_append spaced_def)
  qed
qed

text \<open>What the manager keeps of the history \<open>hs\<close> of started attempts, all before time \<open>t\<close>.\<close>

definition rate_inv :: "recovery_settings \<Rightarrow> real list \<Rightarrow> real \<Rightarrow> recovery_state \<Rightarrow> bool" where
  "rate_inv s hs t st \<longleftrightarrow>
     (\<exists>n. rv_attempts st = drop n hs \<and> (\<forall>a \<in> set (take n hs). rs_window s \<le> t - a))
     \<and> rv_last st = (if hs = [] then None else Some (last hs))
     \<and> spaced (nat (rs_max_recoveries s)) (rs_window s) hs \<and> spaced 1 (rs_cooldown s) hs"

lemma rate_inv_later:
  assumes "rate_inv s hs t st" and "t \<le> t'"
  shows "rate_inv s hs t' st"
  using assms unfolding rate_inv_def by fastforce

lemma expire_drop:
  assumes "\<forall>a \<in> set (take n hs). w \<le> t - a"
  shows "\<exists>m. expire w t (drop n hs) = drop m hs \<and> (\<forall>a \<in> set (take m hs). w \<le> t - a)"
proof -
  let ?P = "\<lambda>a. w \<le> t - a"
  let ?k = "length (takeWhile ?P (drop n hs))"
  have "expire w t (drop n hs) = drop (?k + n) hs"
    by (simp add: expire_def dropWhile_eq_drop)
  moreover have "take (?k + n) hs = take n hs @ takeWhile ?P (drop n hs)"
    by (metis add.commute take_add takeWhile_eq_take)
  moreover have "\<forall>a \<in> set (takeWhile ?P (drop n hs)). ?P a" using set_takeWhileD by fast
  ultimately show ?thesis using assms by (intro exI [of _ "?k + n"]) auto
qed

lemma rate_inv_admit:
  assumes inv: "rate_inv s hs (io_now io) st" and adm: "admit s io st = (q, st')"
    and pos: "1 \<le> rs_max_recoveries s"
  shows "rate_inv s (if q = None then hs @ [io_now io] else hs) (io_now io) st'"
proof -
  let ?t = "io_now io" and ?w = "rs_window s" and ?k = "nat (rs_max_recoveries s)"
  from inv obtain n where "rv_attempts st = drop n hs" "\<forall>a \<in> set (take n hs). ?w \<le> ?t - a"
    by (auto simp: rate_inv_def)
  with expire_drop obtain m where m: "expire ?w ?t (rv_attempts st) = drop m hs"
    "\<forall>a \<in> set (take m hs). ?w \<le> ?t - a" by metis
  have rest: "rv_last st = (if hs = [] then None else Some (last hs))" "spaced ?k ?w hs" "spaced 1 (rs_cooldown s) hs"
    using inv by (auto simp: rate_inv_def)
  show ?thesis
  proof (cases "q = None")
    case False
    then have "rv_attempts st' = drop m hs" "rv_last st' = rv_last st"
      using adm m(1) by (auto simp: admit_def Let_def split: if_splits)
    with False m rest show ?thesis by (auto simp: rate_inv_def)
  next
    case True
    then have st': "rv_attempts st' = drop m hs @ [?t]" "rv_last st' = Some ?t"
      and few: "int (length (drop m hs)) < rs_max_recoveries s"
      and cool: "\<not> (rv_last st \<noteq> None \<and> ?t - the (rv_last st) < rs_cooldown s)"
      using adm m(1) by (auto simp: admit_def Let_def split: if_splits)
    have "spaced ?k ?w (hs @ [?t])"
    proof (rule spaced_snoc [OF rest(2)])
      assume k: "?k \<le> length hs"
      have "length hs - ?k < m" "length hs - ?k < length hs" using few k pos by auto
      then have "hs ! (length hs - ?k) \<in> set (take m hs)" by (auto simp: in_set_conv_nth intro!: exI [of _ "length hs - ?k"])
      with m(2) show "?w \<le> ?t - hs ! (length hs - ?k)" by blast
    qed (use pos in simp)
    moreover have "spaced 1 (rs_cooldown s) (hs @ [?t])"
    proof (rule spaced_snoc [OF rest(3)])
      assume "1 \<le> length hs"
      then have "hs \<noteq> []" by auto
      with cool rest(1) show "rs_cooldown s \<le> ?t - hs ! (length hs - 1)" by (simp add: last_conv_nth)
    qed simp
    moreover have "\<exists>n. rv_attempts st' = drop n (hs @ [?t]) \<and> (\<forall>a \<in> set (take n (hs @ [?t])). ?w \<le> ?t - a)"
    proof (intro exI conjI)
      show "rv_attempts st' = drop (min m (length hs)) (hs @ [?t])" unfolding st'(1) by (cases "m \<le> length hs") auto
      show "\<forall>a \<in> set (take (min m (length hs)) (hs @ [?t])). ?w \<le> ?t - a" using m(2) by (auto simp: min_def)
    qed
    ultimately show ?thesis using True st'(2) unfolding rate_inv_def by simp
  qed
qed

lemma rate_inv_same: "same_admission a b \<Longrightarrow> rate_inv s hs t a \<Longrightarrow> rate_inv s hs t b"
  by (simp add: rate_inv_def same_admission_def)

lemma recovery_trace_rate:
  assumes "rate_inv s hs t st" and "1 \<le> rs_max_recoveries s"
    and "sorted (t # map (\<lambda>x. io_now (sp_io x)) xs)" and "recovery_trace s xs st = (ts, st')"
  shows "(\<exists>t'. rate_inv s (hs @ started_at ts) t' st')
    \<and> (\<exists>n \<le> length (started_at ts). dk_restarts (rv_docker st') = dk_restarts (rv_docker st) @ replicate n (rs_container s))"
  using assms
proof (induction xs arbitrary: hs t st ts st')
  case Nil
  then show ?case by (auto simp: started_at_def)
next
  case (Cons x xs)
  let ?st = "st\<lparr>rv_disk := sp_disk x\<rparr>" and ?io = "sp_io x"
  show ?case
  proof (cases "attempt_recovery s ?io (sp_valid x) ?st")
    case None
    with Cons.prems show ?thesis by (auto simp: started_at_def)
  next
    case (Some y)
    obtain r st1 where y: "y = (r, st1)" by (cases y)
    obtain us st2 where tr: "recovery_trace s xs st1 = (us, st2)" by fastforce
    with Some y Cons.prems(4) have ts: "ts = (io_now ?io, r) # us" "st' = st2" by auto
    have inv: "rate_inv s hs (io_now ?io) ?st"
      using rate_inv_later [OF Cons.prems(1), of "io_now ?io"] Cons.prems(3) by (simp add: rate_inv_def)
    from Some y have att: "attempt_recovery s ?io (sp_valid x) ?st = Some (r, st1)" by simp
    show ?thesis
    proof (cases rule: attempt_cases [OF att])
      case (1 q)
      have "rate_inv s hs (io_now ?io) st1" using rate_inv_admit [OF inv 1(1) Cons.prems(2)] by simp
      from Cons.IH [OF this Cons.prems(2) _ tr] Cons.prems(3)
      have "(\<exists>t'. rate_inv s (hs @ started_at us) t' st2)
        \<and> (\<exists>n \<le> length (started_at us). dk_restarts (rv_docker st2) = dk_restarts (rv_docker st1) @ replicate n (rs_container s))"
        by simp
      moreover have "rv_docker st1 = rv_docker st" using admit_refusal [OF 1(1)] by simp
      moreover have "started_at ts = started_at us" using 1(3) by (simp add: ts started_at_def)
      ultimately show ?thesis by (simp add: ts)
    next
      case (2 st0)
      have "rate_inv s (hs @ [io_now ?io]) (io_now ?io) st1"
        using rate_inv_same [OF 2(2)] rate_inv_admit [OF inv 2(1) Cons.prems(2)] by simp
      from Cons.IH [OF this Cons.prems(2) _ tr] Cons.prems(3)
      have IH: "(\<exists>t'. rate_inv s ((hs @ [io_now ?io]) @ started_at us) t' st2)
        \<and> (\<exists>n \<le> length (started_at us). dk_restarts (rv_docker st2) = dk_restarts (rv_docker st1) @ replicate n (rs_container s))"
        by simp
      then obtain n where n: "n \<le> length (started_at us)"
        "dk_restarts (rv_docker st2) = dk_restarts (rv_docker st1) @ replicate n (rs_container s)" by blast
      have docker: "rv_docker st0 = rv_docker st" using 2(1) by (auto simp: admit_def Let_def split: if_splits)
      have sa: "started_at ts = io_now ?io # started_at us" using 2(3) by (simp add: ts started_at_def)
      have "\<exists>n \<le> length (started_at ts). dk_restarts (rv_docker st2) = dk_restarts (rv_docker st) @ replicate n (rs_container s)"
        using 2(4)
      proof
        assume "dk_restarts (rv_docker st1) = dk_restarts (rv_docker st0)"
        with n docker sa show ?thesis by (intro exI [of _ n]) simp
      next
        assume "dk_restarts (rv_docker st1) = dk_restarts (rv_docker st0) @ [rs_container s]"
        with n docker sa show ?thesis by (intro exI [of _ "Suc n"]) (simp add: replicate_append_same [symmetric])
      qed
      with IH sa ts show ?thesis by simp
    qed
  qed
qed

end
