(* ===== verification/RecoveryContract.thy ===== *)
theory RecoveryContract
  imports RecoveryRun
begin

text \<open>
  The properties of recovery: which configuration is in place after an attempt, the rate limit,
  manual intervention, what success means, that an attempt ends and what it raises, and the round trip
  from a backup over a damaged configuration back to the backed-up bytes.
\<close>

section \<open>A client of trusted backups\<close>

text \<open>
  The proof about the client, once, for any source of backups that keeps the promises of
  \<open>trusted_backups\<close> and any way to install one of its files outside its directory.
\<close>

definition restore_latest :: "(disk, path option) cmd \<Rightarrow> (path \<Rightarrow> (disk, unit) cmd) \<Rightarrow> (disk, bool) cmd" where
  "restore_latest latest install =
     bind_cmd latest (\<lambda>p. case p of None \<Rightarrow> ret False | Some q \<Rightarrow> bind_cmd (install q) (\<lambda>_. ret True))"

definition same_dir :: "string \<Rightarrow> contents \<Rightarrow> contents \<Rightarrow> bool" where
  "same_dir dir c0 c \<longleftrightarrow> (\<forall>n. c (dir, n) = c0 (dir, n))"

context trusted_backups begin

lemma restore_trusted:
  assumes install: "\<And>q c0. triple (\<lambda>c. c = c0) (install q)
      (\<lambda>_ c. same_dir dir c0 c \<and> (\<exists>f g. c0 q = Some f \<and> c config = Some g \<and> f_data g = f_data f))
      (\<lambda>c. same_dir dir c0 c \<and> c config = c0 config)"
  shows "triple (\<lambda>c. c = c0 \<and> trusted c) (restore_latest latest install)
     (\<lambda>b c. trusted c \<and> (if b then \<exists>g. c config = Some g \<and> accepted (f_data g) else c config = c0 config))
     (\<lambda>c. trusted c \<and> c config = c0 config)"
proof -
  let ?R = "\<lambda>c. trusted c \<and> c config = c0 config"
  let ?Q = "\<lambda>b c. trusted c \<and> (if b then \<exists>g. c config = Some g \<and> accepted (f_data g) else c config = c0 config)"
  let ?ok = "\<lambda>p. \<forall>q. p = Some q \<longrightarrow> (\<exists>f. c0 q = Some f \<and> accepted (f_data f))"
  have keep: "trusted c0 \<Longrightarrow> same_dir dir c0 c \<Longrightarrow> trusted c" for c
    using trusted_cong [of c c0] by (simp add: same_dir_def)
  have first: "triple (\<lambda>c. c = c0 \<and> trusted c) latest (\<lambda>p c. c = c0 \<and> trusted c \<and> ?ok p) ?R"
  proof (cases "trusted c0")
    case True
    then show ?thesis by (intro triple_conseq [OF latest [of c0]]) auto
  next
    case False
    then have "\<not> (find_file d = c0 \<and> trusted (find_file d))" for d by auto
    then show ?thesis unfolding triple_def by blast
  qed
  have second: "triple (\<lambda>c. c = c0 \<and> trusted c \<and> ?ok p)
      (case p of None \<Rightarrow> ret False | Some q \<Rightarrow> bind_cmd (install q) (\<lambda>_. ret True)) ?Q ?R" for p
  proof (cases p)
    case None
    then show ?thesis by (auto simp: triple_def)
  next
    case (Some q)
    show ?thesis
    proof (cases "trusted c0 \<and> (\<exists>f. c0 q = Some f \<and> accepted (f_data f))")
      case True
      have "triple (\<lambda>c. c = c0 \<and> trusted c \<and> ?ok p) (install q)
          (\<lambda>_ c. trusted c \<and> (\<exists>g. c config = Some g \<and> accepted (f_data g))) ?R"
        by (rule triple_conseq [OF install [of c0 q]]) (use True in \<open>auto intro: keep\<close>)
      then show ?thesis
        unfolding Some option.case by (rule triple_bind) (rule triple_ret, simp)
    next
      case False
      then show ?thesis by (auto simp: Some triple_def)
    qed
  qed
  show ?thesis unfolding restore_latest_def by (rule triple_bind [OF first second])
qed

end

section \<open>Which configuration is in place\<close>

text \<open>The configuration is outside the backup directory and not named like a temporary file.\<close>

definition config_apart :: "recovery_settings \<Rightarrow> bool" where
  "config_apart s \<longleftrightarrow> fst (rs_config s) \<noteq> rs_backup_dir s \<and> \<not> is_temp (snd (rs_config s))"

lemma install_apart:
  assumes "fst config \<noteq> dir" and "\<not> is_temp (snd config)"
  shows "triple (\<lambda>c. c = c0) (restore_backup q config)
      (\<lambda>_ c. same_dir dir c0 c \<and> (\<exists>f g. c0 q = Some f \<and> c config = Some g \<and> f_data g = f_data f))
      (\<lambda>c. same_dir dir c0 c \<and> c config = c0 config)"
proof (rule triple_conseq [OF triple_restore [OF assms(2)]])
  have out: "(dir, n) \<notin> temps (fst config)" "(dir, n) \<noteq> config" "config \<notin> temps (fst config)" for n
    using assms by (auto simp: temps_def)
  show "same_dir dir c0 c \<and> (\<exists>f g. c0 q = Some f \<and> c config = Some g \<and> f_data g = f_data f)"
    if "restored_from c0 q config c" for c
    using that out by (auto simp: restored_from_def same_dir_def same_except_def)
  show "same_dir dir c0 c \<and> c config = c0 config" if "same_except (temps (fst config)) c0 c" for c
    using same_exceptD [OF that] out by (simp add: same_dir_def)
qed assumption

text \<open>The branch of an attempt is this client.\<close>

lemma restore_branch_client:
  "\<exists>res. restore_latest (get_latest_backup (rs_backup_dir s)) (\<lambda>q. restore_backup q (rs_config s)) (rv_disk st)
       = (res, rv_disk (snd (restore_branch s io st)))
     \<and> (fst (restore_branch s io st) = Inr None \<longleftrightarrow> res = Inr True)"
  by (auto simp: restore_latest_def restore_branch_def bind_cmd_def Let_def split: prod.split sum.split option.split)

lemma restore_branch_config:
  assumes "config_apart s" and "good_backups safe_load errors (rs_backup_dir s) (find_file (rv_disk st))"
    and "restore_branch s io st = (q, st')"
  shows "good_backups safe_load errors (rs_backup_dir s) (find_file (rv_disk st'))
    \<and> (if q = Inr None then \<exists>g. find_file (rv_disk st') (rs_config s) = Some g \<and> valid_bytes safe_load errors (f_data g)
       else find_file (rv_disk st') (rs_config s) = find_file (rv_disk st) (rs_config s))"
proof -
  have apart: "fst (rs_config s) \<noteq> rs_backup_dir s" "\<not> is_temp (snd (rs_config s))"
    using assms(1) by (auto simp: config_apart_def)
  note client = backups.restore_trusted [OF install_apart [OF apart],
      of "find_file (rv_disk st)" safe_load errors]
  obtain res where run: "restore_latest (get_latest_backup (rs_backup_dir s)) (\<lambda>q. restore_backup q (rs_config s)) (rv_disk st)
       = (res, rv_disk st')" and res: "q = Inr None \<longleftrightarrow> res = Inr True"
    using restore_branch_client [of s st io] assms(3) by auto
  show ?thesis
  proof (cases res)
    case (Inl e)
    with tripleD_Inl [OF client _ run [unfolded Inl]] assms(2) res show ?thesis by auto
  next
    case (Inr b)
    with tripleD_Inr [OF client _ run [unfolded Inr]] assms(2) res show ?thesis by auto
  qed
qed

text \<open>A whole attempt.\<close>

lemma attempt_config:
  assumes apart: "config_apart s" and good: "good_backups safe_load errors (rs_backup_dir s) (find_file (rv_disk st))"
    and run: "attempt_recovery s io v st = Some (r, st')"
  shows "good_backups safe_load errors (rs_backup_dir s) (find_file (rv_disk st'))
    \<and> (find_file (rv_disk st') (rs_config s) = find_file (rv_disk st) (rs_config s)
       \<or> \<not> v \<and> (\<exists>g. find_file (rv_disk st') (rs_config s) = Some g \<and> valid_bytes safe_load errors (f_data g)))
    \<and> (\<forall>q. r = Inr q \<longrightarrow> rr_restored q \<longrightarrow>
         (\<exists>g. find_file (rv_disk st') (rs_config s) = Some g \<and> valid_bytes safe_load errors (f_data g)))"
proof -
  obtain p st1 where adm: "admit s io st = (p, st1)" by fastforce
  then have d1: "rv_disk st1 = rv_disk st" by (auto simp: admit_def Let_def split: if_splits)
  have keep: "rv_disk b = rv_disk a \<and> (\<forall>q. r = Inr q \<longrightarrow> rr_restored q = w)"
    if "restart_and_check s io w a = Some (r, b)" for a b w
    using restart_and_check_state [OF that] by blast
  show ?thesis
  proof (cases p)
    case (Some q)
    with adm run have "r = Inr q" "st' = st1" by (simp_all add: attempt_recovery_def)
    moreover have "\<not> rr_restored q" using admit_refusal [of s io st q st1] adm Some by (auto simp: refusal_def failed_def)
    ultimately show ?thesis using d1 good by simp
  next
    case None
    show ?thesis
    proof (cases v)
      case True
      with None adm run have "restart_and_check s io False st1 = Some (r, st')" by (simp add: attempt_recovery_def)
      from keep [OF this] d1 good show ?thesis by auto
    next
      case False
      obtain x st2 where rb: "restore_branch s io st1 = (x, st2)" by fastforce
      note c = restore_branch_config [OF apart _ rb, unfolded d1, OF good]
      show ?thesis
      proof (cases "x = Inr None")
        case True
        with False None adm run rb have "restart_and_check s io True st2 = Some (r, st')"
          by (simp add: attempt_recovery_def)
        from keep [OF this] c True False show ?thesis by auto
      next
        case x: False
        with False None adm run rb have "st' = st2" "r = (case x of Inl e \<Rightarrow> Inl e | Inr q \<Rightarrow> Inr (the q))"
          by (auto simp: attempt_recovery_def split: sum.splits option.splits)
        moreover have "\<forall>q. x = Inr (Some q) \<longrightarrow> \<not> rr_restored q" using restore_branch_state [OF rb] by blast
        ultimately show ?thesis using c x by (auto split: sum.splits option.splits)
      qed
    qed
  qed
qed

definition demo_settings :: recovery_settings where
  "demo_settings = \<lparr>rs_config = demo_config, rs_backup_dir = demo_dir, rs_container = ''gateway-simulator'',
     rs_allowed = {''gateway-simulator''}, rs_cooldown = 60, rs_max_recoveries = 3, rs_window = 600, rs_wait = 30\<rparr>"

definition demo_state :: "disk \<Rightarrow> recovery_state" where
  "demo_state d = \<lparr>rv_status = ''ready'', rv_attempts = [], rv_last = None, rv_disk = d,
     rv_docker = \<lparr>dk_restarts = [], dk_log = []\<rparr>, rv_log = []\<rparr>"

text \<open>Docker obeys and the gateway is healthy afterwards.\<close>

definition demo_io :: "real \<Rightarrow> attempt_io" where
  "demo_io t = \<lparr>io_now = t, io_stamp = (\<lambda>k. noon), io_docker_now = noon,
     io_get = (\<lambda>n. Inr [(''io.nexguard.managed'', ''true'')]), io_restart = Inr (), io_wait_get = Inr (),
     io_wait_clock = (\<lambda>k. t + real k / 2), io_reload = (\<lambda>k. Inr ''running''), io_time = (\<lambda>k. t + real k / 2),
     io_health = (\<lambda>k. Inr \<lparr>hr_ok = True, hr_reason = ''ok'', hr_checked_at = noon, hr_status_code = Some 200, hr_duration = 0\<rparr>),
     io_describe = (\<lambda>e. (''Error'', ''text''))\<rparr>"

lemma demo_apart: "config_apart demo_settings"
  by (simp add: config_apart_def demo_settings_def demo_paths) (simp add: demo_config_def is_temp_def)

text \<open>In the demonstration an attempt that gets past the configuration succeeds.\<close>

lemma demo_restart_and_check:
  "\<exists>st'. restart_and_check demo_settings (demo_io t) b st
     = Some (Inr \<lparr>rr_success = True, rr_reason = ''ok'', rr_restored = b\<rparr>, st') \<and> rv_disk st' = rv_disk st"
  by (simp add: restart_and_check_def restart_branch_def restart_container_def bind_cmd_def wait_for_running_def
      wait_loop.simps readiness_loop.simps check_readiness_def demo_settings_def demo_io_def Let_def)

text \<open>
  C5. Recovery never installs anything but a good backup: with trusted backups in a directory of their
  own, an attempt leaves the configuration as it was, or replaces it, and only when it was
  invalid, by the bytes of a configuration the controller accepts; a result that says the configuration is
  restored is true; and the backups are as trustworthy as before. All of it holds for every plan of
  faults and wherever the process dies.
\<close>

theorem recovery_installs_valid_config:
  assumes "config_apart s" and "good_backups safe_load errors (rs_backup_dir s) (find_file (rv_disk st))"
    and "attempt_recovery s io config_valid st = Some (r, st')"
  shows "good_backups safe_load errors (rs_backup_dir s) (find_file (rv_disk st'))
    \<and> (find_file (rv_disk st') (rs_config s) = find_file (rv_disk st) (rs_config s)
       \<or> \<not> config_valid \<and> (\<exists>g. find_file (rv_disk st') (rs_config s) = Some g \<and> valid_bytes safe_load errors (f_data g)))
    \<and> (\<forall>q. r = Inr q \<longrightarrow> rr_restored q \<longrightarrow>
         (\<exists>g. find_file (rv_disk st') (rs_config s) = Some g \<and> valid_bytes safe_load errors (f_data g)))"
  using attempt_config [OF assms] .

text \<open>The same for one restoration: what a run of \<^verbatim>\<open>restore_backup\<close> leaves.\<close>

lemma restore_run:
  assumes "\<not> is_temp (snd config)" and "restore_backup backup config d = (r, d')"
  shows "case r of Inl e \<Rightarrow> same_except (temps (fst config)) (find_file d) (find_file d')
    | Inr u \<Rightarrow> restored_from (find_file d) backup config (find_file d')"
  using tripleD_Inl [OF triple_restore [OF assms(1)] refl, of backup d _ d']
    tripleD_Inr [OF triple_restore [OF assms(1)] refl, of backup d _ d'] assms(2)
  by (cases r) auto

text \<open>
  Restoring is all or nothing: for every plan of faults, a call that raises has left the
  configuration and every other file that is not a temporary file of its directory as they were; a call that
  returns has found the backup's checksum right and put its bytes in place, with the mode and group of
  the file it replaced, and has changed nothing else.
\<close>

theorem restore_is_atomic:
  assumes "\<not> is_temp (snd config)" and "restore_backup backup config d = (r, d')" and "p \<notin> temps (fst config)"
  shows "(\<exists>e. r = Inl e) \<and> find_file d' p = find_file d p
    \<or> r = Inr () \<and> verified (find_file d) backup \<and> (p \<noteq> config \<longrightarrow> find_file d' p = find_file d p)
      \<and> (\<exists>f g. find_file d backup = Some f \<and> find_file d' config = Some g \<and> f_data g = f_data f
           \<and> (case find_file d config of None \<Rightarrow> f_mode g = 0x1B4
              | Some h \<Rightarrow> f_mode g = f_mode h \<and> f_gid g = f_gid h))"
proof (cases r)
  case (Inl e)
  with restore_run [OF assms(1,2)] assms(3) same_exceptD [of _ "find_file d" "find_file d'" p] show ?thesis by auto
next
  case (Inr u)
  with restore_run [OF assms(1,2)] have rest: "restored_from (find_file d) backup config (find_file d')" by simp
  then have "p \<noteq> config \<longrightarrow> find_file d' p = find_file d p"
    using assms(3) same_exceptD [of "temps (fst config) \<union> {config}" "find_file d" "find_file d'" p]
    by (auto simp: restored_from_def)
  with rest Inr show ?thesis by (auto simp: restored_from_def keeps_owner_def)
qed

section \<open>The rate limit\<close>

text \<open>
  The rate limit holds over any sequence of attempts at times that do not go back: of the attempts
  that start, any \<^verbatim>\<open>max_recoveries_per_window\<close> + 1 in a row span at least the window and any two are a cooldown
  apart; and the containers restarted in all are the configured one, at most once for each attempt that started.
\<close>

theorem recoveries_are_rate_limited:
  assumes "new_recovery s d w lg = Inr st" and "sorted (map (\<lambda>x. io_now (sp_io x)) xs)"
    and "recovery_trace s xs st = (ts, st')"
  shows "spaced (nat (rs_max_recoveries s)) (rs_window s) (started_at ts)
    \<and> spaced 1 (rs_cooldown s) (started_at ts)
    \<and> (\<exists>n \<le> length (started_at ts). dk_restarts (rv_docker st') = dk_restarts w @ replicate n (rs_container s))"
proof -
  define t where "t = (if xs = [] then 0 else io_now (sp_io (hd xs)))"
  have st: "rv_attempts st = []" "rv_last st = None" "rv_docker st = w" and pos: "1 \<le> rs_max_recoveries s"
    using assms(1) by (auto simp: new_recovery_def split: if_splits)
  have inv: "rate_inv s [] t st" using st by (simp add: rate_inv_def spaced_def)
  have srt: "sorted (t # map (\<lambda>x. io_now (sp_io x)) xs)"
    using assms(2) by (cases xs) (auto simp: t_def)
  from recovery_trace_rate [OF inv pos srt assms(3)] st(3) show ?thesis by (auto simp: rate_inv_def)
qed

definition demo_step :: "real \<Rightarrow> recovery_step" where
  "demo_step t = \<lparr>sp_disk = demo_disk, sp_io = demo_io t, sp_valid = True\<rparr>"

lemma demo_new: "new_recovery demo_settings demo_disk \<lparr>dk_restarts = [], dk_log = []\<rparr> [] = Inr (demo_state demo_disk)"
  by (simp add: new_recovery_def demo_settings_def demo_state_def)

theorem recoveries_are_rate_limited_witness:
  "spaced 3 600 (started_at (fst (recovery_trace demo_settings (map demo_step [0, 30, 60, 120, 700]) (demo_state demo_disk))))"
proof -
  let ?xs = "map demo_step [0, 30, 60, 120, 700]"
  obtain ts st' where tr: "recovery_trace demo_settings ?xs (demo_state demo_disk) = (ts, st')" by fastforce
  have "sorted (map (\<lambda>x. io_now (sp_io x)) ?xs)" by (simp add: demo_step_def demo_io_def)
  from recoveries_are_rate_limited [OF demo_new this tr] tr show ?thesis by (simp add: demo_settings_def)
qed

section \<open>Manual intervention\<close>

lemma attempt_manual:
  assumes "rv_status st = ''manual_intervention_required''"
  shows "\<exists>st'. attempt_recovery s io v st = Some (Inr (failed ''manual_intervention_required'' False), st')
    \<and> rv_status st' = rv_status st \<and> rv_docker st' = rv_docker st \<and> rv_disk st' = rv_disk st \<and> rv_log st' = rv_log st"
  using assms by (simp add: attempt_recovery_def admit_def Let_def)

lemma trace_manual:
  assumes "rv_status st = ''manual_intervention_required''"
  shows "map snd (fst (recovery_trace s xs st)) = replicate (length xs) (Inr (failed ''manual_intervention_required'' False))
    \<and> rv_docker (snd (recovery_trace s xs st)) = rv_docker st \<and> rv_log (snd (recovery_trace s xs st)) = rv_log st"
  using assms
proof (induction xs arbitrary: st)
  case (Cons x xs)
  obtain st1 where a: "attempt_recovery s (sp_io x) (sp_valid x) (st\<lparr>rv_disk := sp_disk x\<rparr>)
      = Some (Inr (failed ''manual_intervention_required'' False), st1)"
    and st1: "rv_status st1 = rv_status st" "rv_docker st1 = rv_docker st" "rv_log st1 = rv_log st"
    using attempt_manual [of "st\<lparr>rv_disk := sp_disk x\<rparr>" s "sp_io x" "sp_valid x"] Cons.prems by auto
  from Cons.IH [of st1] st1 Cons.prems a show ?case by (simp add: split_beta)
qed simp

text \<open>
  C28. Manual intervention is entered exactly when the limit is reached and is final: after an attempt the
  status is \<^verbatim>\<open>manual_intervention_required\<close> if and only if it was before or the attempts still in the window were
  already as many as allowed; and from then on every attempt is refused with that reason, nothing is restarted
  and nothing is logged, however much time passes.
\<close>

theorem manual_intervention_is_final:
  assumes "attempt_recovery s io config_valid st = Some (r, st')"
  shows "(rv_status st' = ''manual_intervention_required'' \<longleftrightarrow>
       rv_status st = ''manual_intervention_required''
       \<or> rs_max_recoveries s \<le> int (length (expire (rs_window s) (io_now io) (rv_attempts st))))
    \<and> (rv_status st' = ''manual_intervention_required'' \<longrightarrow>
         (\<forall>xs. map snd (fst (recovery_trace s xs st')) = replicate (length xs) (Inr (failed ''manual_intervention_required'' False))
            \<and> rv_docker (snd (recovery_trace s xs st')) = rv_docker st'
            \<and> rv_log (snd (recovery_trace s xs st')) = rv_log st'))"
proof -
  have "rv_status st' = ''manual_intervention_required'' \<longleftrightarrow>
       rv_status st = ''manual_intervention_required''
       \<or> rs_max_recoveries s \<le> int (length (expire (rs_window s) (io_now io) (rv_attempts st)))"
  proof (cases rule: attempt_cases [OF assms])
    case (1 q)
    then show ?thesis by (auto simp: admit_def Let_def split: if_splits)
  next
    case (2 st1)
    then show ?thesis by (auto simp: admit_def Let_def same_admission_def split: if_splits)
  qed
  with trace_manual [of st' s] show ?thesis by blast
qed

theorem manual_intervention_is_final_witness:
  "map snd (fst (recovery_trace demo_settings (map demo_step [10000, 20000])
       (snd (the (attempt_recovery demo_settings (demo_io 699) True
          ((demo_state demo_disk)\<lparr>rv_attempts := [100, 200, 300], rv_last := Some 300\<rparr>))))))
     = [Inr (failed ''manual_intervention_required'' False), Inr (failed ''manual_intervention_required'' False)]"
proof -
  let ?st = "(demo_state demo_disk)\<lparr>rv_attempts := [100, 200, 300], rv_last := Some 300\<rparr>"
  obtain r st' where run: "attempt_recovery demo_settings (demo_io 699) True ?st = Some (r, st')"
    and st': "rv_status st' = ''manual_intervention_required''"
    by (simp add: attempt_recovery_def admit_def Let_def expire_def demo_settings_def demo_io_def demo_state_def)
  have "map snd (fst (recovery_trace demo_settings (map demo_step [10000, 20000]) st'))
      = replicate 2 (Inr (failed ''manual_intervention_required'' False))"
    using manual_intervention_is_final [OF run] st' by (simp del: recovery_trace.simps add: numeral_2_eq_2)
  then show ?thesis using run by (simp del: recovery_trace.simps add: numeral_2_eq_2)
qed

section \<open>What success means\<close>

lemma readiness_loop_result:
  assumes "readiness_loop deadline clock health k slept = Some y"
  shows "\<exists>j. health j = fst y"
proof (rule readiness_loop.raw_induct [where P = "\<lambda>deadline clock health k slept y. \<exists>j. health j = fst y", OF _ assms])
  fix f :: "real \<Rightarrow> (nat \<Rightarrow> real) \<Rightarrow> (nat \<Rightarrow> health_result result) \<Rightarrow> nat \<Rightarrow> real list \<Rightarrow> (health_result result \<times> real list) option"
  fix deadline clock health k slept y
  assume "\<And>deadline clock health k slept y. f deadline clock health k slept = Some y \<Longrightarrow> \<exists>j. health j = fst y"
    and "(case health k of Inl e \<Rightarrow> Some (Inl e, slept)
      | Inr r \<Rightarrow> if hr_ok r then Some (Inr r, slept)
          else (let remaining = deadline - clock (Suc k)
             in if remaining \<le> 0 then Some (Inr r, slept)
                else f deadline clock health (Suc k) (slept @ [min (1/2) remaining]))) = Some y"
  then show "\<exists>j. health j = fst y"
    by (auto simp: Let_def split: sum.splits if_splits)
qed

lemma check_readiness_success:
  assumes "check_readiness s io b st = Some (Inr r, st')" and "rr_success r"
  shows "\<exists>k h. io_health io k = Inr h \<and> hr_ok h"
  using assms readiness_loop_result [of "io_time io 0 + rs_wait s" "io_time io" "io_health io" 0 "[]"]
  by (fastforce simp: check_readiness_def failed_def split: option.splits prod.splits sum.splits if_splits)

lemma wait_for_running_True:
  assumes "wait_for_running get timeout poll clock reload = Some (Inr True, slept)"
  shows "\<exists>j. reload j = Inr ''running''"
  using assms wait_loop_answer [of poll "clock 0 + timeout" clock reload 0 "[]" "(Inr True, slept)"]
  by (auto simp: wait_for_running_def answer_ok_def split: if_splits sum.splits)

lemma restart_branch_None:
  assumes "restart_branch s io b st = Some (None, st')"
  shows "dk_restarts (rv_docker st') = dk_restarts (rv_docker st) @ [rs_container s] \<and> rs_container s \<in> rs_allowed s
    \<and> (\<exists>labels. io_get io (rs_container s) = Inr labels \<and> map_of labels ''io.nexguard.managed'' = Some ''true'')
    \<and> (\<exists>j. io_reload io j = Inr ''running'')"
proof -
  obtain u w slept where
    rc: "restart_container (rs_allowed s) (io_docker_now io) (io_get io) (io_restart io) (rs_container s) (rv_docker st) = (Inr u, w)"
    and wait: "wait_for_running (io_wait_get io) (rs_wait s) (1/2) (io_wait_clock io) (io_reload io) = Some (Inr True, slept)"
    and st': "rv_docker st' = w"
    using assms by (auto simp: restart_branch_def Let_def split: prod.splits sum.splits option.splits bool.splits)
  show ?thesis using restart_container_cases [OF rc] wait_for_running_True [OF wait] st' by auto
qed

lemma restart_and_check_success:
  assumes "restart_and_check s io b st = Some (Inr r, st')" and "rr_success r"
  shows "rr_reason r = ''ok'' \<and> rr_restored r = b \<and> rv_disk st' = rv_disk st
    \<and> dk_restarts (rv_docker st') = dk_restarts (rv_docker st) @ [rs_container s] \<and> rs_container s \<in> rs_allowed s
    \<and> (\<exists>labels. io_get io (rs_container s) = Inr labels \<and> map_of labels ''io.nexguard.managed'' = Some ''true'')
    \<and> (\<exists>j. io_reload io j = Inr ''running'') \<and> (\<exists>k h. io_health io k = Inr h \<and> hr_ok h)"
proof -
  obtain p st1 where rb: "restart_branch s io b st = Some (p, st1)"
    using assms(1) by (auto simp: restart_and_check_def split: option.splits)
  note k = restart_branch_state [OF rb]
  have "p = None"
  proof (cases p)
    case (Some q)
    with assms(1) rb have "r = q" by (simp add: restart_and_check_def)
    with Some k assms(2) show ?thesis by simp
  qed simp
  with assms(1) rb have cr: "check_readiness s io b st1 = Some (Inr r, st')" by (simp add: restart_and_check_def)
  show ?thesis
    using check_readiness_state [OF cr] check_readiness_success [OF cr assms(2)] k
      restart_branch_None [of s io b st st1] rb \<open>p = None\<close> assms(2) by auto
qed

text \<open>
  C27. Success is earned: an attempt that reports success has restarted exactly the configured container,
  which was allowlisted and carried the managed label, has seen it running and has seen a healthy check
  afterwards; and it reports a restored configuration exactly if it was invalid, in which
  case a backup with a correct checksum is now in its place.
\<close>

theorem success_is_earned:
  assumes "\<not> is_temp (snd (rs_config s))"
    and "attempt_recovery s io config_valid st = Some (Inr r, st')" and "rr_success r"
  shows "rr_reason r = ''ok'' \<and> rr_restored r = (\<not> config_valid)
    \<and> dk_restarts (rv_docker st') = dk_restarts (rv_docker st) @ [rs_container s] \<and> rs_container s \<in> rs_allowed s
    \<and> (\<exists>labels. io_get io (rs_container s) = Inr labels \<and> map_of labels ''io.nexguard.managed'' = Some ''true'')
    \<and> (\<exists>j. io_reload io j = Inr ''running'') \<and> (\<exists>k h. io_health io k = Inr h \<and> hr_ok h)
    \<and> (if config_valid then rv_disk st' = rv_disk st
       else \<exists>backup. restored_from (find_file (rv_disk st)) backup (rs_config s) (find_file (rv_disk st')))"
proof -
  obtain p st1 where adm: "admit s io st = (p, st1)" by fastforce
  then have same: "rv_disk st1 = rv_disk st" "rv_docker st1 = rv_docker st"
    by (auto simp: admit_def Let_def split: if_splits)
  have p: "p = None"
  proof (cases p)
    case (Some q)
    with adm assms(2) have "r = q" by (simp add: attempt_recovery_def)
    with admit_refusal [of s io st q st1] adm Some assms(3) show ?thesis by (auto simp: refusal_def failed_def)
  qed simp
  show ?thesis
  proof (cases config_valid)
    case True
    with adm p assms(2) have "restart_and_check s io False st1 = Some (Inr r, st')" by (simp add: attempt_recovery_def)
    from restart_and_check_success [OF this assms(3)] True same show ?thesis by simp
  next
    case False
    obtain x st2 where rb: "restore_branch s io st1 = (x, st2)" by fastforce
    have x: "x = Inr None"
    proof (rule ccontr)
      assume "x \<noteq> Inr None"
      with False adm p rb assms(2) have "x = Inr (Some r)"
        by (auto simp: attempt_recovery_def split: sum.splits option.splits)
      with restore_branch_state [OF rb] assms(3) show False by auto
    qed
    with False adm p rb assms(2) have run: "restart_and_check s io True st2 = Some (Inr r, st')"
      by (simp add: attempt_recovery_def)
    from rb x obtain q d d' where l: "get_latest_backup (rs_backup_dir s) (rv_disk st1) = (Inr (Some q), d)"
      and re: "restore_backup q (rs_config s) d = (Inr (), d')" and d': "rv_disk st2 = d'"
      by (auto simp: restore_branch_def Let_def split: prod.splits sum.splits option.splits if_splits)
    have "find_file d = find_file (rv_disk st1)" using tripleD_Inr [OF get_latest_triple refl l] by simp
    then have "restored_from (find_file (rv_disk st)) q (rs_config s) (find_file d')"
      using restore_run [OF assms(1) re] same by simp
    then have "\<exists>backup. restored_from (find_file (rv_disk st)) backup (rs_config s) (find_file (rv_disk st'))"
      using restart_and_check_success [OF run assms(3)] d' by (intro exI [of _ q]) simp
    with restart_and_check_success [OF run assms(3)] False same restore_branch_state [OF rb]
    show ?thesis by simp
  qed
qed

theorem success_is_earned_witness:
  "\<exists>st'. attempt_recovery demo_settings (demo_io 0) True (demo_state demo_disk)
       = Some (Inr \<lparr>rr_success = True, rr_reason = ''ok'', rr_restored = False\<rparr>, st')
     \<and> dk_restarts (rv_docker st') = [''gateway-simulator'']"
proof -
  obtain st1 where adm: "admit demo_settings (demo_io 0) (demo_state demo_disk) = (None, st1)"
    by (simp add: admit_def Let_def expire_def demo_settings_def demo_io_def demo_state_def)
  obtain st' where "restart_and_check demo_settings (demo_io 0) False st1
     = Some (Inr \<lparr>rr_success = True, rr_reason = ''ok'', rr_restored = False\<rparr>, st')" using demo_restart_and_check by blast
  with adm have run: "attempt_recovery demo_settings (demo_io 0) True (demo_state demo_disk)
       = Some (Inr \<lparr>rr_success = True, rr_reason = ''ok'', rr_restored = False\<rparr>, st')"
    by (simp add: attempt_recovery_def)
  from success_is_earned [OF _ run] demo_apart run show ?thesis
    by (simp add: config_apart_def demo_settings_def demo_state_def)
qed

section \<open>An attempt ends\<close>

text \<open>
  The readiness loop is the polling loop of \<^verbatim>\<open>wait_for_running\<close> with the health check for the status, so it
  ends as that one does.
\<close>

definition as_status :: "(nat \<Rightarrow> health_result result) \<Rightarrow> nat \<Rightarrow> exn + string" where
  "as_status health k = (case health k of Inl e \<Rightarrow> Inl e | Inr r \<Rightarrow> Inr (if hr_ok r then ''running'' else ''unhealthy''))"

lemma readiness_is_wait:
  assumes "wait_loop (1/2) deadline clock (as_status health) k slept = Some y"
  shows "\<exists>q. readiness_loop deadline clock health k slept = Some (q, snd y)"
proof -
  have "\<forall>health. reload = as_status health \<longrightarrow> poll = 1/2 \<longrightarrow>
      (\<exists>q. readiness_loop deadline clock health k slept = Some (q, snd y))"
    if "wait_loop poll deadline clock reload k slept = Some y" for poll reload
  proof (rule wait_loop.raw_induct [where P = "\<lambda>poll deadline clock reload k slept y. \<forall>health. reload = as_status health \<longrightarrow>
      poll = 1/2 \<longrightarrow> (\<exists>q. readiness_loop deadline clock health k slept = Some (q, snd y))", OF _ that])
    fix f :: "real \<Rightarrow> real \<Rightarrow> (nat \<Rightarrow> real) \<Rightarrow> (nat \<Rightarrow> exn + string) \<Rightarrow> nat \<Rightarrow> real list \<Rightarrow> ((exn + bool) \<times> real list) option"
    fix poll deadline clock reload k slept y
    assume IH: "\<And>poll deadline clock reload k slept y. f poll deadline clock reload k slept = Some y \<Longrightarrow>
        \<forall>health. reload = as_status health \<longrightarrow> poll = 1/2 \<longrightarrow>
          (\<exists>q. readiness_loop deadline clock health k slept = Some (q, snd y))"
      and run: "(case reload k of Inl e \<Rightarrow> Some (Inl e, slept)
        | Inr st \<Rightarrow> if st = ''running'' then Some (Inr True, slept)
            else (let remaining = deadline - clock (Suc k)
                  in if remaining \<le> 0 then Some (Inr False, slept)
                     else f poll deadline clock reload (Suc k) (slept @ [min poll remaining]))) = Some y"
    show "\<forall>health. reload = as_status health \<longrightarrow> poll = 1/2 \<longrightarrow>
        (\<exists>q. readiness_loop deadline clock health k slept = Some (q, snd y))"
    proof (intro allI impI)
      fix health
      assume h: "reload = as_status health" "poll = 1/2"
      show "\<exists>q. readiness_loop deadline clock health k slept = Some (q, snd y)"
      proof (cases "\<exists>r. health k = Inr r \<and> \<not> hr_ok r \<and> 0 < deadline - clock (Suc k)")
        case True
        then obtain r where r: "health k = Inr r" "\<not> hr_ok r" "0 < deadline - clock (Suc k)" by blast
        with run have "f poll deadline clock reload (Suc k) (slept @ [min poll (deadline - clock (Suc k))]) = Some y"
          unfolding h by (simp add: as_status_def Let_def)
        from IH [OF this] h have "\<exists>q. readiness_loop deadline clock health (Suc k)
            (slept @ [min (1/2) (deadline - clock (Suc k))]) = Some (q, snd y)" by simp
        with r show ?thesis by (subst readiness_loop.simps) (simp add: Let_def)
      next
        case False
        then show ?thesis using run h
          by (subst readiness_loop.simps) (auto simp: as_status_def Let_def split: sum.splits if_splits)
      qed
    qed
  qed
  with assms show ?thesis by blast
qed

lemma loop_ends:
  assumes "sleeps_pass (1/2) (clock 0 + wait) clock"
  shows "\<exists>y. wait_loop (1/2) (clock 0 + wait) clock reload 0 [] = Some y"
proof -
  obtain n where "wait \<le> real n * (1/2)" using real_arch_simple [of "2 * wait"] by (auto simp: field_simps)
  moreover have "clock 0 \<le> clock (Suc 0)" using assms by (simp add: sleeps_pass_def)
  ultimately have "clock 0 + wait - clock (Suc 0) \<le> real n * (1/2)" by simp
  from wait_loop_ends [OF assms _ this, of reload "[]"] show ?thesis by auto
qed

lemma readiness_ends:
  assumes "sleeps_pass (1/2) (clock 0 + wait) clock"
  shows "\<exists>y. readiness_loop (clock 0 + wait) clock health 0 [] = Some y"
  using readiness_is_wait loop_ends [OF assms, of "as_status health"] by blast

lemma restart_and_check_ends:
  assumes "sleeps_pass (1/2) (io_wait_clock io 0 + rs_wait s) (io_wait_clock io)"
    and "sleeps_pass (1/2) (io_time io 0 + rs_wait s) (io_time io)"
  shows "\<exists>y. restart_and_check s io b st = Some y"
proof -
  have w: "\<exists>y. wait_for_running (io_wait_get io) (rs_wait s) (1/2) (io_wait_clock io) (io_reload io) = Some y"
    using loop_ends [OF assms(1)] by (auto simp: wait_for_running_def split: sum.split)
  then have "\<exists>y. restart_branch s io b st = Some y"
    by (auto simp: restart_branch_def Let_def split: prod.split sum.split bool.split)
  moreover have "\<exists>y. check_readiness s io b st' = Some y" for st'
    using readiness_ends [OF assms(2), of "io_health io"]
    by (auto simp: check_readiness_def split: sum.split prod.split)
  ultimately show ?thesis by (auto simp: restart_and_check_def split: option.split prod.split)
qed

text \<open>Every exception of the backups and of Docker becomes a result; only a health check's leaves.\<close>

lemma restore_branch_returns: "restore_branch s io a = (q, c) \<Longrightarrow> q \<noteq> Inl e"
  using raises_get_latest [of "rs_backup_dir s"] raises_restore [of _ "rs_config s"]
  unfolding restore_branch_def raises_only_def is_file_error_def
  by (fastforce simp: Let_def split: prod.splits sum.splits option.splits if_splits)

lemma restart_and_check_raises:
  assumes "restart_and_check s io b a = Some (Inl e, c)"
  shows "\<exists>k. io_health io k = Inl e"
proof -
  have "\<exists>a'. check_readiness s io b a' = Some (Inl e, c)"
    using assms by (auto simp: restart_and_check_def split: option.splits prod.splits)
  then show ?thesis
  proof (cases "readiness_loop (io_time io 0 + rs_wait s) (io_time io) (io_health io) 0 []")
    case (Some y)
    with \<open>\<exists>a'. check_readiness s io b a' = Some (Inl e, c)\<close> have "fst y = Inl e"
      by (cases y; cases "fst y") (auto simp: check_readiness_def)
    with readiness_loop_result [OF Some] show ?thesis by auto
  qed (simp add: check_readiness_def)
qed

lemma attempt_raises:
  assumes "attempt_recovery s io v st = Some (Inl e, st')"
  shows "\<exists>k. io_health io k = Inl e"
proof -
  have "\<exists>b a c. restart_and_check s io b a = Some (Inl e, c)"
    using assms restore_branch_returns
    by (fastforce simp: attempt_recovery_def split: prod.splits option.splits if_splits sum.splits)
  then show ?thesis using restart_and_check_raises by blast
qed

text \<open>
  C33. Every attempt ends: when the clocks move on by at least each sleep, an attempt returns a result or
  raises, for every behaviour of the disk, of Docker and of the gateway; what it raises is an
  exception of a health check, because every exception of the backups and of Docker becomes a result.
\<close>

theorem attempt_ends:
  assumes "sleeps_pass (1/2) (io_wait_clock io 0 + rs_wait s) (io_wait_clock io)"
    and "sleeps_pass (1/2) (io_time io 0 + rs_wait s) (io_time io)"
  shows "\<exists>r st'. attempt_recovery s io config_valid st = Some (r, st') \<and> (\<forall>e. r = Inl e \<longrightarrow> (\<exists>k. io_health io k = Inl e))"
proof -
  obtain p st1 where "admit s io st = (p, st1)" by fastforce
  moreover obtain q c where "restore_branch s io st1 = (q, c)" by fastforce
  ultimately have "\<exists>y. attempt_recovery s io config_valid st = Some y"
    using restart_and_check_ends [OF assms, of False st1] restart_and_check_ends [OF assms, of True c]
    by (auto simp: attempt_recovery_def split: option.split sum.split)
  then show ?thesis using attempt_raises by fastforce
qed

theorem attempt_ends_witness:
  "\<exists>r st'. attempt_recovery demo_settings ((demo_io 0)\<lparr>io_health := (\<lambda>k. Inr \<lparr>hr_ok = False, hr_reason = ''http_503'',
     hr_checked_at = noon, hr_status_code = Some 503, hr_duration = 0\<rparr>)\<rparr>) True (demo_state demo_disk) = Some (r, st')"
proof -
  have "sleeps_pass (1/2) (real 0 / 2 + 30) (\<lambda>k. real k / 2)"
    by (auto simp: sleeps_pass_def field_simps)
  then show ?thesis
    using attempt_ends [of "(demo_io 0)\<lparr>io_health := (\<lambda>k. Inr \<lparr>hr_ok = False, hr_reason = ''http_503'',
      hr_checked_at = noon, hr_status_code = Some 503, hr_duration = 0\<rparr>)\<rparr>" demo_settings True "demo_state demo_disk"]
    by (auto simp: demo_io_def demo_settings_def)
qed

section \<open>Back to the backed-up bytes\<close>

lemma restore_calm:
  assumes d: "calm d" and ok: "verified (find_file d) backup" and rands: "rand_names d = r # rs"
    and free: "\<And>p. p \<in> temps (fst config) \<Longrightarrow> find_file d p = None"
  shows "\<exists>d'. restore_backup backup config d = (Inr (), d')"
proof -
  obtain f where f: "find_file d backup = Some f" using ok by (auto simp: verified_def)
  obtain d1 g where d1: "make_dir (fst config) d = (Inr (), d1)" "calm d1" "map_of (dirs d1) (fst config) = Some g"
    "rand_names d1 = rand_names d" "find_file d1 = find_file d"
    by (rule make_dir_calm [OF d])
  let ?owner = "catch (bind_cmd (stat_file config) (\<lambda>f. ret (f_mode f, f_gid f))) (\<lambda>e. e = FileNotFoundError)
            (\<lambda>e. bind_cmd (stat_dir (fst config)) (\<lambda>gid. ret (0x1B4, gid)))"
  obtain mode gid where owner: "?owner d1 = (Inr (mode, gid), d1)"
    using d1(2,3) by (cases "find_file d1 config") (auto simp: catch_def bind_cmd_def stat_file_def stat_dir_def with_file_def)
  let ?t = "temp_path (fst config) (snd config) r"
  have free1: "find_file d1 ?t = None" using free temp_path_temps d1(5) by simp
  have rands1: "rand_names d1 = r # rs" using d1(4) rands by simp
  obtain d2 where m: "mkstemp (fst config) (''.'' @ snd config @ ''.'') ''.tmp'' d1 = (Inr ?t, d2)"
    and d2: "calm d2" "find_file d2 = (find_file d1)(?t \<mapsto> \<lparr>f_data = [], f_mode = 0x180, f_gid = proc_gid d1\<rparr>)"
    using mkstemp_calm [OF d1(2,3) rands1 free1] by (auto simp: calm_step_def)
  have there: "find_file d2 ?t = Some \<lparr>f_data = [], f_mode = 0x180, f_gid = proc_gid d1\<rparr>" using d2(2) by simp
  have verify: "verify_backup backup d = (Inr True, d)" using verify_backup_calm [OF d] ok by simp
  have read: "read_file backup d = (Inr (f_data f), d)" using d f by (simp add: read_file_def with_file_def)
  show ?thesis
    unfolding restore_backup_def bind_cmd_Inr [where m = "verify_backup backup", OF verify]
    using d2(1) there
    by (simp only: not_True_eq_False if_False bind_cmd_Inr [where m = "read_file backup", OF read]
        bind_cmd_Inr [where m = "make_dir (fst config)", OF d1(1)] bind_cmd_Inr [where m = ?owner, OF owner]
        prod.case bind_cmd_Inr [where m = "mkstemp (fst config) _ _", OF m])
      (simp add: on_error_def bind_cmd_def write_file_def write_data_def fsync_file_def chmod_file_def chown_file_def
        replace_file_def with_file_def)
qed

text \<open>
  \<^verbatim>\<open>yaml.safe_load\<close> gives the same for every line break (YAML normalises them), so that reading with and
  without the translation of line ends makes no difference.
\<close>

definition line_ends_agree :: "yaml_loader \<Rightarrow> bool" where
  "line_ends_agree safe_load \<longleftrightarrow> (\<forall>t. safe_load (newlines t) = safe_load t)"

lemma valid_bytes_config_ok:
  assumes "line_ends_agree safe_load" and "valid_bytes safe_load errors bs"
  shows "config_ok safe_load errors (Inr bs)"
proof -
  obtain t reason where t: "decode_utf8 bs = Inr t" "check_config_text safe_load errors t = Inr (True, reason)"
    using assms(2) by (auto simp: valid_bytes_def)
  then obtain v where "\<not> blank t" "safe_load t = Inr v" "errors gateway_document v = []"
    by (auto simp: check_config_text_eq validate_schema_def Let_def split: if_splits sum.splits)
  with t(1) assms(1) show ?thesis by (auto simp: config_ok_def line_ends_agree_def)
qed

lemma backup_recover:
  assumes "config_apart s" and "line_ends_agree safe_load"
    and "room_for_backup (rs_backup_dir s) d" and "find_file d (rs_config s) = Some f"
    and "valid_bytes safe_load errors (f_data f)" and "1 \<le> n"
    and "\<forall>m \<in> complete (rs_backup_dir s) (find_file d). m < backup_name now"
  shows "\<exists>d'. create_backup safe_load errors (rs_config s) (rs_backup_dir s) True now n d
        = (Inr (rs_backup_dir s, backup_name now), d')
    \<and> (\<forall>st io. calm (rv_disk st) \<and> same_dir (rs_backup_dir s) (find_file d') (find_file (rv_disk st))
          \<and> rand_names (rv_disk st) \<noteq> [] \<and> (\<forall>p \<in> temps (fst (rs_config s)). find_file (rv_disk st) p = None) \<longrightarrow>
        (\<exists>st' g. restore_branch s io st = (Inr None, st') \<and> find_file (rv_disk st') (rs_config s) = Some g
           \<and> f_data g = f_data f \<and> config_ok safe_load errors (Inr (f_data g))))"
proof -
  let ?dir = "rs_backup_dir s" and ?cfg = "rs_config s" and ?n = "backup_name now"
  obtain d' where run: "create_backup safe_load errors ?cfg ?dir True now n d = (Inr (?dir, ?n), d')"
    using create_calm [OF assms(3-6)] by blast
  from create_backup_Inr [OF run] assms(4) have
    finished: "backup_finished ?dir ?n n now (f_data f) (find_file d) (find_file d')" by auto
  note l = backup_finished_listing [OF is_backup_name_backup_name finite_complete finished]
  have ne: "listing ?dir (find_file d') \<noteq> []" "last (listing ?dir (find_file d')) = ?n"
    using last_newest [OF finite_complete assms(6,7)] l(1) by auto
  then have mem: "?n \<in> set (listing ?dir (find_file d'))" by (metis last_in_set)
  obtain b where b: "find_file d' (?dir, ?n) = Some b" "f_data b = f_data f" using l(1,3) mem by auto
  have ver: "verified (find_file d') (?dir, ?n)"
    using backup_finished_verified [OF is_backup_name_backup_name finished] mem
    by (simp add: listing_def finite_complete)
  have "\<exists>st' g. restore_branch s io st = (Inr None, st') \<and> find_file (rv_disk st') ?cfg = Some g
           \<and> f_data g = f_data f \<and> config_ok safe_load errors (Inr (f_data g))"
    if st: "calm (rv_disk st)" "same_dir ?dir (find_file d') (find_file (rv_disk st))" "rand_names (rv_disk st) \<noteq> []"
      "\<forall>p \<in> temps (fst ?cfg). find_file (rv_disk st) p = None" for st io
  proof -
    let ?d = "rv_disk st"
    have same: "find_file ?d (?dir, m) = find_file d' (?dir, m)" for m using st(2) by (simp add: same_dir_def)
    then have "listing ?dir (find_file ?d) = listing ?dir (find_file d')" by (simp add: listing_def complete_def)
    with ne have latest: "get_latest_backup ?dir ?d = (Inr (Some (?dir, ?n)), ?d)"
      by (simp add: get_latest_calm [OF st(1)])
    have "verified (find_file ?d) (?dir, ?n)" using ver same by (simp add: verified_def)
    moreover obtain r rs where "rand_names ?d = r # rs" using st(3) by (cases "rand_names ?d") auto
    ultimately obtain d3 where re: "restore_backup (?dir, ?n) ?cfg ?d = (Inr (), d3)"
      using restore_calm [OF st(1), of "(?dir, ?n)" r rs ?cfg] st(4) by auto
    then obtain st' where rb: "restore_branch s io st = (Inr None, st')" and st': "rv_disk st' = d3"
      using latest by (auto simp: restore_branch_def)
    have "\<not> is_temp (snd ?cfg)" using assms(1) by (simp add: config_apart_def)
    from restore_run [OF this re] obtain h g where "find_file ?d (?dir, ?n) = Some h" "find_file d3 ?cfg = Some g"
      "f_data g = f_data h" by (auto simp: restored_from_def)
    with b same have "f_data g = f_data f" by simp
    with rb st' \<open>find_file d3 ?cfg = Some g\<close> valid_bytes_config_ok [OF assms(2,5)] show ?thesis by auto
  qed
  with run show ?thesis by blast
qed


text \<open>A witness for the three theorems: a backup, a configuration damaged afterwards, a recovery.\<close>

definition damaged :: "disk \<Rightarrow> disk" where
  "damaged d = (put_file demo_config \<lparr>f_data = ascii_bytes ''{'', f_mode = 0x1B4, f_gid = 20\<rparr> d)\<lparr>rand_names := [''z'']\<rparr>"

lemma demo_line_ends: "line_ends_agree (\<lambda>t. demo_load (newlines t))"
proof -
  have "newlines (newlines t) = newlines t" for t by (induction t rule: newlines.induct) (auto split: list.splits)
  then show ?thesis by (simp add: line_ends_agree_def)
qed

lemma demo_valid_newlines: "valid_bytes (\<lambda>t. demo_load (newlines t)) demo_errors (ascii_bytes ''good'')"
proof -
  have "decode_utf8 (ascii_bytes ''good'') = Inr (of_string ''good'')"
    by (simp add: decode_utf8_def ascii_bytes_def of_string_def)
  moreover have "check_config_text (\<lambda>t. demo_load (newlines t)) demo_errors (of_string ''good'') = Inr (True, ''ok'')"
    by (simp add: demo_evals demo_errors_def is_dict_def)
  ultimately show ?thesis by (auto simp: valid_bytes_def)
qed

lemma demo_fields [simp]:
  "rs_config demo_settings = demo_config" "rs_backup_dir demo_settings = demo_dir"
  "rv_disk (demo_state d) = d" "rand_names (damaged d) = [''z'']"
  by (simp_all add: demo_settings_def demo_state_def damaged_def)

lemmas demo_round_trip_facts = demo_apart demo_line_ends room_demo [folded demo_fields(2)]

lemma demo_recovery:
  "\<exists>d' st1 st'. create_backup (\<lambda>t. demo_load (newlines t)) demo_errors demo_config demo_dir True noon 2 demo_disk
       = (Inr (demo_dir, demo_name), d')
     \<and> good_backups (\<lambda>t. demo_load (newlines t)) demo_errors demo_dir (find_file (damaged d'))
     \<and> calm (damaged d') \<and> same_dir demo_dir (find_file d') (find_file (damaged d'))
     \<and> (\<forall>p \<in> temps (fst demo_config). find_file (damaged d') p = None)
     \<and> restore_branch demo_settings (demo_io 0) (demo_state (damaged d')) = (Inr None, st1)
     \<and> attempt_recovery demo_settings (demo_io 0) False (demo_state (damaged d'))
         = Some (Inr \<lparr>rr_success = True, rr_reason = ''ok'', rr_restored = True\<rparr>, st')"
proof -
  let ?load = "\<lambda>t. demo_load (newlines t)"
  have f: "find_file demo_disk demo_config = Some \<lparr>f_data = ascii_bytes ''good'', f_mode = 0x1B4, f_gid = 20\<rparr>"
    by (simp add: find_demo_disk)
  have v: "valid_bytes ?load demo_errors (f_data \<lparr>f_data = ascii_bytes ''good'', f_mode = 0x1B4, f_gid = 20\<rparr>)"
    using demo_valid_newlines by simp
  obtain d' where run: "create_backup ?load demo_errors demo_config demo_dir True noon 2 demo_disk
      = (Inr (demo_dir, demo_name), d')" and calm: "calm d'"
    using create_calm [OF room_demo f v, of 2 noon] by (auto simp: demo_name_def)
  have out: "find_file d' p = find_file demo_disk p" if "fst p \<noteq> demo_dir" for p
    using create_backup_confined [OF that, of ?load demo_errors demo_config True noon 2 demo_disk] run by simp
  have calm2: "calm (damaged d')" using calm by (simp add: damaged_def)
  have same: "find_file (damaged d') (demo_dir, m) = find_file d' (demo_dir, m)" for m
    by (simp add: damaged_def demo_paths)
  have temps: "find_file (damaged d') p = None" if "p \<in> temps (fst demo_config)" for p
  proof -
    have "fst p \<noteq> demo_dir" "p \<noteq> demo_config"
      using that demo_paths(1) by (auto simp: temps_def) (simp add: demo_config_def is_temp_def)
    with out show ?thesis by (simp add: damaged_def find_demo_disk)
  qed
  have "good_backups ?load demo_errors demo_dir (find_file demo_disk)"
    by (auto simp: good_backups_def find_demo_disk demo_paths)
  then have "good_backups ?load demo_errors demo_dir (find_file d')"
    using create_backup_good [of ?load demo_errors demo_dir demo_disk noon demo_config True 2] run
    by (simp add: find_demo_disk demo_paths)
  then have good: "good_backups ?load demo_errors demo_dir (find_file (damaged d'))"
    by (simp add: good_backups_def same)
  have none: "complete demo_dir (find_file demo_disk) = {}"
    by (auto simp: complete_def find_demo_disk demo_paths)
  have older: "\<forall>m \<in> complete (rs_backup_dir demo_settings) (find_file demo_disk). m < backup_name noon"
    using none by simp
  obtain st1 where rb: "restore_branch demo_settings (demo_io 0) (demo_state (damaged d')) = (Inr None, st1)"
  proof -
    obtain d1 where "create_backup ?load demo_errors demo_config demo_dir True noon 2 demo_disk
          = (Inr (demo_dir, demo_name), d1)"
      and all: "\<And>st io. calm (rv_disk st) \<and> same_dir demo_dir (find_file d1) (find_file (rv_disk st))
          \<and> rand_names (rv_disk st) \<noteq> [] \<and> (\<forall>p \<in> temps (fst demo_config). find_file (rv_disk st) p = None) \<Longrightarrow>
        \<exists>st' g. restore_branch demo_settings io st = (Inr None, st') \<and> find_file (rv_disk st') demo_config = Some g
           \<and> f_data g = ascii_bytes ''good'' \<and> config_ok ?load demo_errors (Inr (f_data g))"
      using backup_recover [OF demo_round_trip_facts f [folded demo_fields(1)] v _ older, of 2]
      by (auto simp: demo_name_def)
    moreover from this(1) run have "d1 = d'" by simp
    moreover have "calm (rv_disk (demo_state (damaged d'))) \<and> same_dir demo_dir (find_file d') (find_file (rv_disk (demo_state (damaged d'))))
        \<and> rand_names (rv_disk (demo_state (damaged d'))) \<noteq> []
        \<and> (\<forall>p \<in> temps (fst demo_config). find_file (rv_disk (demo_state (damaged d'))) p = None)"
      using calm2 same temps by (simp add: same_dir_def)
    ultimately show thesis using that by blast
  qed
  let ?st = "log_recovery (demo_io 0) ''recovery_started'' ''INFO'' ''Recovery attempt started'' []
      ((demo_state (damaged d'))\<lparr>rv_attempts := [0], rv_last := Some 0\<rparr>)"
  have adm: "admit demo_settings (demo_io 0) (demo_state (damaged d')) = (None, ?st)"
    by (simp add: admit_def Let_def expire_def demo_settings_def demo_io_def demo_state_def)
  obtain x st2 where rb2: "restore_branch demo_settings (demo_io 0) ?st = (x, st2)" by fastforce
  have "x = Inr None"
    using restore_branch_client [of demo_settings "demo_state (damaged d')" "demo_io 0"]
      restore_branch_client [of demo_settings ?st "demo_io 0"] rb rb2
    by auto
  moreover obtain st' where "restart_and_check demo_settings (demo_io 0) True st2
      = Some (Inr \<lparr>rr_success = True, rr_reason = ''ok'', rr_restored = True\<rparr>, st')"
    using demo_restart_and_check by blast
  ultimately have "attempt_recovery demo_settings (demo_io 0) False (demo_state (damaged d'))
         = Some (Inr \<lparr>rr_success = True, rr_reason = ''ok'', rr_restored = True\<rparr>, st')"
    using adm rb2 by (simp add: attempt_recovery_def)
  with run good calm2 same temps rb show ?thesis by (auto simp: same_dir_def)
qed


theorem recovery_installs_valid_config_witness:
  "\<exists>d' st'. attempt_recovery demo_settings (demo_io 0) False (demo_state (damaged d'))
       = Some (Inr \<lparr>rr_success = True, rr_reason = ''ok'', rr_restored = True\<rparr>, st')
     \<and> (\<exists>g. find_file (rv_disk st') demo_config = Some g
          \<and> valid_bytes (\<lambda>t. demo_load (newlines t)) demo_errors (f_data g))"
proof -
  obtain d' st' where good: "good_backups (\<lambda>t. demo_load (newlines t)) demo_errors demo_dir (find_file (damaged d'))"
    and run: "attempt_recovery demo_settings (demo_io 0) False (demo_state (damaged d'))
       = Some (Inr \<lparr>rr_success = True, rr_reason = ''ok'', rr_restored = True\<rparr>, st')"
    using demo_recovery by blast
  then have "good_backups (\<lambda>t. demo_load (newlines t)) demo_errors (rs_backup_dir demo_settings)
      (find_file (rv_disk (demo_state (damaged d'))))" by simp
  from recovery_installs_valid_config [OF demo_apart this run] run show ?thesis by auto
qed

theorem restore_is_atomic_witness:
  "find_file (snd (restore_backup (demo_dir, demo_name) demo_config
      (demo_disk\<lparr>faults := [Fine, Fine, Crash 0]\<rparr>))) demo_config
     = Some \<lparr>f_data = ascii_bytes ''good'', f_mode = 0x1B4, f_gid = 20\<rparr>"
proof -
  let ?d = "demo_disk\<lparr>faults := [Fine, Fine, Crash 0]\<rparr>"
  obtain r d' where run: "restore_backup (demo_dir, demo_name) demo_config ?d = (r, d')" by fastforce
  have nt: "\<not> is_temp (snd demo_config)" "demo_config \<notin> temps (fst demo_config)"
    by (simp_all add: demo_config_def is_temp_def temps_def)
  have "\<not> verified (find_file ?d) (demo_dir, demo_name)" by (simp add: verified_def find_demo_disk demo_paths)
  with restore_is_atomic [OF nt(1) run nt(2)] run show ?thesis by (auto simp: find_demo_disk)
qed

end
