(* ===== verification/RuntimeSafety.thy ===== *)
theory RuntimeSafety
  imports Runtime RecoveryContract
begin

text \<open>
  The properties of the controller as a whole: which part of it a health result may touch, that gauges and
  incidents agree, what can stop supervision, and that an outage with a good backup is repaired.
\<close>

section \<open>The handler step by step\<close>

lemma set_disk_fields [simp]:
  "rn_metrics (set_disk d rt) = rn_metrics rt" "rn_incidents (set_disk d rt) = rn_incidents rt"
  "rn_disk (set_disk d rt) = d" "rv_docker (rn_recovery (set_disk d rt)) = rv_docker (rn_recovery rt)"
  "rv_status (rn_recovery (set_disk d rt)) = rv_status (rn_recovery rt)"
  "rv_attempts (rn_recovery (set_disk d rt)) = rv_attempts (rn_recovery rt)"
  "rv_last (rn_recovery (set_disk d rt)) = rv_last (rn_recovery rt)"
  "rn_last_backup (set_disk d rt) = rn_last_backup rt"
  by (simp_all add: set_disk_def rn_disk_def)

lemma set_metrics_fields [simp]:
  "rn_metrics (set_metrics f rt) = f (rn_metrics rt)" "rn_incidents (set_metrics f rt) = rn_incidents rt"
  "rn_disk (set_metrics f rt) = rn_disk rt" "rn_recovery (set_metrics f rt) = rn_recovery rt"
  "rn_last_backup (set_metrics f rt) = rn_last_backup rt"
  by (simp_all add: set_metrics_def rn_disk_def)

lemma log_runtime_fields [simp]:
  "rn_metrics (log_runtime t a b c x rt) = rn_metrics rt" "rn_incidents (log_runtime t a b c x rt) = rn_incidents rt"
  "rn_disk (log_runtime t a b c x rt) = rn_disk rt" "rn_recovery (log_runtime t a b c x rt) = rn_recovery rt"
  by (simp_all add: log_runtime_def rn_disk_def)

lemma notify_fields [simp]:
  "rn_metrics (notify m rt) = rn_metrics rt" "rn_incidents (notify m rt) = rn_incidents rt"
  "rn_disk (notify m rt) = rn_disk rt" "rn_recovery (notify m rt) = rn_recovery rt"
  by (simp_all add: notify_def rn_disk_def)

lemma rn_update_fields [simp]:
  "rn_disk (rt\<lparr>rn_incidents := i\<rparr>) = rn_disk rt" "rn_disk (rt\<lparr>rn_last_backup := b\<rparr>) = rn_disk rt"
  "rn_disk (rt\<lparr>rn_recovery := st\<rparr>) = rv_disk st"
  by (simp_all add: rn_disk_def)

text \<open>Reading the configuration leaves the files alone.\<close>

lemma read_file_same: "find_file (snd (read_file p d)) = find_file d"
  by (auto simp: read_file_def syscall_def with_file_def whole_def fun_eq_iff split: list.split fault.split option.split)

lemma get_latest_same: "find_file (snd (get_latest_backup dir d)) = find_file d"
  using tripleD_Inr [OF get_latest_triple refl, of dir d] tripleD_Inl [OF get_latest_triple refl, of dir d]
  by (cases "get_latest_backup dir d"; cases "fst (get_latest_backup dir d)") auto

text \<open>The state in which the handler takes one of its branches.\<close>

definition checked :: "runtime_settings \<Rightarrow> health_result \<Rightarrow> runtime \<Rightarrow> byte list result \<times> runtime" where
  "checked s result rt =
     (fst (read_file (rs_config (rt_recovery s)) (rn_disk rt)),
      set_disk (snd (read_file (rs_config (rt_recovery s)) (rn_disk rt)))
        (set_metrics (\<lambda>m. m\<lparr>gateway_up := flag (hr_ok result)\<rparr>) rt))"

lemma handle_cases:
  "handle_health_result safe_load errors s io result rt =
     (case check_config safe_load errors (fst (checked s result rt)) of
        Inl e \<Rightarrow> Some (Inl e, snd (checked s result rt))
      | Inr (v, why) \<Rightarrow>
          (let rt1 = set_metrics (\<lambda>m. m\<lparr>config_integrity := flag v\<rparr>) (snd (checked s result rt))
           in if hr_ok result then Some (handle_ok safe_load errors s io v rt1)
              else handle_failure s io (hr_reason result) v why rt1))"
  by (simp add: handle_health_result_def checked_def Let_def split_beta split: sum.split)

text \<open>
  The three ends of a handled result: the check of the configuration raises, or one of the two branches is taken, with
  the gauge of the integrity set.
\<close>

lemma handle_result_cases [consumes 1, case_names raised healthy unhealthy]:
  assumes "handle_health_result safe_load errors s io result rt = Some (r, rt')"
  obtains (raised) e where "check_config safe_load errors (fst (checked s result rt)) = Inl e" "r = Inl e"
      "rt' = snd (checked s result rt)"
  | (healthy) v why where "check_config safe_load errors (fst (checked s result rt)) = Inr (v, why)" "hr_ok result"
      "handle_ok safe_load errors s io v (set_metrics (\<lambda>m. m\<lparr>config_integrity := flag v\<rparr>) (snd (checked s result rt))) = (r, rt')"
  | (unhealthy) v why where "check_config safe_load errors (fst (checked s result rt)) = Inr (v, why)" "\<not> hr_ok result"
      "handle_failure s io (hr_reason result) v why
         (set_metrics (\<lambda>m. m\<lparr>config_integrity := flag v\<rparr>) (snd (checked s result rt))) = Some (r, rt')"
  using assms by (auto simp: handle_cases Let_def split: sum.splits if_splits)

lemma checked_fields [simp]:
  "rn_incidents (snd (checked s result rt)) = rn_incidents rt"
  "rv_docker (rn_recovery (snd (checked s result rt))) = rv_docker (rn_recovery rt)"
  "rv_status (rn_recovery (snd (checked s result rt))) = rv_status (rn_recovery rt)"
  "rv_attempts (rn_recovery (snd (checked s result rt))) = rv_attempts (rn_recovery rt)"
  "rv_last (rn_recovery (snd (checked s result rt))) = rv_last (rn_recovery rt)"
  "find_file (rn_disk (snd (checked s result rt))) = find_file (rn_disk rt)"
  "rn_metrics (snd (checked s result rt)) = (rn_metrics rt)\<lparr>gateway_up := flag (hr_ok result)\<rparr>"
  by (simp_all add: checked_def read_file_same)

lemma handle_ok_recovery:
  "rn_recovery (snd (handle_ok safe_load errors s io v rt))
     = (rn_recovery rt)\<lparr>rv_disk := rn_disk (snd (handle_ok safe_load errors s io v rt))\<rparr>"
  by (auto simp: handle_ok_def Let_def set_disk_def set_metrics_def log_runtime_def rn_disk_def
      split: prod.split sum.split)

lemma handle_ok_confined:
  assumes "fst p \<noteq> rs_backup_dir (rt_recovery s)"
  shows "find_file (rn_disk (snd (handle_ok safe_load errors s io v rt))) p = find_file (rn_disk rt) p"
proof -
  let ?dir = "rs_backup_dir (rt_recovery s)"
  obtain l d where l: "get_latest_backup ?dir (rn_disk rt) = (l, d)" by fastforce
  have d: "find_file d = find_file (rn_disk rt)" using get_latest_same [of ?dir "rn_disk rt"] l by simp
  note c = create_backup_confined [OF assms, of safe_load errors "rs_config (rt_recovery s)" True "hi_backup_now io"
      "rt_retention s" d]
  show ?thesis
    using l d c by (auto simp: handle_ok_def Let_def split: prod.split sum.split)
qed

text \<open>An attempt changes only the configuration and temporary files of its directory.\<close>

lemma attempt_same_dir:
  assumes apart: "config_apart s" and run: "attempt_recovery s io v st = Some (r, st')"
  shows "same_dir (rs_backup_dir s) (find_file (rv_disk st)) (find_file (rv_disk st'))"
proof -
  have ap: "fst (rs_config s) \<noteq> rs_backup_dir s" "\<not> is_temp (snd (rs_config s))"
    using apart by (auto simp: config_apart_def)
  have branch: "same_dir (rs_backup_dir s) (find_file (rv_disk a)) (find_file (rv_disk b))"
    if "restore_branch s io a = (q, b)" for a q b
  proof -
    obtain l d where l: "get_latest_backup (rs_backup_dir s) (rv_disk a) = (l, d)" by fastforce
    have d: "find_file d = find_file (rv_disk a)" using get_latest_same [of "rs_backup_dir s" "rv_disk a"] l by simp
    have re: "same_dir (rs_backup_dir s) (find_file d) (find_file (snd (restore_backup q (rs_config s) d)))" for q
      using tripleD_Inr [OF install_apart [OF ap] refl, of q d] tripleD_Inl [OF install_apart [OF ap] refl, of q d]
      by (cases "restore_backup q (rs_config s) d"; cases "fst (restore_backup q (rs_config s) d)") auto
    have refl_dir: "same_dir (rs_backup_dir s) c c" for c by (simp add: same_dir_def)
    show ?thesis
      using that l d re refl_dir
      by (auto simp: restore_branch_def Let_def split: prod.splits sum.splits option.splits if_splits) (metis snd_conv)+
  qed
  obtain p st1 where adm: "admit s io st = (p, st1)" by fastforce
  then have d1: "rv_disk st1 = rv_disk st" by (auto simp: admit_def Let_def split: if_splits)
  have refl_dir: "same_dir (rs_backup_dir s) c c" for c by (simp add: same_dir_def)
  show ?thesis
  proof (cases "p = None \<and> \<not> v")
    case False
    then have "rv_disk st' = rv_disk st"
      using run adm d1 restart_and_check_state [of s io False st1 r st']
      by (auto simp: attempt_recovery_def split: option.splits)
    then show ?thesis using refl_dir by simp
  next
    case True
    obtain q st2 where rb: "restore_branch s io st1 = (q, st2)" by fastforce
    have "rv_disk st' = rv_disk st2"
      using True run adm rb restart_and_check_state [of s io True st2 r st']
      by (auto simp: attempt_recovery_def split: sum.splits option.splits)
    with branch [OF rb] d1 show ?thesis by simp
  qed
qed

lemma attempt_docker:
  assumes "attempt_recovery s io v st = Some (r, st')"
  shows "dk_restarts (rv_docker st') = dk_restarts (rv_docker st)
    \<or> dk_restarts (rv_docker st') = dk_restarts (rv_docker st) @ [rs_container s]"
proof (cases rule: attempt_cases [OF assms])
  case (1 q)
  then show ?thesis using admit_refusal [OF 1(1)] by simp
next
  case (2 st1)
  then have "rv_docker st1 = rv_docker st" by (auto simp: admit_def Let_def split: if_splits)
  with 2(4) show ?thesis by simp
qed

lemma after_recovery_recovery [simp]: "rn_recovery (after_recovery io why r rt) = rn_recovery rt"
  by (simp add: after_recovery_def Let_def)

lemma after_recovery_disk [simp]: "rn_disk (after_recovery io why r rt) = rn_disk rt"
  by (simp add: rn_disk_def)

text \<open>The branch of a failure, by what becomes of the recovery.\<close>

lemma handle_failure_cases:
  assumes "handle_failure s io reason v why rt = Some (r, rt')"
  obtains (quiet) "r = Inr ()" and "rn_recovery rt' = rn_recovery rt" and "rn_metrics rt' = rn_metrics rt"
      and "rn_incidents rt' = snd (record_failure (hi_clock io) (hi_new_id io) reason (rn_incidents rt))"
      and "current_incident (rn_incidents rt') = None \<or> rv_status (rn_recovery rt) = ''manual_intervention_required''"
  | (raised) e st where "r = Inl e" and "attempt_recovery (rt_recovery s) (hi_attempt io) v (rn_recovery rt) = Some (Inl e, st)"
      and "rn_recovery rt' = st" and "rn_metrics rt' = rn_metrics rt"
      and "rn_incidents rt' = snd (record_failure (hi_clock io) (hi_new_id io) reason (rn_incidents rt))"
      and "current_incident (rn_incidents rt') \<noteq> None"
  | (attempted) q st rt1 where "r = Inr ()"
      and "attempt_recovery (rt_recovery s) (hi_attempt io) v (rn_recovery rt) = Some (Inr q, st)"
      and "rt' = after_recovery io why q rt1" and "rn_recovery rt1 = st" and "rn_metrics rt1 = rn_metrics rt"
      and "rn_incidents rt1 = snd (record_failure (hi_clock io) (hi_new_id io) reason (rn_incidents rt))"
      and "current_incident (rn_incidents rt1) \<noteq> None"
      and "rv_status (rn_recovery rt) \<noteq> ''manual_intervention_required''"
proof -
  let ?i = "record_failure (hi_clock io) (hi_new_id io) reason (rn_incidents rt)"
  define rt1 where "rt1 = (case fst ?i of None \<Rightarrow> rt\<lparr>rn_incidents := snd ?i\<rparr>
      | Some i \<Rightarrow> notify (''NexGuard incident opened: '' @ inc_reason i) (rt\<lparr>rn_incidents := snd ?i\<rparr>))"
  have f: "rn_recovery rt1 = rn_recovery rt" "rn_metrics rt1 = rn_metrics rt" "rn_incidents rt1 = snd ?i"
    by (simp_all add: rt1_def split: option.split)
  have eq: "handle_failure s io reason v why rt =
     (if current_incident (rn_incidents rt1) = None then Some (Inr (), rt1)
      else if rv_status (rn_recovery rt1) = ''manual_intervention_required'' then Some (Inr (), rt1)
      else case attempt_recovery (rt_recovery s) (hi_attempt io) v (rn_recovery rt1) of
             None \<Rightarrow> None
           | Some (Inl e, st) \<Rightarrow> Some (Inl e, rt1\<lparr>rn_recovery := st\<rparr>)
           | Some (Inr q, st) \<Rightarrow> Some (Inr (), after_recovery io why q (rt1\<lparr>rn_recovery := st\<rparr>)))"
    unfolding handle_failure_def Let_def split_beta rt1_def by (rule refl)
  show thesis
  proof (cases "current_incident (snd ?i) = None \<or> rv_status (rn_recovery rt) = ''manual_intervention_required''")
    case True
    with assms f have "r = Inr ()" "rt' = rt1" by (auto simp: eq split: if_splits)
    with f True show thesis by (intro quiet) auto
  next
    case False
    then have go: "current_incident (snd ?i) \<noteq> None" "rv_status (rn_recovery rt) \<noteq> ''manual_intervention_required''"
      unfolding de_Morgan_disj by (simp_all only: simp_thms)
    have at': "(case attempt_recovery (rt_recovery s) (hi_attempt io) v (rn_recovery rt) of
        None \<Rightarrow> None | Some (Inl e, st) \<Rightarrow> Some (Inl e, rt1\<lparr>rn_recovery := st\<rparr>)
      | Some (Inr q, st) \<Rightarrow> Some (Inr (), after_recovery io why q (rt1\<lparr>rn_recovery := st\<rparr>))) = Some (r, rt')"
      using assms unfolding eq f by (simp only: go if_False)
    then obtain x st where att: "attempt_recovery (rt_recovery s) (hi_attempt io) v (rn_recovery rt) = Some (x, st)"
      by (auto split: option.splits)
    show thesis
    proof (cases x)
      case (Inl e)
      with at' att f False show thesis by (intro raised [of e st]) auto
    next
      case (Inr q)
      with at' att f False show thesis by (intro attempted [of q st "rt1\<lparr>rn_recovery := st\<rparr>"]) auto
    qed
  qed
qed

lemma handle_failure_recovery:
  assumes "handle_failure s io reason v why rt = Some (r, rt')"
  shows "rn_recovery rt' = rn_recovery rt \<or>
    (\<exists>q. attempt_recovery (rt_recovery s) (hi_attempt io) v (rn_recovery rt) = Some (q, rn_recovery rt')
       \<and> (\<exists>m. current_incident m \<noteq> None
            \<and> m = snd (record_failure (hi_clock io) (hi_new_id io) reason (rn_incidents rt))))"
  by (cases rule: handle_failure_cases [OF assms]) auto

section \<open>Who may touch what\<close>

text \<open>
  C17. Each verdict has its own powers. While the gateway is healthy nothing is restarted, recovery keeps its record
  of attempts, and no file outside the backup directory changes. While it is unhealthy the
  backup directory is left alone, and a container is restarted only if counting this failure leaves an incident
  open, which takes a threshold of failures in a row; it is the configured container, once. All of it
  holds whether the handler returns or raises, for every plan of faults.
\<close>

theorem verdicts_have_separate_powers:
  assumes "config_apart (rt_recovery s)" and "incident_inv (rn_incidents rt)"
    and "handle_health_result safe_load errors s io result rt = Some (r, rt')"
  shows "if hr_ok result
    then rv_docker (rn_recovery rt') = rv_docker (rn_recovery rt)
      \<and> rv_attempts (rn_recovery rt') = rv_attempts (rn_recovery rt)
      \<and> rv_status (rn_recovery rt') = rv_status (rn_recovery rt)
      \<and> (\<forall>p. fst p \<noteq> rs_backup_dir (rt_recovery s) \<longrightarrow> find_file (rn_disk rt') p = find_file (rn_disk rt) p)
    else same_dir (rs_backup_dir (rt_recovery s)) (find_file (rn_disk rt)) (find_file (rn_disk rt'))
      \<and> (dk_restarts (rv_docker (rn_recovery rt')) = dk_restarts (rv_docker (rn_recovery rt))
         \<or> dk_restarts (rv_docker (rn_recovery rt')) = dk_restarts (rv_docker (rn_recovery rt)) @ [rs_container (rt_recovery s)]
           \<and> failure_threshold (rn_incidents rt) \<le> consecutive_failures (rn_incidents rt) + 1)"
  using assms(3)
proof (cases rule: handle_result_cases)
  case (raised e)
  then show ?thesis by (auto simp: same_dir_def)
next
  case (healthy v why)
  let ?rt = "set_metrics (\<lambda>m. m\<lparr>config_integrity := flag v\<rparr>) (snd (checked s result rt))"
  have rt': "rt' = snd (handle_ok safe_load errors s io v ?rt)" using healthy(3) by simp
  have "rn_recovery rt' = (rn_recovery ?rt)\<lparr>rv_disk := rn_disk rt'\<rparr>" unfolding rt' by (rule handle_ok_recovery)
  moreover have "find_file (rn_disk rt') p = find_file (rn_disk rt) p" if "fst p \<noteq> rs_backup_dir (rt_recovery s)" for p
    unfolding rt' using handle_ok_confined [OF that] by simp
  ultimately show ?thesis using healthy(2) by simp
next
  case (unhealthy v why)
  let ?rt = "set_metrics (\<lambda>m. m\<lparr>config_integrity := flag v\<rparr>) (snd (checked s result rt))"
  have same: "find_file (rn_disk ?rt) = find_file (rn_disk rt)" by simp
  from handle_failure_recovery [OF unhealthy(3)] show ?thesis
  proof
    assume "rn_recovery rt' = rn_recovery ?rt"
    moreover from this have "find_file (rn_disk rt') = find_file (rn_disk rt)" using same by (simp add: rn_disk_def)
    ultimately show ?thesis using unhealthy(2) by (simp add: same_dir_def)
  next
    assume "\<exists>q. attempt_recovery (rt_recovery s) (hi_attempt io) v (rn_recovery ?rt) = Some (q, rn_recovery rt')
     \<and> (\<exists>m. current_incident m \<noteq> None
          \<and> m = snd (record_failure (hi_clock io) (hi_new_id io) (hr_reason result) (rn_incidents ?rt)))"
    then obtain q where att: "attempt_recovery (rt_recovery s) (hi_attempt io) v (rn_recovery ?rt) = Some (q, rn_recovery rt')"
      and inc: "current_incident (snd (record_failure (hi_clock io) (hi_new_id io) (hr_reason result) (rn_incidents rt))) \<noteq> None"
      by auto
    have "failure_threshold (rn_incidents rt) \<le> consecutive_failures (rn_incidents rt) + 1"
      using inc assms(2) by (auto simp: record_failure_def incident_inv_def Let_def split: if_splits)
    with attempt_docker [OF att] attempt_same_dir [OF assms(1) att] same unhealthy(2) show ?thesis
      by (auto simp: rn_disk_def)
  qed
qed

section \<open>The gauges and the incidents agree\<close>

lemma record_success_resets [simp]:
  "consecutive_failures (snd (record_success t m)) = 0" "current_incident (snd (record_success t m)) = None"
  by (simp_all add: record_success_def Let_def split: option.split)

lemma handle_ok_gauges:
  assumes "handle_ok safe_load errors s io v rt = (Inr (), rt')"
  shows "rn_incidents rt' = snd (record_success (hi_clock io) (rn_incidents rt))" and "gateway_up (rn_metrics rt') = gateway_up (rn_metrics rt)"
    and "config_integrity (rn_metrics rt') = config_integrity (rn_metrics rt)"
    and "recoveries_total (rn_metrics rt') = recoveries_total (rn_metrics rt)"
  using assms by (auto simp: handle_ok_def Let_def split: prod.splits sum.splits if_splits)

text \<open>The end of a handled failure: nothing has changed the gauges, or a recovery has succeeded and closed the incident.\<close>

lemma handle_failure_gauges:
  assumes h: "handle_failure s io reason v why rt = Some (Inr (), rt')" and inv: "incident_inv (rn_incidents rt)"
  shows "incident_inv (rn_incidents rt')
    \<and> (0 < consecutive_failures (rn_incidents rt') \<and> gateway_up (rn_metrics rt') = gateway_up (rn_metrics rt)
         \<and> config_integrity (rn_metrics rt') = config_integrity (rn_metrics rt)
         \<and> recoveries_total (rn_metrics rt') = recoveries_total (rn_metrics rt)
       \<or> consecutive_failures (rn_incidents rt') = 0 \<and> current_incident (rn_incidents rt') = None
         \<and> gateway_up (rn_metrics rt') = 1 \<and> config_integrity (rn_metrics rt') = 1
         \<and> recoveries_total (rn_metrics rt') = Suc (recoveries_total (rn_metrics rt)))"
proof -
  let ?i = "snd (record_failure (hi_clock io) (hi_new_id io) reason (rn_incidents rt))"
  have i: "incident_inv ?i" by (rule incident_inv_failure [OF inv])
  have pos: "0 < consecutive_failures ?i" using inv by (auto simp: record_failure_def Let_def incident_inv_def)
  show ?thesis
  proof (cases rule: handle_failure_cases [OF h])
    case 1
    with i pos show ?thesis by simp
  next
    case (2 e st)
    then show ?thesis by simp
  next
    case (3 q st rt1)
    with i pos incident_inv_success [OF i] show ?thesis
      by (cases "rr_success q") (simp_all add: after_recovery_def Let_def)
  qed
qed


section \<open>What stops supervision\<close>

lemma raises_of_result: "(\<And>e. r = Inl e \<Longrightarrow> E e) \<Longrightarrow> raises_only E (of_result r)"
  by (simp add: raises_only_def)

lemma raises_if_cond: "(b \<Longrightarrow> raises_only E m) \<Longrightarrow> (\<not> b \<Longrightarrow> raises_only E n) \<Longrightarrow> raises_only E (if b then m else n)"
  by simp

definition escapes_backup :: "yaml_loader \<Rightarrow> validator \<Rightarrow> int \<Rightarrow> exn \<Rightarrow> bool" where
  "escapes_backup safe_load errors r e \<longleftrightarrow>
     r < 1 \<and> e = ValueError ''retention_count must be at least 1'' \<or> e = UnicodeError
     \<or> (\<exists>t. check_config_text safe_load errors t = Inl e)"

lemma raises_create:
  "raises_only (\<lambda>e. is_backup_error e \<or> is_os_error e \<or> escapes_backup safe_load errors r e)
     (create_backup safe_load errors config dir healthy now r)"
proof -
  let ?E = "\<lambda>e. is_backup_error e \<or> is_os_error e \<or> escapes_backup safe_load errors r e"
  have os: "raises_only ?E m" if "raises_only is_os_error m" for m :: "(disk, 'a) cmd"
    by (rule raises_mono [OF that]) simp
  have read: "raises_only ?E (read_config config)"
    unfolding read_config_def
    by (rule raises_catch [where E = "\<lambda>e. is_os_error e \<or> e = UnicodeError"])
      (auto intro!: raising raises_raise raises_of_result raises_mono [OF raises_calls(8)]
        simp: decode_utf8_def split: option.splits)
  have entry: "raises_only ?E (bind_cmd (read_ascii p) (\<lambda>t. ret (n, strip t)))" for p n
    by (rule raises_bind [OF raises_mono [OF raises_read_ascii]]) (auto intro: raising simp: escapes_backup_def)
  have manifest: "raises_only ?E (write_manifest dir now)"
    unfolding write_manifest_def
    by (intro raises_bind raises_map_cmd entry raises_on_error os raises_list_backups raises_write_temp raises_calls)
  have pair: "raises_only ?E (write_backup_pair p bs cs)" for p bs cs
    unfolding write_backup_pair_def Let_def by (rule os) (intro raising)
  have prune: "raises_only ?E (prune_backups dir r)"
    unfolding prune_backups_def by (rule os) (intro raising)
  show ?thesis
    unfolding create_backup_def Let_def split_beta
    by (intro raises_if_cond raises_raise raises_bind read pair prune manifest raises_ret raises_of_result os raises_calls)
      (auto simp: escapes_backup_def)
qed


section \<open>Examples\<close>

definition demo_rt_settings :: runtime_settings where
  "demo_rt_settings = \<lparr>rt_recovery = demo_settings, rt_retention = 2, rt_backup_interval = 60\<rparr>"

definition demo_runtime :: "disk \<Rightarrow> runtime" where
  "demo_runtime d = \<lparr>rn_metrics = fresh_metrics,
     rn_incidents = \<lparr>failure_threshold = 3, metrics = \<lparr>incidents_total = 0, failures_gauge = 2\<rparr>,
       consecutive_failures = 2, current_incident = None, incident_log = []\<rparr>,
     rn_recovery = demo_state d, rn_last_backup = None, rn_notifier = \<lparr>nt_token = None, nt_chat_id = None\<rparr>,
     rn_tasks = [], rn_log = []\<rparr>"

definition demo_hio :: "real \<Rightarrow> handle_io" where
  "demo_hio t = \<lparr>hi_now = t, hi_clock = noon, hi_new_id = ''id'', hi_backup_now = noon, hi_time = t, hi_stamp = noon,
     hi_started = t, hi_finished = t, hi_closed_at = noon, hi_attempt = demo_io t\<rparr>"

definition demo_result :: "bool \<Rightarrow> health_result" where
  "demo_result b = \<lparr>hr_ok = b, hr_reason = ''ok'', hr_checked_at = noon, hr_status_code = None, hr_duration = 0\<rparr>"

lemma demo_inv: "incident_inv (rn_incidents (demo_runtime d))"
  by (simp add: incident_inv_def demo_runtime_def)

lemma demo_rt_fields [simp]:
  "rt_recovery demo_rt_settings = demo_settings" "rn_disk (demo_runtime d) = d"
  "hr_ok (demo_result b) = b" "hi_attempt (demo_hio t) = demo_io t" "rn_recovery (demo_runtime d) = demo_state d"
  by (simp_all add: demo_rt_settings_def demo_runtime_def rn_disk_def demo_result_def demo_hio_def)

lemma demo_state_disk [simp]: "(demo_state d)\<lparr>rv_disk := d'\<rparr> = demo_state d'"
  by (simp add: demo_state_def)

lemma demo_check: "check_config demo_load demo_errors (Inr (ascii_bytes ''good'')) = Inr (True, ''ok'')"
  by (simp add: demo_evals demo_errors_def is_dict_def)

text \<open>
  Two ways in which a healthy gateway stops its own supervision: when listing the backup directory fails with an
  \<^verbatim>\<open>OSError\<close>, and when the retention count of the environment is 0, the handler raises instead of
  logging a failed backup, for a healthy gateway with a valid configuration.
\<close>

theorem healthy_check_stops_supervision:
  "(\<exists>rt'. handle_health_result demo_load demo_errors demo_rt_settings (demo_hio 0) (demo_result True)
       (demo_runtime (demo_disk\<lparr>faults := [Fine, Fail ''EIO'']\<rparr>)) = Some (Inl (OSError ''EIO''), rt'))
   \<and> (\<exists>rt'. handle_health_result demo_load demo_errors (demo_rt_settings\<lparr>rt_retention := 0\<rparr>) (demo_hio 0)
       (demo_result True) (demo_runtime demo_disk)
     = Some (Inl (ValueError ''retention_count must be at least 1''), rt'))"
proof
  let ?d = "demo_disk\<lparr>faults := [Fine, Fail ''EIO'']\<rparr>"
  have read: "read_file demo_config ?d = (Inr (ascii_bytes ''good''), ?d\<lparr>faults := [Fail ''EIO'']\<rparr>)"
    by (simp add: read_file_def syscall_def with_file_def find_demo_disk) (simp add: demo_disk_def)
  have "get_latest_backup demo_dir (?d\<lparr>faults := [Fail ''EIO'']\<rparr>) = (Inl (OSError ''EIO''), ?d\<lparr>faults := []\<rparr>)"
    by (simp add: get_latest_backup_def list_backups_def dir_exists_def syscall_def bind_cmd_def demo_disk_def)
  with read show "\<exists>rt'. handle_health_result demo_load demo_errors demo_rt_settings (demo_hio 0) (demo_result True)
       (demo_runtime ?d) = Some (Inl (OSError ''EIO''), rt')"
    by (simp add: handle_cases checked_def demo_check handle_ok_def Let_def)
next
  have calm: "calm demo_disk" using room_demo by (simp add: room_for_backup_def)
  have "read_file demo_config demo_disk = (Inr (ascii_bytes ''good''), demo_disk)"
    using calm by (simp add: read_file_def with_file_def find_demo_disk)
  moreover have "complete demo_dir (find_file demo_disk) = {}"
    by (auto simp: complete_def find_demo_disk demo_paths)
  then have "get_latest_backup demo_dir demo_disk = (Inr None, demo_disk)"
    by (simp add: get_latest_calm [OF calm] listing_def)
  moreover have "create_backup demo_load demo_errors demo_config demo_dir True noon 0 demo_disk
      = (Inl (ValueError ''retention_count must be at least 1''), demo_disk)"
    by (simp add: create_backup_def)
  ultimately show "\<exists>rt'. handle_health_result demo_load demo_errors (demo_rt_settings\<lparr>rt_retention := 0\<rparr>) (demo_hio 0)
       (demo_result True) (demo_runtime demo_disk) = Some (Inl (ValueError ''retention_count must be at least 1''), rt')"
    by (simp add: handle_cases checked_def demo_check handle_ok_def Let_def) (simp add: demo_hio_def)
qed

lemma demo_read: "read_file demo_config demo_disk = (Inr (ascii_bytes ''good''), demo_disk)"
  using room_demo by (simp add: room_for_backup_def read_file_def with_file_def find_demo_disk)

lemma demo_failure_run:
  "\<exists>rt'. handle_health_result demo_load demo_errors demo_rt_settings (demo_hio 0) (demo_result False) (demo_runtime demo_disk)
     = Some (Inr (), rt')"
proof -
  obtain st1 where adm: "admit demo_settings (demo_io 0) (demo_state demo_disk) = (None, st1)"
    by (simp add: admit_def Let_def expire_def demo_settings_def demo_io_def demo_state_def)
  obtain st' where "restart_and_check demo_settings (demo_io 0) False st1
     = Some (Inr \<lparr>rr_success = True, rr_reason = ''ok'', rr_restored = False\<rparr>, st')" using demo_restart_and_check by blast
  with adm have run: "attempt_recovery demo_settings (demo_io 0) True (demo_state demo_disk)
       = Some (Inr \<lparr>rr_success = True, rr_reason = ''ok'', rr_restored = False\<rparr>, st')"
    by (simp add: attempt_recovery_def)
  have "rv_status (demo_state demo_disk) \<noteq> ''manual_intervention_required''" by (simp add: demo_state_def)
  then show ?thesis
    using run demo_read
    by (simp add: handle_cases checked_def demo_check handle_failure_def record_failure_def Let_def set_disk_def
        set_metrics_def demo_runtime_def notify_def is_configured_def truthy_def demo_hio_def rn_disk_def)
qed

theorem verdicts_have_separate_powers_witness:
  "\<exists>rt'. handle_health_result demo_load demo_errors demo_rt_settings (demo_hio 0) (demo_result False)
       (demo_runtime demo_disk) = Some (Inr (), rt')
     \<and> same_dir demo_dir (find_file demo_disk) (find_file (rn_disk rt'))"
proof -
  obtain rt' where run: "handle_health_result demo_load demo_errors demo_rt_settings (demo_hio 0) (demo_result False)
     (demo_runtime demo_disk) = Some (Inr (), rt')" using demo_failure_run by blast
  have "config_apart (rt_recovery demo_rt_settings)" using demo_apart by simp
  from verdicts_have_separate_powers [OF this demo_inv run] run show ?thesis by auto
qed



section \<open>A whole run of supervision\<close>

text \<open>
  The health results of a run in order, each with its inputs and with the disk as others have left it; the
  run ends where the handler raises, as the monitoring loop does.
\<close>

record supervision_step =
  ss_disk :: disk
  ss_io :: handle_io
  ss_result :: health_result

fun supervise ::
    "yaml_loader \<Rightarrow> validator \<Rightarrow> runtime_settings \<Rightarrow> supervision_step list \<Rightarrow> runtime \<Rightarrow> ((exn + unit) \<times> runtime) option" where
  "supervise safe_load errors s [] rt = Some (Inr (), rt)"
| "supervise safe_load errors s (x # xs) rt =
     (case handle_health_result safe_load errors s (ss_io x) (ss_result x) (set_disk (ss_disk x) rt) of
        None \<Rightarrow> None
      | Some (Inl e, rt') \<Rightarrow> Some (Inl e, rt')
      | Some (Inr u, rt') \<Rightarrow> supervise safe_load errors s xs rt')"

definition attempt_time :: "supervision_step \<Rightarrow> real" where
  "attempt_time x = io_now (hi_attempt (ss_io x))"

lemma rate_inv_disk [simp]: "rate_inv s hs t (st\<lparr>rv_disk := d\<rparr>) = rate_inv s hs t st"
  by (simp add: rate_inv_def)

lemma handle_recovery:
  assumes "handle_health_result safe_load errors s io result rt = Some (r, rt')"
  shows "\<exists>d. (rn_recovery rt')\<lparr>rv_disk := d\<rparr> = (rn_recovery rt)\<lparr>rv_disk := d\<rparr>
    \<or> (\<exists>v q. attempt_recovery (rt_recovery s) (hi_attempt io) v ((rn_recovery rt)\<lparr>rv_disk := d\<rparr>) = Some (q, rn_recovery rt'))"
proof -
  obtain d1 where d1: "rn_recovery (snd (checked s result rt)) = (rn_recovery rt)\<lparr>rv_disk := d1\<rparr>"
    by (simp add: checked_def set_disk_def set_metrics_def)
  from assms show ?thesis
  proof (cases rule: handle_result_cases)
    case (raised e)
    with d1 show ?thesis by auto
  next
    case (healthy v why)
    with handle_ok_recovery [of safe_load errors s io v "set_metrics (\<lambda>m. m\<lparr>config_integrity := flag v\<rparr>) (snd (checked s result rt))"] d1
    show ?thesis by auto
  next
    case (unhealthy v why)
    from handle_failure_recovery [OF unhealthy(3)] d1 show ?thesis by auto
  qed
qed

text \<open>One handled result adds at most its time to the attempts, and at most one restart with it.\<close>

lemma handle_rate:
  assumes h: "handle_health_result safe_load errors s io result rt = Some (q, rt')"
    and inv: "rate_inv (rt_recovery s) hs (io_now (hi_attempt io)) (rn_recovery rt)" and lim: "1 \<le> rs_max_recoveries (rt_recovery s)"
  shows "\<exists>new. rate_inv (rt_recovery s) (hs @ new) (io_now (hi_attempt io)) (rn_recovery rt') \<and> set new \<subseteq> {io_now (hi_attempt io)}
    \<and> (\<exists>n \<le> length new. dk_restarts (rv_docker (rn_recovery rt'))
         = dk_restarts (rv_docker (rn_recovery rt)) @ replicate n (rs_container (rt_recovery s)))"
proof -
  let ?s = "rt_recovery s" and ?io = "hi_attempt io"
  obtain d where "(rn_recovery rt')\<lparr>rv_disk := d\<rparr> = (rn_recovery rt)\<lparr>rv_disk := d\<rparr>
    \<or> (\<exists>v p. attempt_recovery ?s ?io v ((rn_recovery rt)\<lparr>rv_disk := d\<rparr>) = Some (p, rn_recovery rt'))"
    using handle_recovery [OF h] by blast
  then consider (same) "(rn_recovery rt')\<lparr>rv_disk := d\<rparr> = (rn_recovery rt)\<lparr>rv_disk := d\<rparr>"
    | (attempt) v p where "attempt_recovery ?s ?io v ((rn_recovery rt)\<lparr>rv_disk := d\<rparr>) = Some (p, rn_recovery rt')" by blast
  then show ?thesis
  proof cases
    case same
    then have "rv_docker (rn_recovery rt') = rv_docker (rn_recovery rt)"
      by (metis recovery_state.select_convs(5) recovery_state.surjective recovery_state.update_convs(4))
    moreover have "rate_inv ?s hs (io_now ?io) (rn_recovery rt')" using inv same rate_inv_disk by metis
    ultimately show ?thesis by (intro exI [of _ "[]"]) auto
  next
    case attempt
    have inv': "rate_inv ?s hs (io_now ?io) ((rn_recovery rt)\<lparr>rv_disk := d\<rparr>)" using inv by simp
    show ?thesis
    proof (cases rule: attempt_cases [OF attempt])
      case (1 w)
      with rate_inv_admit [OF inv' 1(1) lim] admit_refusal [OF 1(1)] show ?thesis by (intro exI [of _ "[]"]) auto
    next
      case (2 st1)
      have "rate_inv ?s (hs @ [io_now ?io]) (io_now ?io) (rn_recovery rt')"
        using rate_inv_same [OF 2(2)] rate_inv_admit [OF inv' 2(1) lim] by simp
      moreover have "rv_docker st1 = rv_docker (rn_recovery rt)"
        using 2(1) by (auto simp: admit_def Let_def split: if_splits)
      then have "\<exists>n \<le> 1. dk_restarts (rv_docker (rn_recovery rt'))
          = dk_restarts (rv_docker (rn_recovery rt)) @ replicate n (rs_container ?s)"
        using 2(4) by (elim disjE) (force intro: exI [of _ "0 :: nat"] exI [of _ "1 :: nat"])+
      ultimately show ?thesis by (intro exI [of _ "[io_now ?io]"]) simp
    qed
  qed
qed

lemma supervise_rate:
  assumes "rate_inv (rt_recovery s) hs t (rn_recovery rt)" and "1 \<le> rs_max_recoveries (rt_recovery s)"
    and "sorted (t # map attempt_time xs)" and "supervise safe_load errors s xs rt = Some (r, rt')"
  shows "\<exists>new t'. rate_inv (rt_recovery s) (hs @ new) t' (rn_recovery rt') \<and> set new \<subseteq> attempt_time ` set xs
    \<and> (\<exists>n \<le> length new. dk_restarts (rv_docker (rn_recovery rt'))
         = dk_restarts (rv_docker (rn_recovery rt)) @ replicate n (rs_container (rt_recovery s)))"
  using assms
proof (induction xs arbitrary: hs t rt)
  case Nil
  then show ?case by (intro exI [of _ "[]"]) auto
next
  case (Cons x xs)
  let ?s = "rt_recovery s" and ?io = "hi_attempt (ss_io x)"
  obtain q rt1 where h: "handle_health_result safe_load errors s (ss_io x) (ss_result x) (set_disk (ss_disk x) rt) = Some (q, rt1)"
    using Cons.prems(4) by (auto split: option.splits)
  have recovery: "rn_recovery (set_disk (ss_disk x) rt) = (rn_recovery rt)\<lparr>rv_disk := ss_disk x\<rparr>" by (simp add: set_disk_def)
  have "rate_inv ?s hs (io_now ?io) (rn_recovery (set_disk (ss_disk x) rt))"
    using rate_inv_later [OF Cons.prems(1), of "io_now ?io"] Cons.prems(3) by (simp add: attempt_time_def recovery)
  from handle_rate [OF h this Cons.prems(2)]
  obtain new n where new: "rate_inv ?s (hs @ new) (io_now ?io) (rn_recovery rt1)" "set new \<subseteq> {attempt_time x}"
    and n: "n \<le> length new" "dk_restarts (rv_docker (rn_recovery rt1))
         = dk_restarts (rv_docker (rn_recovery rt)) @ replicate n (rs_container ?s)"
    by (auto simp: recovery attempt_time_def)
  show ?case
  proof (cases q)
    case (Inl e)
    with h Cons.prems(4) have "rt' = rt1" by simp
    with new n show ?thesis by (intro exI [of _ new] exI [of _ "io_now ?io"]) auto
  next
    case (Inr u)
    with h Cons.prems(4) have "supervise safe_load errors s xs rt1 = Some (r, rt')" by simp
    from Cons.IH [OF new(1) Cons.prems(2) _ this] Cons.prems(3) obtain more t' m where
      more: "rate_inv ?s ((hs @ new) @ more) t' (rn_recovery rt')" "set more \<subseteq> attempt_time ` set xs"
      and m: "m \<le> length more" "dk_restarts (rv_docker (rn_recovery rt'))
         = dk_restarts (rv_docker (rn_recovery rt1)) @ replicate m (rs_container ?s)" by (auto simp: attempt_time_def)
    have "dk_restarts (rv_docker (rn_recovery rt'))
         = dk_restarts (rv_docker (rn_recovery rt)) @ replicate (n + m) (rs_container ?s)"
      using n(2) m(2) by (simp add: replicate_add)
    moreover have "n + m \<le> length (new @ more)" using n(1) m(1) by simp
    moreover have "rate_inv ?s (hs @ (new @ more)) t' (rn_recovery rt')" using more(1) by simp
    moreover have "set (new @ more) \<subseteq> attempt_time ` set (x # xs)" using new(2) more(2) by auto
    ultimately show ?thesis by blast
  qed
qed

text \<open>
  The rate limit of the whole controller: in any run of supervision from its start, whatever the gateway, Docker, the
  disk and the operators do, the restarts are all of the configured container and are covered by starting
  times of attempts, of which any \<^verbatim>\<open>max_recoveries_per_window\<close> + 1 in a row span at least the window and any two
  in a row are a cooldown apart.
\<close>

theorem supervision_is_rate_limited:
  assumes "new_runtime s threshold env d w ms lg = Inr rt" and "sorted (map attempt_time xs)"
    and "supervise safe_load errors s xs rt = Some (r, rt')"
  shows "\<exists>ts n. set ts \<subseteq> attempt_time ` set xs
    \<and> spaced (nat (rs_max_recoveries (rt_recovery s))) (rs_window (rt_recovery s)) ts
    \<and> spaced 1 (rs_cooldown (rt_recovery s)) ts
    \<and> n \<le> length ts
    \<and> dk_restarts (rv_docker (rn_recovery rt')) = dk_restarts w @ replicate n (rs_container (rt_recovery s))"
proof -
  obtain st where st: "new_recovery (rt_recovery s) d w [] = Inr st" and rec: "rn_recovery rt = st"
    using assms(1) by (auto simp: new_runtime_def elim!: bind_result_InrE)
  from st have st': "rv_attempts st = []" "rv_last st = None" "rv_docker st = w" and pos: "1 \<le> rs_max_recoveries (rt_recovery s)"
    by (auto simp: new_recovery_def split: if_splits)
  define t where "t = (if xs = [] then 0 else attempt_time (hd xs))"
  have "rate_inv (rt_recovery s) [] t (rn_recovery rt)" using st' rec by (simp add: rate_inv_def spaced_def)
  moreover have "sorted (t # map attempt_time xs)" using assms(2) by (cases xs) (auto simp: t_def)
  ultimately obtain new t' n where "rate_inv (rt_recovery s) new t' (rn_recovery rt')" "set new \<subseteq> attempt_time ` set xs"
    "n \<le> length new" "dk_restarts (rv_docker (rn_recovery rt'))
         = dk_restarts (rv_docker (rn_recovery rt)) @ replicate n (rs_container (rt_recovery s))"
    using supervise_rate [OF _ pos _ assms(3), of "[]" t] by auto
  with rec st' show ?thesis unfolding rate_inv_def by blast
qed

theorem supervision_is_rate_limited_witness:
  "\<exists>rt rt' ts n. new_runtime demo_rt_settings 3 (\<lambda>n. None) demo_disk \<lparr>dk_restarts = [], dk_log = []\<rparr>
       \<lparr>incidents_total = 0, failures_gauge = 0\<rparr> [] = Inr rt
     \<and> supervise demo_load demo_errors demo_rt_settings
         [\<lparr>ss_disk = demo_disk, ss_io = demo_hio 0, ss_result = demo_result False\<rparr>] rt = Some (Inr (), rt')
     \<and> spaced 3 600 ts \<and> n \<le> length ts \<and> dk_restarts (rv_docker (rn_recovery rt')) = replicate n ''gateway-simulator''"
proof -
  let ?x = "\<lparr>ss_disk = demo_disk, ss_io = demo_hio 0, ss_result = demo_result False\<rparr>"
  obtain rt where rt: "new_runtime demo_rt_settings 3 (\<lambda>n. None) demo_disk \<lparr>dk_restarts = [], dk_log = []\<rparr>
       \<lparr>incidents_total = 0, failures_gauge = 0\<rparr> [] = Inr rt"
    and fresh: "rn_recovery rt = demo_state demo_disk"
      "rn_incidents rt = \<lparr>failure_threshold = 3, metrics = \<lparr>incidents_total = 0, failures_gauge = 0\<rparr>,
         consecutive_failures = 0, current_incident = None, incident_log = []\<rparr>"
    by (simp add: new_runtime_def new_manager_def demo_new [unfolded demo_state_def] demo_new demo_state_def)
  have "\<exists>rt'. handle_health_result demo_load demo_errors demo_rt_settings (demo_hio 0) (demo_result False) (set_disk demo_disk rt)
      = Some (Inr (), rt')"
    using fresh demo_read
    by (simp add: handle_cases checked_def demo_check handle_failure_def record_failure_def Let_def set_disk_def
        set_metrics_def rn_disk_def)
  then obtain rt' where run: "supervise demo_load demo_errors demo_rt_settings [?x] rt = Some (Inr (), rt')" by auto
  have "sorted (map attempt_time [?x])" by simp
  from supervision_is_rate_limited [OF rt this run] rt run show ?thesis
    by (fastforce simp: demo_settings_def)
qed

section \<open>An outage is repaired\<close>

text \<open>Docker obeys: the container may be restarted, runs at once, and the first health check is good.\<close>

definition obeys :: "recovery_settings \<Rightarrow> attempt_io \<Rightarrow> bool" where
  "obeys s io \<longleftrightarrow> rs_container s \<in> rs_allowed s \<and> 0 \<le> rs_wait s
     \<and> (\<exists>labels. io_get io (rs_container s) = Inr labels \<and> map_of labels ''io.nexguard.managed'' = Some ''true'')
     \<and> io_restart io = Inr () \<and> io_wait_get io = Inr () \<and> io_reload io 0 = Inr ''running''
     \<and> (\<exists>h. io_health io 0 = Inr h \<and> hr_ok h)"

lemma restart_and_check_obeys:
  assumes "obeys s io"
  shows "\<exists>st'. restart_and_check s io b st = Some (Inr \<lparr>rr_success = True, rr_reason = ''ok'', rr_restored = b\<rparr>, st')
    \<and> rv_disk st' = rv_disk st \<and> dk_restarts (rv_docker st') = dk_restarts (rv_docker st) @ [rs_container s]"
  using assms
  by (auto simp: obeys_def restart_and_check_def restart_branch_def restart_container_def bind_cmd_def
      wait_for_running_def wait_loop.simps readiness_loop.simps check_readiness_def Let_def)

text \<open>An attempt may start: no manual intervention, a place in the window, the cooldown over.\<close>

definition may_start :: "recovery_settings \<Rightarrow> attempt_io \<Rightarrow> recovery_state \<Rightarrow> bool" where
  "may_start s io st \<longleftrightarrow> rv_status st \<noteq> ''manual_intervention_required''
     \<and> int (length (expire (rs_window s) (io_now io) (rv_attempts st))) < rs_max_recoveries s
     \<and> (case rv_last st of None \<Rightarrow> True | Some a \<Rightarrow> rs_cooldown s \<le> io_now io - a)"

lemma admit_may_start:
  assumes "may_start s io st"
  shows "\<exists>st1. admit s io st = (None, st1) \<and> rv_disk st1 = rv_disk st \<and> rv_docker st1 = rv_docker st"
  using assms by (auto simp: may_start_def admit_def Let_def split: option.splits)

text \<open>The files are ready for a restoration: no faults, a listed backup, room for a temporary file.\<close>

definition restorable :: "yaml_loader \<Rightarrow> validator \<Rightarrow> recovery_settings \<Rightarrow> disk \<Rightarrow> bool" where
  "restorable safe_load errors s d \<longleftrightarrow> calm d \<and> good_backups safe_load errors (rs_backup_dir s) (find_file d)
     \<and> listing (rs_backup_dir s) (find_file d) \<noteq> [] \<and> rand_names d \<noteq> []
     \<and> (\<forall>p \<in> temps (fst (rs_config s)). find_file d p = None)"

lemma restore_branch_works:
  assumes "restorable safe_load errors s (rv_disk st)"
  shows "\<exists>st'. restore_branch s io st = (Inr None, st') \<and> rv_docker st' = rv_docker st"
proof -
  let ?d = "rv_disk st" and ?dir = "rs_backup_dir s"
  let ?n = "last (listing ?dir (find_file ?d))"
  have calm: "calm ?d" using assms by (simp add: restorable_def)
  have "?n \<in> complete ?dir (find_file ?d)"
    using assms last_in_set unfolding restorable_def listing_def by (metis finite_complete set_sorted_list_of_set)
  then have "verified (find_file ?d) (?dir, ?n)"
    using assms by (auto simp: restorable_def complete_def good_backups_def verified_def)
  moreover obtain r rs where "rand_names ?d = r # rs" using assms by (cases "rand_names ?d") (auto simp: restorable_def)
  ultimately obtain d' where "restore_backup (?dir, ?n) (rs_config s) ?d = (Inr (), d')"
    using restore_calm [OF calm, of "(?dir, ?n)" r rs "rs_config s"] assms by (auto simp: restorable_def)
  moreover have "get_latest_backup ?dir ?d = (Inr (Some (?dir, ?n)), ?d)"
    using assms by (simp add: get_latest_calm [OF calm] restorable_def)
  ultimately show ?thesis by (auto simp: restore_branch_def)
qed

lemma attempt_works:
  assumes "restorable safe_load errors s (rv_disk st)" and "obeys s io" and "may_start s io st"
  shows "\<exists>st'. attempt_recovery s io False st
      = Some (Inr \<lparr>rr_success = True, rr_reason = ''ok'', rr_restored = True\<rparr>, st')
    \<and> dk_restarts (rv_docker st') = dk_restarts (rv_docker st) @ [rs_container s]"
proof -
  obtain st1 where adm: "admit s io st = (None, st1)" "rv_disk st1 = rv_disk st" "rv_docker st1 = rv_docker st"
    using admit_may_start [OF assms(3)] by blast
  obtain st2 where rb: "restore_branch s io st1 = (Inr None, st2)" "rv_docker st2 = rv_docker st1"
    using restore_branch_works [of safe_load errors s st1 io] assms(1) adm(2) by auto
  obtain st' where "restart_and_check s io True st2 = Some (Inr \<lparr>rr_success = True, rr_reason = ''ok'', rr_restored = True\<rparr>, st')"
    "dk_restarts (rv_docker st') = dk_restarts (rv_docker st2) @ [rs_container s]"
    using restart_and_check_obeys [OF assms(2)] by blast
  with adm rb show ?thesis by (auto simp: attempt_recovery_def)
qed

text \<open>
  An outage is repaired: when a failed health check leaves an incident open, the configuration is invalid, an
  attempt may start, a trusted backup is listed, no call of the system fails and Docker obeys, then the handler
  returns with the configuration replaced by an accepted one, the container restarted once, the incident
  closed, the failures back at zero, both gauges at 1 and one more recovery counted.
\<close>

theorem outage_is_repaired:
  assumes "config_apart (rt_recovery s)" and "restorable safe_load errors (rt_recovery s) (rn_disk rt)"
    and "obeys (rt_recovery s) (hi_attempt io)" and "may_start (rt_recovery s) (hi_attempt io) (rn_recovery rt)"
    and "\<not> hr_ok result"
    and "current_incident (rn_incidents rt) \<noteq> None
      \<or> consecutive_failures (rn_incidents rt) + 1 = failure_threshold (rn_incidents rt)"
    and "check_config safe_load errors (fst (read_file (rs_config (rt_recovery s)) (rn_disk rt))) = Inr (False, why)"
  shows "\<exists>rt'. handle_health_result safe_load errors s io result rt = Some (Inr (), rt')
    \<and> (\<exists>g. find_file (rn_disk rt') (rs_config (rt_recovery s)) = Some g \<and> valid_bytes safe_load errors (f_data g))
    \<and> dk_restarts (rv_docker (rn_recovery rt')) = dk_restarts (rv_docker (rn_recovery rt)) @ [rs_container (rt_recovery s)]
    \<and> current_incident (rn_incidents rt') = None \<and> consecutive_failures (rn_incidents rt') = 0
    \<and> gateway_up (rn_metrics rt') = 1 \<and> config_integrity (rn_metrics rt') = 1
    \<and> recoveries_total (rn_metrics rt') = Suc (recoveries_total (rn_metrics rt))"
proof -
  let ?s = "rt_recovery s" and ?io = "hi_attempt io"
  let ?i = "record_failure (hi_clock io) (hi_new_id io) (hr_reason result) (rn_incidents rt)"
  let ?rt = "set_metrics (\<lambda>m. m\<lparr>config_integrity := flag False\<rparr>) (snd (checked s result rt))"
  have calm: "calm (rn_disk rt)" using assms(2) by (simp add: restorable_def)
  have "snd (read_file p (rn_disk rt)) = rn_disk rt" for p
    using calm by (auto simp: read_file_def with_file_def split: option.split)
  then have rec: "rn_recovery ?rt = rn_recovery rt" by (simp add: checked_def set_disk_def set_metrics_def rn_disk_def)
  have "current_incident (snd ?i) \<noteq> None"
    using assms(6) by (auto simp: record_failure_def Let_def)
  then have opened: "current_incident (snd ?i) \<noteq> None"
    "rv_status (rn_recovery ?rt) \<noteq> ''manual_intervention_required''"
    using assms(4) rec by (auto simp: may_start_def)
  obtain st' where att: "attempt_recovery ?s ?io False (rn_recovery ?rt)
      = Some (Inr \<lparr>rr_success = True, rr_reason = ''ok'', rr_restored = True\<rparr>, st')"
    and docker: "dk_restarts (rv_docker st') = dk_restarts (rv_docker (rn_recovery rt)) @ [rs_container ?s]"
    using attempt_works [of safe_load errors ?s "rn_recovery ?rt" ?io] assms(2-4) unfolding rec by (auto simp: rn_disk_def)
  have good: "good_backups safe_load errors (rs_backup_dir ?s) (find_file (rv_disk (rn_recovery ?rt)))"
    using assms(2) unfolding rec by (simp add: restorable_def rn_disk_def)
  have installed: "\<exists>g. find_file (rv_disk st') (rs_config ?s) = Some g \<and> valid_bytes safe_load errors (f_data g)"
    using attempt_config [OF assms(1) good att] by auto
  have h: "handle_health_result safe_load errors s io result rt = handle_failure s io (hr_reason result) False why ?rt"
    using assms(5,7) by (simp add: handle_cases) (simp add: checked_def)
  have "\<exists>rt'. handle_failure s io (hr_reason result) False why ?rt = Some (Inr (), rt')"
    using att opened by (auto simp: handle_failure_def split_beta Let_def split: option.split)
  then obtain rt' where hf: "handle_failure s io (hr_reason result) False why ?rt = Some (Inr (), rt')" by blast
  show ?thesis
  proof (cases rule: handle_failure_cases [OF hf])
    case 1
    with opened show ?thesis by simp
  next
    case (2 e st)
    then show ?thesis by simp
  next
    case (3 q st rt1)
    then have q: "q = \<lparr>rr_success = True, rr_reason = ''ok'', rr_restored = True\<rparr>" "st = st'" using att by auto
    let ?j = "snd (record_success (hi_closed_at io) (rn_incidents rt1))"
    have "current_incident ?j = None" "consecutive_failures ?j = 0"
      by (simp_all add: record_success_def Let_def split: option.split)
    moreover have "rn_incidents rt' = ?j" "gateway_up (rn_metrics rt') = 1" "config_integrity (rn_metrics rt') = 1"
      "recoveries_total (rn_metrics rt') = Suc (recoveries_total (rn_metrics rt))"
      "rn_recovery rt' = st'" "rn_disk rt' = rv_disk st'"
      using 3 q by (simp_all add: after_recovery_def Let_def rn_disk_def)
    ultimately show ?thesis using h hf docker installed by auto
  qed
qed

theorem outage_is_repaired_witness:
  "\<exists>d rt'. handle_health_result (\<lambda>t. demo_load (newlines t)) demo_errors demo_rt_settings (demo_hio 0) (demo_result False)
       (demo_runtime d) = Some (Inr (), rt')
     \<and> check_config (\<lambda>t. demo_load (newlines t)) demo_errors (fst (read_file demo_config d)) = Inr (False, ''yaml_parse_error'')
     \<and> current_incident (rn_incidents rt') = None
     \<and> (\<exists>g. find_file (rn_disk rt') demo_config = Some g
          \<and> valid_bytes (\<lambda>t. demo_load (newlines t)) demo_errors (f_data g))"
proof -
  let ?load = "\<lambda>t. demo_load (newlines t)"
  obtain d' where run: "create_backup ?load demo_errors demo_config demo_dir True noon 2 demo_disk = (Inr (demo_dir, demo_name), d')"
    and good: "good_backups ?load demo_errors demo_dir (find_file (damaged d'))"
    and calm: "calm (damaged d')" and same: "same_dir demo_dir (find_file d') (find_file (damaged d'))"
    and temps: "\<forall>p \<in> temps (fst demo_config). find_file (damaged d') p = None"
    using demo_recovery by blast
  have "complete demo_dir (find_file demo_disk) = {}"
    by (auto simp: complete_def find_demo_disk demo_paths)
  from first_backup [OF run this] same have "listing demo_dir (find_file (damaged d')) \<noteq> []"
    by (simp add: listing_def complete_def same_dir_def)
  with good calm temps have "restorable ?load demo_errors (rt_recovery demo_rt_settings) (rn_disk (demo_runtime (damaged d')))"
    by (simp add: restorable_def)
  moreover have "config_apart (rt_recovery demo_rt_settings)" using demo_apart by simp
  moreover have "obeys (rt_recovery demo_rt_settings) (hi_attempt (demo_hio 0))"
    by (simp add: obeys_def) (simp add: demo_settings_def demo_io_def)
  moreover have "may_start (rt_recovery demo_rt_settings) (hi_attempt (demo_hio 0)) (rn_recovery (demo_runtime (damaged d')))"
    by (simp add: may_start_def) (simp add: demo_settings_def demo_state_def demo_io_def expire_def)
  moreover have "fst (read_file demo_config (damaged d')) = Inr (ascii_bytes ''{'')"
    using calm by (simp add: read_file_def with_file_def) (simp add: damaged_def)
  moreover have "check_config ?load demo_errors (Inr (ascii_bytes ''{'')) = Inr (False, ''yaml_parse_error'')"
    by (simp add: demo_evals)
  moreover have "consecutive_failures (rn_incidents (demo_runtime d)) + 1 = failure_threshold (rn_incidents (demo_runtime d))" for d
    by (simp add: demo_runtime_def)
  ultimately show ?thesis
    using outage_is_repaired [of demo_rt_settings ?load demo_errors "demo_runtime (damaged d')" "demo_hio 0" "demo_result False"
        "''yaml_parse_error''"]
    by (intro exI [of _ "damaged d'"]) auto
qed

end
