(* ===== verification/RecoveryTypes.thy ===== *)
theory RecoveryTypes
  imports RecoveryContract
begin

text \<open>
  The types of recovery that the source only writes down as strings and booleans: which statuses the manager
  has, what its attempts and its last attempt have to do with each other, and which results there are.
\<close>

section \<open>Well-formed managers and results\<close>

definition wf_recovery :: "recovery_settings \<Rightarrow> recovery_state \<Rightarrow> bool" where
  "wf_recovery s st \<longleftrightarrow> rv_status st \<in> {''ready'', ''manual_intervention_required''}
     \<and> int (length (rv_attempts st)) \<le> rs_max_recoveries s
     \<and> (rv_attempts st = [] \<or> rv_last st = Some (last (rv_attempts st)))"

definition refusals :: "string set" where
  "refusals = {''manual_intervention_required'', ''cooldown_active''}"

definition before_restart :: "string set" where
  "before_restart = {''restore_failed'', ''backup_not_found''}"

definition after_restart :: "string set" where
  "after_restart = {''docker_operation_failed'', ''container_not_running'', ''post_recovery_health_failed'', ''ok''}"

lemmas reason_sets = refusals_def before_restart_def after_restart_def

text \<open>
  \<open>wf_result v r\<close>, for an attempt on a configuration that is valid or not (\<open>v\<close>): only an invalid one is
  restored, and then every later outcome says so.
\<close>

definition wf_result :: "bool \<Rightarrow> recovery_result \<Rightarrow> bool" where
  "wf_result v r \<longleftrightarrow> rr_reason r \<in> refusals \<union> after_restart \<union> (if v then {} else before_restart)
     \<and> (rr_success r \<longleftrightarrow> rr_reason r = ''ok'') \<and> (rr_restored r \<longleftrightarrow> \<not> v \<and> rr_reason r \<in> after_restart)"

lemma wf_recovery_same: "same_admission a b \<Longrightarrow> wf_recovery s a \<Longrightarrow> wf_recovery s b"
  by (simp add: wf_recovery_def same_admission_def)

lemma expire_last: "expire w t xs \<noteq> [] \<Longrightarrow> last (expire w t xs) = last xs"
  unfolding expire_def by (induction xs) auto

lemma expire_nil: "expire w t [] = []"
  by (simp add: expire_def)

lemma wf_recovery_admit:
  assumes "wf_recovery s st" and "admit s io st = (q, st')"
  shows "wf_recovery s st'"
proof -
  have "int (length (expire (rs_window s) (io_now io) (rv_attempts st))) \<le> rs_max_recoveries s"
    using assms(1) length_dropWhile_le [of "\<lambda>a. rs_window s \<le> io_now io - a" "rv_attempts st"]
    by (simp add: wf_recovery_def expire_def)
  moreover have "expire (rs_window s) (io_now io) (rv_attempts st) = [] \<or>
      rv_last st = Some (last (expire (rs_window s) (io_now io) (rv_attempts st)))"
    using assms(1) expire_last [of "rs_window s" "io_now io" "rv_attempts st"] expire_nil [of "rs_window s" "io_now io"]
    unfolding wf_recovery_def by metis
  ultimately show ?thesis
    using assms by (auto simp: wf_recovery_def admit_def Let_def split: if_splits)
qed

lemma wf_result_after:
  "rr_restored r = (\<not> v) \<Longrightarrow> rr_reason r \<in> after_restart \<Longrightarrow> (rr_success r \<longleftrightarrow> rr_reason r = ''ok'') \<Longrightarrow> wf_result v r"
  by (auto simp: wf_result_def)

lemma restart_and_check_wf:
  assumes "restart_and_check s io (\<not> v) st = Some (Inr q, st')"
  shows "wf_result v q"
proof -
  obtain p st1 where rb: "restart_branch s io (\<not> v) st = Some (p, st1)"
    using assms by (auto simp: restart_and_check_def split: option.splits)
  show ?thesis
  proof (cases p)
    case None
    with rb assms have "check_readiness s io (\<not> v) st1 = Some (Inr q, st')" by (simp add: restart_and_check_def)
    from check_readiness_state [OF this] show ?thesis by (intro wf_result_after) (auto simp: after_restart_def)
  next
    case (Some r)
    with rb assms have "r = q" by (simp add: restart_and_check_def)
    with Some restart_branch_state [OF rb] show ?thesis by (intro wf_result_after) (auto simp: after_restart_def)
  qed
qed

lemma attempt_wf:
  assumes "attempt_recovery s io v st = Some (Inr q, st')"
  shows "wf_result v q"
proof (cases "fst (admit s io st)")
  case (Some r)
  with assms have "r = q" by (auto simp: attempt_recovery_def split: prod.splits)
  with Some admit_refusal [of s io st q "snd (admit s io st)"] have "refusal (Inr q)" by (simp add: prod_eq_iff)
  then show ?thesis by (auto simp: refusal_def failed_def wf_result_def reason_sets)
next
  case None
  then obtain st1 where adm: "admit s io st = (None, st1)" by (cases "admit s io st") simp
  show ?thesis
  proof (cases v)
    case True
    with adm assms have "restart_and_check s io (\<not> v) st1 = Some (Inr q, st')" by (simp add: attempt_recovery_def)
    then show ?thesis by (rule restart_and_check_wf)
  next
    case False
    obtain x st2 where rb: "restore_branch s io st1 = (x, st2)" by fastforce
    show ?thesis
    proof (cases "x = Inr None")
      case True
      with False adm assms rb have "restart_and_check s io (\<not> v) st2 = Some (Inr q, st')"
        by (simp add: attempt_recovery_def)
      then show ?thesis by (rule restart_and_check_wf)
    next
      case x: False
      with False adm assms rb have "x = Inr (Some q)" by (auto simp: attempt_recovery_def split: sum.splits option.splits)
      with restore_branch_state [OF rb] False show ?thesis by (auto simp: wf_result_def reason_sets)
    qed
  qed
qed

lemma trace_wf:
  assumes "wf_recovery s st" and "recovery_trace s xs st = (ts, st')"
  shows "wf_recovery s st' \<and> list_all2 (\<lambda>x y. case snd y of Inl e \<Rightarrow> True | Inr q \<Rightarrow> wf_result (sp_valid x) q)
    (take (length ts) xs) ts"
  using assms
proof (induction xs arbitrary: st ts st')
  case (Cons x xs)
  let ?st = "st\<lparr>rv_disk := sp_disk x\<rparr>"
  show ?case
  proof (cases "attempt_recovery s (sp_io x) (sp_valid x) ?st")
    case None
    with Cons.prems show ?thesis by auto
  next
    case (Some y)
    obtain r st1 where y: "y = (r, st1)" by (cases y)
    obtain us st2 where tr: "recovery_trace s xs st1 = (us, st2)" by fastforce
    have att: "attempt_recovery s (sp_io x) (sp_valid x) ?st = Some (r, st1)" using Some y by simp
    have wf: "wf_recovery s ?st" using Cons.prems(1) by (simp add: wf_recovery_def)
    have "wf_recovery s st1"
      by (cases rule: attempt_cases [OF att]) (use wf wf_recovery_admit wf_recovery_same in blast)+
    with Cons.IH [OF _ tr] Some y attempt_wf [of s "sp_io x" "sp_valid x" ?st _ st1] tr Cons.prems(2) show ?thesis
      by (cases r) auto
  qed
qed simp

text \<open>
  The manager stays well formed over any sequence of attempts, whatever the disk, Docker, the clocks and the
  health checks answer: its status is one of the two it has, it remembers at most as many attempts as are allowed in a
  window, and the last of them is the last attempt. Every result is well formed: its reason is one of the
  eight; it is a success exactly when the reason is \<^verbatim>\<open>ok\<close>; and it says the configuration was restored
  exactly when the configuration was invalid and the attempt got as far as the restart.
\<close>

theorem recovery_is_well_formed:
  assumes "new_recovery s d w lg = Inr st" and "recovery_trace s xs st = (ts, st')"
  shows "wf_recovery s st' \<and> list_all2 (\<lambda>x y. case snd y of Inl e \<Rightarrow> True | Inr q \<Rightarrow> wf_result (sp_valid x) q)
    (take (length ts) xs) ts"
  by (rule trace_wf [OF _ assms(2)]) (use assms(1) in \<open>auto simp: new_recovery_def wf_recovery_def split: if_splits\<close>)

theorem recovery_is_well_formed_witness:
  "wf_recovery demo_settings (snd (recovery_trace demo_settings (map demo_step [0, 30, 60, 120, 700]) (demo_state demo_disk)))"
  using recovery_is_well_formed [OF demo_new prod.collapse [symmetric], of "map demo_step [0, 30, 60, 120, 700]"] by blast

end
