(* ===== verification/Lifespan.thy ===== *)
theory Lifespan
  imports RuntimeSafety RecoveryTypes
begin

text \<open>
  The life of the controller's process (\<^verbatim>\<open>lifespan\<close> of \<^verbatim>\<open>app/main.py\<close>): it starts from the environment,
  supervises, and stops. What a start can raise, that a started runtime is and stays well formed, and that the
  environment without any setting starts a controller whose parts fit together.
\<close>

section \<open>Start and stop\<close>

text \<open>\<open>docker\<close> is what \<^verbatim>\<open>docker.from_env()\<close> does; no value for durations that are not finite.\<close>

definition start_controller ::
    "env \<Rightarrow> unit result \<Rightarrow> disk \<Rightarrow> docker_world \<Rightarrow> incident_metrics \<Rightarrow> log_event list
       \<Rightarrow> (exn + runtime_settings \<times> runtime) option" where
  "start_controller env docker d w ms lg =
     (case controller_from_env env of
        Inl e \<Rightarrow> Some (Inl e)
      | Inr c \<Rightarrow>
          (case docker of
             Inl e \<Rightarrow> Some (Inl e)
           | Inr u \<Rightarrow>
               (case wire c of
                  None \<Rightarrow> None
                | Some s \<Rightarrow>
                    Some (bind_result (new_runtime s (cs_failure_threshold c) env d w ms lg) (\<lambda>rt. Inr (s, rt))))))"

text \<open>
  The end: the monitoring task is cancelled and awaited. \<open>ended\<close> is its outcome when it has ended before: an exception
  other than the cancellation is raised again by the \<^verbatim>\<open>await\<close>, and the runtime is not closed.
\<close>

definition stop_controller :: "(exn + unit) option \<Rightarrow> runtime \<Rightarrow> (exn + unit) \<times> runtime" where
  "stop_controller ended rt =
     (case ended of Some (Inl e) \<Rightarrow> (Inl e, rt) | _ \<Rightarrow> (Inr (), close_runtime rt))"

section \<open>Well-formed runtimes\<close>

definition wf_limits :: "recovery_settings \<Rightarrow> bool" where
  "wf_limits s \<longleftrightarrow> 0 \<le> rs_cooldown s \<and> 1 \<le> rs_max_recoveries s \<and> 0 < rs_window s \<and> 0 \<le> rs_wait s"

definition wf_runtime :: "runtime_settings \<Rightarrow> runtime \<Rightarrow> bool" where
  "wf_runtime s rt \<longleftrightarrow> wf_limits (rt_recovery s) \<and> incident_inv (rn_incidents rt)
     \<and> wf_recovery (rt_recovery s) (rn_recovery rt)"

lemma set_disk_recovery [simp]: "rn_recovery (set_disk d rt) = (rn_recovery rt)\<lparr>rv_disk := d\<rparr>"
  by (simp add: set_disk_def)

lemma wf_recovery_disk [simp]: "wf_recovery s (st\<lparr>rv_disk := d\<rparr>) = wf_recovery s st"
  by (simp add: wf_recovery_def)

lemma attempt_recovery_wf:
  assumes "attempt_recovery s io v st = Some (r, st')" and "wf_recovery s st"
  shows "wf_recovery s st'"
  by (cases rule: attempt_cases [OF assms(1)]) (use assms(2) wf_recovery_admit wf_recovery_same in blast)+

lemma handle_wf_recovery:
  assumes "handle_health_result safe_load errors s io result rt = Some (r, rt')"
    and "wf_recovery (rt_recovery s) (rn_recovery rt)"
  shows "wf_recovery (rt_recovery s) (rn_recovery rt')"
proof -
  obtain d where "(rn_recovery rt')\<lparr>rv_disk := d\<rparr> = (rn_recovery rt)\<lparr>rv_disk := d\<rparr>
    \<or> (\<exists>v q. attempt_recovery (rt_recovery s) (hi_attempt io) v ((rn_recovery rt)\<lparr>rv_disk := d\<rparr>) = Some (q, rn_recovery rt'))"
    using handle_recovery [OF assms(1)] by blast
  then show ?thesis
  proof
    assume "(rn_recovery rt')\<lparr>rv_disk := d\<rparr> = (rn_recovery rt)\<lparr>rv_disk := d\<rparr>"
    then show ?thesis using assms(2) wf_recovery_disk by metis
  next
    assume "\<exists>v q. attempt_recovery (rt_recovery s) (hi_attempt io) v ((rn_recovery rt)\<lparr>rv_disk := d\<rparr>) = Some (q, rn_recovery rt')"
    then show ?thesis using assms(2) attempt_recovery_wf wf_recovery_disk by metis
  qed
qed

lemma after_recovery_incidents:
  "incident_inv (rn_incidents rt) \<Longrightarrow> incident_inv (rn_incidents (after_recovery io why q rt))"
  by (simp add: after_recovery_def Let_def incident_inv_success)

lemma handle_incidents:
  assumes "handle_health_result safe_load errors s io result rt = Some (r, rt')" and "incident_inv (rn_incidents rt)"
  shows "incident_inv (rn_incidents rt')"
  using assms(1)
proof (cases rule: handle_result_cases)
  case (raised e)
  with assms(2) show ?thesis by simp
next
  case (healthy v why)
  then have "rn_incidents rt' = snd (record_success (hi_clock io) (rn_incidents rt))"
    by (auto simp: handle_ok_def Let_def split: prod.splits sum.splits if_splits)
  with incident_inv_success [OF assms(2)] show ?thesis by simp
next
  case (unhealthy v why)
  have inv: "incident_inv (snd (record_failure (hi_clock io) (hi_new_id io) (hr_reason result) (rn_incidents
      (set_metrics (\<lambda>m. m\<lparr>config_integrity := flag v\<rparr>) (snd (checked s result rt))))))"
    by (rule incident_inv_failure) (use assms(2) in simp)
  show ?thesis
    by (cases rule: handle_failure_cases [OF unhealthy(3)]) (use inv after_recovery_incidents in \<open>simp_all\<close>)
qed

lemma supervise_wf:
  assumes "supervise safe_load errors s xs rt = Some (r, rt')" and "wf_runtime s rt"
  shows "wf_runtime s rt'"
  using assms
proof (induction xs arbitrary: rt)
  case (Cons x xs)
  obtain q rt1 where h: "handle_health_result safe_load errors s (ss_io x) (ss_result x) (set_disk (ss_disk x) rt) = Some (q, rt1)"
    using Cons.prems(1) by (auto split: option.splits)
  have "wf_runtime s rt1"
    using handle_incidents [OF h] handle_wf_recovery [OF h] Cons.prems(2) by (simp add: wf_runtime_def)
  with Cons h show ?case by (auto split: sum.splits)
qed simp

section \<open>What a start gives\<close>

lemma py_float_raises: "py_float s = Inl e \<Longrightarrow> is_value_error e"
  by (auto simp: py_float_def Let_def split: prod.splits if_splits option.splits)

lemma py_int_raises: "py_int b s = Inl e \<Longrightarrow> is_value_error e"
  by (auto simp: py_int_def Let_def split: prod.splits if_splits option.splits)

lemma controller_from_env_raises: "controller_from_env env = Inl e \<Longrightarrow> is_value_error e"
  by (auto simp: controller_from_env_def Let_def env_float_def env_int_def bind_result_def
      dest: py_float_raises py_int_raises split: sum.splits)

lemma new_runtime_raises: "new_runtime s th env d w ms lg = Inl e \<Longrightarrow> is_value_error e"
  by (auto simp: new_runtime_def new_manager_def new_recovery_def bind_result_def split: if_splits sum.splits)

lemma new_runtime_wf: "new_runtime s th env d w ms lg = Inr rt \<Longrightarrow> wf_runtime s rt"
  by (auto simp: new_runtime_def new_manager_def new_recovery_def bind_result_def wf_runtime_def wf_limits_def
      incident_inv_def wf_recovery_def split: if_splits sum.splits)


section \<open>The environment without settings\<close>

definition controller_names :: "string list" where
  "controller_names = [''NEXGUARD_ALLOWED_CONTAINERS'', ''GATEWAY_HEALTH_URL'', ''HEALTH_CHECK_INTERVAL_SECONDS'',
     ''FAILURE_THRESHOLD'', ''CONFIG_PATH'', ''BACKUP_DIR'', ''BACKUP_INTERVAL_SECONDS'', ''BACKUP_RETENTION_COUNT'',
     ''GATEWAY_CONTAINER_NAME'', ''RECOVERY_COOLDOWN_SECONDS'', ''MAX_RECOVERIES_PER_WINDOW'',
     ''RECOVERY_WINDOW_SECONDS'', ''RESTART_WAIT_SECONDS'']"

lemma default_numbers:
  "py_float (show_nat 10) = Inr (Fin 10)" "py_float (show_nat 60) = Inr (Fin 60)"
  "py_float (show_nat 600) = Inr (Fin 600)" "py_float (show_nat 30) = Inr (Fin 30)"
  "py_int 10 (show_nat 3) = Inr 3" "py_int 10 (show_nat 10) = Inr 10"
  by code_simp+

lemma default_texts:
  "allowed_from_text ''gateway-simulator'' = {''gateway-simulator''}"
  "path_text ''/data/gateway/gateway.yaml'' = ''/data/gateway/gateway.yaml''"
  "path_text ''/data/backups'' = ''/data/backups''"
  "as_path ''/data/gateway/gateway.yaml'' = (''/data/gateway'', ''gateway.yaml'')"
  by code_simp+

definition default_settings :: runtime_settings where
  "default_settings = \<lparr>rt_recovery = \<lparr>rs_config = (''/data/gateway'', ''gateway.yaml''), rs_backup_dir = ''/data/backups'',
       rs_container = ''gateway-simulator'', rs_allowed = {''gateway-simulator''}, rs_cooldown = 60, rs_max_recoveries = 3,
       rs_window = 600, rs_wait = 30\<rparr>, rt_retention = 10, rt_backup_interval = 60\<rparr>"

lemma default_controller:
  assumes "\<forall>n \<in> set controller_names. env n = None"
  shows "\<exists>c. controller_from_env env = Inr c \<and> wire c = Some default_settings \<and> cs_failure_threshold c = 3
    \<and> cs_health_interval c = Fin 10"
proof -
  have env: "getenv env n v = v" if "n \<in> set controller_names" for n v using assms that by (simp add: getenv_def)
  have floats: "env_float env n k = py_float (show_nat k)" if "n \<in> set controller_names" for n k
    using env [OF that] by (simp add: env_float_def)
  have ints: "env_int env n k = py_int 10 (show_nat k)" if "n \<in> set controller_names" for n k
    using env [OF that] by (simp add: env_int_def)
  have "strip ''gateway-simulator'' = ''gateway-simulator''" by code_simp
  then have allowed: "make_allowed {''gateway-simulator''} = {''gateway-simulator''}" by (auto simp: make_allowed_def)
  show ?thesis
    unfolding controller_from_env_def Let_def
    by (simp add: env floats ints controller_names_def default_numbers [simplified] bind_result_def)
      (simp add: wire_def default_texts allowed default_settings_def)
qed

text \<open>
  With none of its settings in the environment the controller starts, and its parts fit together: the configuration
  and the backups are in directories of their own, which is what the safety of recovery asks for, the container it
  restarts is on the allowlist, at least one backup is kept, and the limits are those documented: three attempts in
  600 seconds, 60 seconds apart, after three failures in a row.
\<close>

theorem default_environment_starts:
  assumes "\<forall>n \<in> set controller_names. env n = None"
  shows "\<exists>s rt. start_controller env (Inr ()) d w ms lg = Some (Inr (s, rt))
    \<and> config_apart (rt_recovery s) \<and> rs_container (rt_recovery s) \<in> rs_allowed (rt_recovery s)
    \<and> 1 \<le> rt_retention s \<and> rs_max_recoveries (rt_recovery s) = 3 \<and> rs_window (rt_recovery s) = 600
    \<and> rs_cooldown (rt_recovery s) = 60 \<and> failure_threshold (rn_incidents rt) = 3 \<and> rn_disk rt = d"
proof -
  obtain c :: controller_settings where c: "controller_from_env env = Inr c" "wire c = Some default_settings"
    "cs_failure_threshold c = 3"
    using default_controller [OF assms] by blast
  have "config_apart (rt_recovery default_settings)"
    by (simp add: config_apart_def default_settings_def is_temp_def)
  then show ?thesis
    using c by (simp add: start_controller_def new_runtime_def new_manager_def new_recovery_def bind_result_def
        default_settings_def rn_disk_def)
qed

theorem default_environment_starts_witness:
  "\<exists>s rt. start_controller [''TELEGRAM_CHAT_ID'' \<mapsto> ''7''] (Inr ()) demo_disk \<lparr>dk_restarts = [], dk_log = []\<rparr>
      \<lparr>incidents_total = 0, failures_gauge = 0\<rparr> [] = Some (Inr (s, rt)) \<and> config_apart (rt_recovery s)"
proof -
  have "\<forall>n \<in> set controller_names. [''TELEGRAM_CHAT_ID'' \<mapsto> ''7''] n = None" by (simp add: controller_names_def)
  from default_environment_starts [OF this] show ?thesis by blast
qed


end
