(* ===== verification/ClosedLoop.thy ===== *)
theory ClosedLoop
  imports Lifespan
begin

text \<open>
  The controller together with the gateway it watches. The gateway simulator reads the configuration the
  controller repairs, so its answers, in the monitoring loop and in the readiness checks of a recovery, are no inputs
  here but what the simulator makes of the file that is on the disk at that moment. What is left open are the clocks,
  Docker, the YAML loader, the validation engine and the faults of the disk.
\<close>

section \<open>The gateway in the loop\<close>

text \<open>What the gateway's own process reads.\<close>

definition file_src :: "path \<Rightarrow> disk \<Rightarrow> byte list result" where
  "file_src p d = (case find_file d p of None \<Rightarrow> Inl FileNotFoundError | Some f \<Rightarrow> Inr (f_data f))"

text \<open>The readings of the clocks in one health check.\<close>

type_synonym check_times = "real \<times> real \<times> datetime"

definition observed :: "yaml_loader \<Rightarrow> validator \<Rightarrow> check_times \<Rightarrow> byte list result \<Rightarrow> health_result result" where
  "observed safe_load errors tm src =
     (case tm of
        (started, finished, checked_at) \<Rightarrow>
          (case check_once started finished checked_at (Inr (fst (health safe_load errors src 0))) of
             Inl e \<Rightarrow> Inl e
           | Inr (r, event) \<Rightarrow> Inr r))"

text \<open>The disk the gateway is restarted on: of the attempt, after the restoration if there is one.\<close>

definition ready_disk :: "recovery_settings \<Rightarrow> attempt_io \<Rightarrow> bool \<Rightarrow> recovery_state \<Rightarrow> disk" where
  "ready_disk s io config_valid st =
     (let st1 = snd (admit s io st)
      in if config_valid then rv_disk st1 else rv_disk (snd (restore_branch s io st1)))"

definition plug_gateway ::
    "yaml_loader \<Rightarrow> validator \<Rightarrow> (nat \<Rightarrow> check_times) \<Rightarrow> recovery_settings \<Rightarrow> bool \<Rightarrow> recovery_state \<Rightarrow> attempt_io
       \<Rightarrow> attempt_io" where
  "plug_gateway safe_load errors tm s config_valid st io =
     io\<lparr>io_health := (\<lambda>k. observed safe_load errors (tm k) (file_src (rs_config s) (ready_disk s io config_valid st)))\<rparr>"

text \<open>The inputs of one iteration of the monitoring loop that are left.\<close>

record loop_tick =
  lt_times :: check_times
  lt_io :: handle_io
  lt_after :: "nat \<Rightarrow> check_times"

definition tick_io ::
    "yaml_loader \<Rightarrow> validator \<Rightarrow> runtime_settings \<Rightarrow> loop_tick \<Rightarrow> health_result \<Rightarrow> runtime \<Rightarrow> handle_io" where
  "tick_io safe_load errors s x result rt =
     (let (src, seen) = checked s result rt;
          config_valid = (case check_config safe_load errors src of Inl e \<Rightarrow> True | Inr (v, why) \<Rightarrow> v)
      in (lt_io x)\<lparr>hi_attempt := plug_gateway safe_load errors (lt_after x) (rt_recovery s) config_valid
           (rn_recovery seen) (hi_attempt (lt_io x))\<rparr>)"

text \<open>One iteration: \<^verbatim>\<open>check_once\<close>, then the handler.\<close>

definition loop_step ::
    "yaml_loader \<Rightarrow> validator \<Rightarrow> runtime_settings \<Rightarrow> loop_tick \<Rightarrow> runtime \<Rightarrow> ((exn + unit) \<times> runtime) option" where
  "loop_step safe_load errors s x rt =
     (case observed safe_load errors (lt_times x) (file_src (rs_config (rt_recovery s)) (rn_disk rt)) of
        Inl e \<Rightarrow> Some (Inl e, rt)
      | Inr result \<Rightarrow> handle_health_result safe_load errors s (tick_io safe_load errors s x result rt) result rt)"

fun closed_loop ::
    "yaml_loader \<Rightarrow> validator \<Rightarrow> runtime_settings \<Rightarrow> loop_tick list \<Rightarrow> runtime \<Rightarrow> ((exn + unit) \<times> runtime) option" where
  "closed_loop safe_load errors s [] rt = Some (Inr (), rt)"
| "closed_loop safe_load errors s (x # xs) rt =
     (case loop_step safe_load errors s x rt of
        None \<Rightarrow> None
      | Some (Inl e, rt') \<Rightarrow> Some (Inl e, rt')
      | Some (Inr u, rt') \<Rightarrow> closed_loop safe_load errors s xs rt')"

section \<open>What the controller sees of the gateway\<close>

lemma observed_result:
  assumes "rejects_non_dicts errors"
  shows "\<exists>r. observed safe_load errors tm src = Inr r \<and> (hr_ok r \<longleftrightarrow> config_ok safe_load errors src)"
proof -
  obtain a b t where tm: "tm = (a, b, t)" by (cases tm)
  have "fst (fst (health safe_load errors src 0)) \<noteq> 200 \<Longrightarrow> \<exists>r ev. check_once a b t (Inr (fst (health safe_load errors src 0))) = Inr (r, ev)"
    by (cases "config_is_valid safe_load errors src")
      (auto simp: health_def check_once_cases check_response_def failure_reason_def payload_reason_def Let_def split: bool.splits)
  show ?thesis
    using config_is_valid_True [OF assms, of safe_load src]
    by (cases "config_is_valid safe_load errors src")
      (auto simp: tm observed_def health_def check_once_cases check_response_def failure_reason_def payload_reason_def Let_def
        split: bool.splits)
qed

lemma read_config_src:
  "fst (read_file p d) = file_src p d \<or> (\<exists>e. fst (read_file p d) = Inl e \<and> is_os_error e)"
  by (auto simp: read_file_def syscall_def with_file_def whole_def file_src_def find_file_def died_def
      split: list.split fault.split option.split)

section \<open>A valid configuration is left in peace\<close>

text \<open>What the handler of a healthy gateway leaves as it was.\<close>

definition undisturbed :: "path \<Rightarrow> runtime \<Rightarrow> runtime \<Rightarrow> bool" where
  "undisturbed config rt rt' \<longleftrightarrow> find_file (rn_disk rt') config = find_file (rn_disk rt) config
     \<and> rv_docker (rn_recovery rt') = rv_docker (rn_recovery rt)
     \<and> rv_attempts (rn_recovery rt') = rv_attempts (rn_recovery rt)
     \<and> rv_status (rn_recovery rt') = rv_status (rn_recovery rt)"

lemma undisturbed_refl [simp]: "undisturbed config rt rt"
  by (simp add: undisturbed_def)

lemma undisturbed_trans: "undisturbed config a b \<Longrightarrow> undisturbed config b c \<Longrightarrow> undisturbed config a c"
  by (simp add: undisturbed_def)

lemma handle_ok_undisturbed:
  assumes "config_apart (rt_recovery s)" and "hr_ok result"
    and "handle_health_result safe_load errors s io result rt = Some (r, rt')"
  shows "undisturbed (rs_config (rt_recovery s)) rt rt'
    \<and> (r = Inr () \<longrightarrow> current_incident (rn_incidents rt') = None \<and> consecutive_failures (rn_incidents rt') = 0
         \<and> gateway_up (rn_metrics rt') = 1)"
  using assms(3)
proof (cases rule: handle_result_cases)
  case (raised e)
  then show ?thesis by (auto simp: undisturbed_def)
next
  case (healthy v why)
  let ?rt = "set_metrics (\<lambda>m. m\<lparr>config_integrity := flag v\<rparr>) (snd (checked s result rt))"
  have "find_file (rn_disk rt') (rs_config (rt_recovery s)) = find_file (rn_disk ?rt) (rs_config (rt_recovery s))"
    using handle_ok_confined [of "rs_config (rt_recovery s)" s safe_load errors io v ?rt] assms(1) healthy(3)
    by (simp add: config_apart_def)
  moreover have "rn_recovery rt' = (rn_recovery ?rt)\<lparr>rv_disk := rn_disk rt'\<rparr>"
    using handle_ok_recovery [of safe_load errors s io v ?rt] healthy(3) by simp
  moreover have "r = Inr () \<longrightarrow> rn_incidents rt' = snd (record_success (hi_clock io) (rn_incidents rt))
      \<and> gateway_up (rn_metrics rt') = 1"
    using healthy(2,3) by (auto simp: handle_ok_def Let_def flag_def split: prod.splits sum.splits if_splits)
  ultimately show ?thesis by (auto simp: undisturbed_def)
next
  case (unhealthy v why)
  with assms(2) show ?thesis by simp
qed

lemma loop_step_quiet:
  assumes "config_apart (rt_recovery s)" and "rejects_non_dicts errors"
    and "config_ok safe_load errors (file_src (rs_config (rt_recovery s)) (rn_disk rt))"
    and "loop_step safe_load errors s x rt = Some (r, rt')"
  shows "undisturbed (rs_config (rt_recovery s)) rt rt'
    \<and> (r = Inr () \<longrightarrow> current_incident (rn_incidents rt') = None \<and> consecutive_failures (rn_incidents rt') = 0
         \<and> gateway_up (rn_metrics rt') = 1)"
proof -
  obtain result where "observed safe_load errors (lt_times x) (file_src (rs_config (rt_recovery s)) (rn_disk rt)) = Inr result"
    and ok: "hr_ok result"
    using observed_result [OF assms(2)] assms(3) by blast
  with assms(4) have "handle_health_result safe_load errors s (tick_io safe_load errors s x result rt) result rt = Some (r, rt')"
    by (simp add: loop_step_def)
  from handle_ok_undisturbed [OF assms(1) ok this] show ?thesis .
qed

lemma file_src_undisturbed: "undisturbed config rt rt' \<Longrightarrow> file_src config (rn_disk rt') = file_src config (rn_disk rt)"
  by (simp add: undisturbed_def file_src_def)

text \<open>One iteration after the other.\<close>

lemma closed_loop_quiet:
  assumes "config_apart (rt_recovery s)" and "rejects_non_dicts errors"
    and "config_ok safe_load errors (file_src (rs_config (rt_recovery s)) (rn_disk rt))"
    and "closed_loop safe_load errors s xs rt = Some (r, rt')"
  shows "undisturbed (rs_config (rt_recovery s)) rt rt'
    \<and> (r = Inr () \<and> xs \<noteq> [] \<longrightarrow> current_incident (rn_incidents rt') = None
         \<and> consecutive_failures (rn_incidents rt') = 0 \<and> gateway_up (rn_metrics rt') = 1)"
  using assms(3,4)
proof (induction xs arbitrary: rt)
  case (Cons x xs)
  obtain q rt1 where step: "loop_step safe_load errors s x rt = Some (q, rt1)"
    using Cons.prems(2) by (auto split: option.splits)
  note quiet = loop_step_quiet [OF assms(1,2) Cons.prems(1) step]
  show ?case
  proof (cases q)
    case (Inl e)
    with step Cons.prems(2) quiet show ?thesis by auto
  next
    case (Inr u)
    with step Cons.prems(2) have "closed_loop safe_load errors s xs rt1 = Some (r, rt')" by simp
    moreover have "config_ok safe_load errors (file_src (rs_config (rt_recovery s)) (rn_disk rt1))"
      using quiet Cons.prems(1) file_src_undisturbed by metis
    ultimately have "undisturbed (rs_config (rt_recovery s)) rt1 rt'
      \<and> (r = Inr () \<and> xs \<noteq> [] \<longrightarrow> current_incident (rn_incidents rt') = None
           \<and> consecutive_failures (rn_incidents rt') = 0 \<and> gateway_up (rn_metrics rt') = 1)"
      using Cons.IH by blast
    moreover have "xs = [] \<longrightarrow> rt' = rt1 \<and> r = Inr ()" using step Inr Cons.prems(2) by auto
    ultimately show ?thesis using quiet Inr undisturbed_trans by (metis old.unit.exhaust)
  qed
qed simp

text \<open>
  C6. There are no false alarms: while the file of the configuration is valid, the loop of controller and gateway
  never restarts the container, never starts an attempt and never touches the configuration, over any number of
  iterations, whatever the clocks say and whatever faults the disk has; and as long as the loop runs, no incident is
  open and the gateway shows as up.
\<close>

theorem no_false_alarms:
  assumes "config_apart (rt_recovery s)" and "rejects_non_dicts errors"
    and "config_ok safe_load errors (file_src (rs_config (rt_recovery s)) (rn_disk rt))"
    and "closed_loop safe_load errors s xs rt = Some (r, rt')"
  shows "undisturbed (rs_config (rt_recovery s)) rt rt'
    \<and> (r = Inr () \<and> xs \<noteq> [] \<longrightarrow> current_incident (rn_incidents rt') = None
         \<and> consecutive_failures (rn_incidents rt') = 0 \<and> gateway_up (rn_metrics rt') = 1)"
  by (rule closed_loop_quiet [OF assms])

section \<open>A corrupted configuration is repaired\<close>

text \<open>What Docker and the clocks have to do in a recovery; the gateway does its part by itself.\<close>

definition docker_obeys :: "recovery_settings \<Rightarrow> attempt_io \<Rightarrow> bool" where
  "docker_obeys s io \<longleftrightarrow> rs_container s \<in> rs_allowed s \<and> 0 \<le> rs_wait s
     \<and> (\<exists>labels. io_get io (rs_container s) = Inr labels \<and> map_of labels ''io.nexguard.managed'' = Some ''true'')
     \<and> io_restart io = Inr () \<and> io_wait_get io = Inr () \<and> io_reload io 0 = Inr ''running''"

lemma obeys_plug:
  "obeys s (plug_gateway safe_load errors tm s v st io) \<longleftrightarrow> docker_obeys s io
     \<and> (\<exists>h. observed safe_load errors (tm 0) (file_src (rs_config s) (ready_disk s io v st)) = Inr h \<and> hr_ok h)"
  by (auto simp: obeys_def docker_obeys_def plug_gateway_def)

lemma may_start_plug [simp]: "may_start s (plug_gateway safe_load errors tm s v st io) = may_start s io"
  by (simp add: may_start_def plug_gateway_def fun_eq_iff split: option.split)

text \<open>A restoration that works leaves the gateway a configuration it accepts.\<close>

lemma ready_disk_valid:
  assumes "config_apart s" and "line_ends_agree safe_load" and "restorable safe_load errors s (rv_disk st)"
    and "may_start s io st"
  shows "config_ok safe_load errors (file_src (rs_config s) (ready_disk s io False st))"
proof -
  obtain st1 where adm: "admit s io st = (None, st1)" "rv_disk st1 = rv_disk st" using admit_may_start [OF assms(4)] by blast
  obtain st2 where rb: "restore_branch s io st1 = (Inr None, st2)"
    using restore_branch_works [of safe_load errors s st1 io] assms(3) adm(2) by auto
  have "good_backups safe_load errors (rs_backup_dir s) (find_file (rv_disk st1))"
    using assms(3) adm(2) by (simp add: restorable_def)
  from restore_branch_config [OF assms(1) this rb] obtain g where
    "find_file (rv_disk st2) (rs_config s) = Some g" "valid_bytes safe_load errors (f_data g)" by auto
  with valid_bytes_config_ok [OF assms(2)] adm rb show ?thesis by (simp add: ready_disk_def file_src_def)
qed

lemma calm_read: "calm d \<Longrightarrow> read_file p d = (file_src p d, d)"
  by (simp add: read_file_def with_file_def file_src_def split: option.split)

lemma calm_checked:
  assumes "calm (rn_disk rt)"
  shows "fst (checked s result rt) = file_src (rs_config (rt_recovery s)) (rn_disk rt)"
    and "rn_recovery (snd (checked s result rt)) = rn_recovery rt"
  using assms by (simp_all add: checked_def calm_read rn_disk_def)

text \<open>A failed check that does not yet reach the threshold is counted, and nothing else happens.\<close>

lemma loop_step_counts:
  assumes "rejects_non_dicts errors" and "calm (rn_disk rt)"
    and "check_config safe_load errors (file_src (rs_config (rt_recovery s)) (rn_disk rt)) = Inr (False, why)"
    and "current_incident (rn_incidents rt) = None"
    and "consecutive_failures (rn_incidents rt) + 1 \<noteq> failure_threshold (rn_incidents rt)"
  shows "\<exists>rt'. loop_step safe_load errors s x rt = Some (Inr (), rt') \<and> rn_recovery rt' = rn_recovery rt
    \<and> current_incident (rn_incidents rt') = None
    \<and> consecutive_failures (rn_incidents rt') = consecutive_failures (rn_incidents rt) + 1
    \<and> failure_threshold (rn_incidents rt') = failure_threshold (rn_incidents rt)
    \<and> recoveries_total (rn_metrics rt') = recoveries_total (rn_metrics rt)"
proof -
  let ?src = "file_src (rs_config (rt_recovery s)) (rn_disk rt)"
  have "\<not> config_ok safe_load errors ?src" using check_config_Inr [OF assms(3)] by simp
  then obtain result where obs: "observed safe_load errors (lt_times x) ?src = Inr result" "\<not> hr_ok result"
    using observed_result [OF assms(1)] by blast
  let ?io = "tick_io safe_load errors s x result rt"
  let ?i = "record_failure (hi_clock ?io) (hi_new_id ?io) (hr_reason result) (rn_incidents rt)"
  have i: "fst ?i = None" "current_incident (snd ?i) = None"
    "consecutive_failures (snd ?i) = consecutive_failures (rn_incidents rt) + 1"
    "failure_threshold (snd ?i) = failure_threshold (rn_incidents rt)"
    using assms(4,5) by (simp_all add: record_failure_def Let_def)
  show ?thesis
    using obs assms(2,3) i
    by (simp add: loop_step_def handle_cases calm_checked handle_failure_def Let_def split_beta)
qed

text \<open>The check that reaches the threshold repairs.\<close>

lemma loop_step_repairs:
  assumes "config_apart (rt_recovery s)" and "rejects_non_dicts errors" and "line_ends_agree safe_load"
    and "restorable safe_load errors (rt_recovery s) (rn_disk rt)"
    and "check_config safe_load errors (file_src (rs_config (rt_recovery s)) (rn_disk rt)) = Inr (False, why)"
    and "consecutive_failures (rn_incidents rt) + 1 = failure_threshold (rn_incidents rt)"
    and "docker_obeys (rt_recovery s) (hi_attempt (lt_io x))"
    and "may_start (rt_recovery s) (hi_attempt (lt_io x)) (rn_recovery rt)"
  shows "\<exists>rt'. loop_step safe_load errors s x rt = Some (Inr (), rt')
    \<and> config_ok safe_load errors (file_src (rs_config (rt_recovery s)) (rn_disk rt'))
    \<and> dk_restarts (rv_docker (rn_recovery rt')) = dk_restarts (rv_docker (rn_recovery rt)) @ [rs_container (rt_recovery s)]
    \<and> current_incident (rn_incidents rt') = None \<and> consecutive_failures (rn_incidents rt') = 0
    \<and> gateway_up (rn_metrics rt') = 1 \<and> config_integrity (rn_metrics rt') = 1
    \<and> recoveries_total (rn_metrics rt') = Suc (recoveries_total (rn_metrics rt))"
proof -
  let ?s = "rt_recovery s" and ?src = "file_src (rs_config (rt_recovery s)) (rn_disk rt)"
  have calm: "calm (rn_disk rt)" using assms(4) by (simp add: restorable_def)
  have "\<not> config_ok safe_load errors ?src" using check_config_Inr [OF assms(5)] by simp
  then obtain result where obs: "observed safe_load errors (lt_times x) ?src = Inr result" "\<not> hr_ok result"
    using observed_result [OF assms(2)] by blast
  let ?io = "tick_io safe_load errors s x result rt"
  have io: "hi_attempt ?io = plug_gateway safe_load errors (lt_after x) ?s False (rn_recovery rt) (hi_attempt (lt_io x))"
    using assms(5) calm by (simp add: tick_io_def calm_checked split_beta)
  have "config_ok safe_load errors (file_src (rs_config ?s) (ready_disk ?s (hi_attempt (lt_io x)) False (rn_recovery rt)))"
    by (rule ready_disk_valid [OF assms(1,3)]) (use assms(4,8) in \<open>simp_all add: rn_disk_def\<close>)
  then have "obeys ?s (hi_attempt ?io)"
    unfolding io obeys_plug using assms(7) observed_result [OF assms(2)] by blast
  moreover have "may_start ?s (hi_attempt ?io) (rn_recovery rt)" unfolding io using assms(8) by simp
  moreover have "check_config safe_load errors (fst (read_file (rs_config ?s) (rn_disk rt))) = Inr (False, why)"
    using assms(5) calm by (simp add: calm_read)
  ultimately obtain rt' g where step: "handle_health_result safe_load errors s ?io result rt = Some (Inr (), rt')"
    and g: "find_file (rn_disk rt') (rs_config ?s) = Some g" "valid_bytes safe_load errors (f_data g)"
    and rest: "dk_restarts (rv_docker (rn_recovery rt')) = dk_restarts (rv_docker (rn_recovery rt)) @ [rs_container ?s]"
      "current_incident (rn_incidents rt') = None" "consecutive_failures (rn_incidents rt') = 0"
      "gateway_up (rn_metrics rt') = 1" "config_integrity (rn_metrics rt') = 1"
      "recoveries_total (rn_metrics rt') = Suc (recoveries_total (rn_metrics rt))"
    using outage_is_repaired [OF assms(1,4) _ _ obs(2) disjI2 [OF assms(6)]] by blast
  from g valid_bytes_config_ok [OF assms(3)] have "config_ok safe_load errors (file_src (rs_config ?s) (rn_disk rt'))"
    by (simp add: file_src_def)
  with step obs rest show ?thesis by (simp add: loop_step_def)
qed

text \<open>
  C3. A corrupted configuration is repaired, and stays repaired: from a controller that counts no incident, over a
  disk without faults and with a trusted backup, exactly as many iterations as failures are missing to the threshold lead
  from an invalid configuration to a valid one, if Docker obeys in the last of them and an attempt may start
  then; the container is restarted once, the incident is closed, one recovery is counted. From then on no iteration
  restarts or restores anything, whatever happens to the disk, unless the configuration is changed again.
\<close>

theorem corruption_is_repaired:
  assumes "config_apart (rt_recovery s)" and "rejects_non_dicts errors" and "line_ends_agree safe_load"
    and "restorable safe_load errors (rt_recovery s) (rn_disk rt)"
    and "check_config safe_load errors (file_src (rs_config (rt_recovery s)) (rn_disk rt)) = Inr (False, why)"
    and "current_incident (rn_incidents rt) = None"
    and "consecutive_failures (rn_incidents rt) + int (length xs) + 1 = failure_threshold (rn_incidents rt)"
    and "docker_obeys (rt_recovery s) (hi_attempt (lt_io x))"
    and "may_start (rt_recovery s) (hi_attempt (lt_io x)) (rn_recovery rt)"
  shows "\<exists>rt'. closed_loop safe_load errors s (xs @ [x]) rt = Some (Inr (), rt')
    \<and> config_ok safe_load errors (file_src (rs_config (rt_recovery s)) (rn_disk rt'))
    \<and> dk_restarts (rv_docker (rn_recovery rt')) = dk_restarts (rv_docker (rn_recovery rt)) @ [rs_container (rt_recovery s)]
    \<and> current_incident (rn_incidents rt') = None \<and> gateway_up (rn_metrics rt') = 1
    \<and> recoveries_total (rn_metrics rt') = Suc (recoveries_total (rn_metrics rt))
    \<and> (\<forall>ys r rt''. closed_loop safe_load errors s ys rt' = Some (r, rt'')
         \<longrightarrow> undisturbed (rs_config (rt_recovery s)) rt' rt'')"
proof -
  have "\<exists>rt'. closed_loop safe_load errors s (xs @ [x]) rt = Some (Inr (), rt')
    \<and> config_ok safe_load errors (file_src (rs_config (rt_recovery s)) (rn_disk rt'))
    \<and> dk_restarts (rv_docker (rn_recovery rt')) = dk_restarts (rv_docker (rn_recovery rt)) @ [rs_container (rt_recovery s)]
    \<and> current_incident (rn_incidents rt') = None \<and> gateway_up (rn_metrics rt') = 1
    \<and> recoveries_total (rn_metrics rt') = Suc (recoveries_total (rn_metrics rt))"
    using assms(4-7,9)
  proof (induction xs arbitrary: rt)
    case Nil
    then have "consecutive_failures (rn_incidents rt) + 1 = failure_threshold (rn_incidents rt)" by simp
    from loop_step_repairs [OF assms(1-3) Nil(1,2) this assms(8) Nil(5)] show ?case by auto
  next
    case (Cons y ys)
    have calm: "calm (rn_disk rt)" using Cons.prems(1) by (simp add: restorable_def)
    have "consecutive_failures (rn_incidents rt) + 1 \<noteq> failure_threshold (rn_incidents rt)"
      using Cons.prems(4) by simp
    from loop_step_counts [OF assms(2) calm Cons.prems(2,3) this] obtain rt1 where
      step: "loop_step safe_load errors s y rt = Some (Inr (), rt1)" and rec: "rn_recovery rt1 = rn_recovery rt"
      and rt1: "current_incident (rn_incidents rt1) = None"
        "consecutive_failures (rn_incidents rt1) = consecutive_failures (rn_incidents rt) + 1"
        "failure_threshold (rn_incidents rt1) = failure_threshold (rn_incidents rt)"
        "recoveries_total (rn_metrics rt1) = recoveries_total (rn_metrics rt)" by blast
    have disk: "rn_disk rt1 = rn_disk rt" using rec by (simp add: rn_disk_def)
    have "\<exists>rt'. closed_loop safe_load errors s (ys @ [x]) rt1 = Some (Inr (), rt')
      \<and> config_ok safe_load errors (file_src (rs_config (rt_recovery s)) (rn_disk rt'))
      \<and> dk_restarts (rv_docker (rn_recovery rt')) = dk_restarts (rv_docker (rn_recovery rt1)) @ [rs_container (rt_recovery s)]
      \<and> current_incident (rn_incidents rt') = None \<and> gateway_up (rn_metrics rt') = 1
      \<and> recoveries_total (rn_metrics rt') = Suc (recoveries_total (rn_metrics rt1))"
      by (rule Cons.IH) (use Cons.prems rt1 rec disk in simp_all)
    then show ?case using step rec rt1(4) by simp
  qed
  with closed_loop_quiet [OF assms(1,2)] show ?thesis by blast
qed

section \<open>Examples\<close>

definition demo_loop_tick :: loop_tick where
  "demo_loop_tick = \<lparr>lt_times = (0, 1, noon), lt_io = demo_hio 0, lt_after = (\<lambda>k. (real k, real k + 1, noon))\<rparr>"

lemma demo_rejects: "rejects_non_dicts demo_errors"
  by (simp add: rejects_non_dicts_def demo_errors_def)

lemma demo_good: "config_ok demo_load demo_errors (Inr (ascii_bytes ''good''))"
  using check_config_Inr [OF demo_check] by simp

lemma loop_step_healthy:
  assumes "rejects_non_dicts errors"
    and "config_ok safe_load errors (file_src (rs_config (rt_recovery s)) (rn_disk rt))"
  shows "\<exists>r rt'. loop_step safe_load errors s x rt = Some (r, rt')"
proof -
  obtain result where "observed safe_load errors (lt_times x) (file_src (rs_config (rt_recovery s)) (rn_disk rt)) = Inr result"
    "hr_ok result" using observed_result [OF assms(1)] assms(2) by blast
  then show ?thesis by (auto simp: loop_step_def handle_cases Let_def split: sum.split)
qed

theorem no_false_alarms_witness:
  "\<exists>r rt'. closed_loop demo_load demo_errors demo_rt_settings [demo_loop_tick] (demo_runtime demo_disk) = Some (r, rt')
     \<and> undisturbed demo_config (demo_runtime demo_disk) rt'"
proof -
  have ok: "config_ok demo_load demo_errors (file_src (rs_config (rt_recovery demo_rt_settings)) (rn_disk (demo_runtime demo_disk)))"
    using demo_good by (simp add: file_src_def find_demo_disk demo_settings_def)
  obtain r rt' where "loop_step demo_load demo_errors demo_rt_settings demo_loop_tick (demo_runtime demo_disk) = Some (r, rt')"
    using loop_step_healthy [OF demo_rejects ok] by blast
  then have run: "closed_loop demo_load demo_errors demo_rt_settings [demo_loop_tick] (demo_runtime demo_disk) = Some (r, rt')"
    by (cases r) simp_all
  have "config_apart (rt_recovery demo_rt_settings)" using demo_apart by simp
  from no_false_alarms [OF this demo_rejects ok run] run show ?thesis by (auto simp: demo_settings_def)
qed

text \<open>The demonstration controller, its configuration damaged after a backup, with no failure counted yet.\<close>

definition demo_quiet :: "disk \<Rightarrow> runtime" where
  "demo_quiet d = (demo_runtime d)\<lparr>rn_incidents := \<lparr>failure_threshold = 3,
     metrics = \<lparr>incidents_total = 0, failures_gauge = 0\<rparr>, consecutive_failures = 0, current_incident = None, incident_log = []\<rparr>\<rparr>"

lemma demo_quiet_fields [simp]:
  "rn_disk (demo_quiet d) = d" "rn_recovery (demo_quiet d) = demo_state d"
  "current_incident (rn_incidents (demo_quiet d)) = None" "consecutive_failures (rn_incidents (demo_quiet d)) = 0"
  "failure_threshold (rn_incidents (demo_quiet d)) = 3"
  by (simp_all add: demo_quiet_def)

lemma demo_damaged:
  "\<exists>d. restorable (\<lambda>t. demo_load (newlines t)) demo_errors demo_settings d
     \<and> find_file d demo_config = Some \<lparr>f_data = ascii_bytes ''{'', f_mode = 0x1B4, f_gid = 20\<rparr>"
proof -
  let ?load = "\<lambda>t. demo_load (newlines t)"
  obtain d' where run: "create_backup ?load demo_errors demo_config demo_dir True noon 2 demo_disk = (Inr (demo_dir, demo_name), d')"
    and good: "good_backups ?load demo_errors demo_dir (find_file (damaged d'))"
    and calm: "calm (damaged d')" and same: "same_dir demo_dir (find_file d') (find_file (damaged d'))"
    and temps: "\<forall>p \<in> temps (fst demo_config). find_file (damaged d') p = None"
    using demo_recovery by blast
  have "complete demo_dir (find_file demo_disk) = {}" by (auto simp: complete_def find_demo_disk demo_paths)
  from first_backup [OF run this] same have "listing demo_dir (find_file (damaged d')) \<noteq> []"
    by (simp add: listing_def complete_def same_dir_def)
  with good calm temps show ?thesis
    by (intro exI [of _ "damaged d'"]) (simp add: restorable_def damaged_def)
qed

theorem corruption_is_repaired_witness:
  "\<exists>d rt'. closed_loop (\<lambda>t. demo_load (newlines t)) demo_errors demo_rt_settings [demo_loop_tick, demo_loop_tick, demo_loop_tick] (demo_quiet d)
       = Some (Inr (), rt')
     \<and> check_config (\<lambda>t. demo_load (newlines t)) demo_errors (file_src demo_config d) = Inr (False, ''yaml_parse_error'')
     \<and> config_ok (\<lambda>t. demo_load (newlines t)) demo_errors (file_src demo_config (rn_disk rt'))
     \<and> dk_restarts (rv_docker (rn_recovery rt')) = [''gateway-simulator'']"
proof -
  let ?load = "\<lambda>t. demo_load (newlines t)"
  obtain d where d: "restorable ?load demo_errors demo_settings d"
    "find_file d demo_config = Some \<lparr>f_data = ascii_bytes ''{'', f_mode = 0x1B4, f_gid = 20\<rparr>"
    using demo_damaged by blast
  have src: "file_src demo_config d = Inr (ascii_bytes ''{'')" using d(2) by (simp add: file_src_def)
  have bad: "check_config ?load demo_errors (Inr (ascii_bytes ''{'')) = Inr (False, ''yaml_parse_error'')"
    by (simp add: demo_evals)
  have "docker_obeys demo_settings (demo_io 0)" by (simp add: docker_obeys_def demo_settings_def demo_io_def)
  moreover have "may_start demo_settings (demo_io 0) (demo_state d)"
    by (simp add: may_start_def demo_settings_def demo_state_def demo_io_def expire_def)
  moreover have "hi_attempt (lt_io demo_loop_tick) = demo_io 0" by (simp add: demo_loop_tick_def)
  moreover have "rs_config demo_settings = demo_config" "rs_container demo_settings = ''gateway-simulator''"
    by (simp_all add: demo_settings_def)
  moreover have "dk_restarts (rv_docker (demo_state d)) = []" by (simp add: demo_state_def)
  ultimately show ?thesis
    using corruption_is_repaired [of demo_rt_settings demo_errors ?load "demo_quiet d" "''yaml_parse_error''" "[demo_loop_tick, demo_loop_tick]" demo_loop_tick]
      demo_apart demo_rejects demo_line_ends d(1) src bad
    by (intro exI [of _ d]) (simp del: closed_loop.simps, blast)
qed

end
