(* ===== verification/Monitoring.thy ===== *)
theory Monitoring
  imports RuntimeSafety
begin

text \<open>
  The monitoring loop with the controller's handler as its callback (\<^verbatim>\<open>monitor.run(handle_health_result)\<close> in
  \<^verbatim>\<open>lifespan\<close>), against \<open>supervise\<close>, which the properties of the controller are stated over: the loop's deadlines
  and pauses change nothing in what the handler makes of the health results.
\<close>

text \<open>The handler as a callback of the loop; the state counts the results handled, to find the inputs of the next.\<close>

definition handler_callback ::
    "yaml_loader \<Rightarrow> validator \<Rightarrow> runtime_settings \<Rightarrow> (nat \<Rightarrow> supervision_step) \<Rightarrow> health_result
       \<Rightarrow> nat \<times> runtime \<Rightarrow> (exn + unit) \<times> nat \<times> runtime" where
  "handler_callback safe_load errors s steps result u =
     (let k = fst u;
          (r, rt) = the (handle_health_result safe_load errors s (ss_io (steps k)) result (set_disk (ss_disk (steps k)) (snd u)))
      in (r, Suc k, rt))"

text \<open>A tick of the loop that checks the gateway with the result of a step, and whose sleep is not cancelled.\<close>

definition checks :: "(nat \<Rightarrow> supervision_step) \<Rightarrow> (nat \<Rightarrow> tick) \<Rightarrow> bool" where
  "checks steps ticks \<longleftrightarrow> (\<forall>k. tk_check (ticks k) = Inr (ss_result (steps k)) \<and> tk_sleep (ticks k) = Inr ())"

lemma run_loop_supervises:
  assumes "checks steps ticks"
  shows "supervise safe_load errors s (map steps [k..<n]) rt = Some (r, rt') \<Longrightarrow> k \<le> n \<Longrightarrow> n - k < fuel \<Longrightarrow>
    \<exists>m pauses. run_loop fuel interval (handler_callback safe_load errors s steps) (Some (int n)) ticks k deadline
        \<lparr>mon_user = (k, rt), mon_sleeps = sleeps\<rparr>
      = Some (r, \<lparr>mon_user = (m, rt'), mon_sleeps = pauses\<rparr>)"
proof (induction fuel arbitrary: k rt deadline sleeps)
  case (Suc fuel)
  show ?case
  proof (cases "k < n")
    case False
    with Suc.prems show ?thesis by simp
  next
    case True
    let ?h = "handle_health_result safe_load errors s (ss_io (steps k)) (ss_result (steps k)) (set_disk (ss_disk (steps k)) rt)"
    have steps: "map steps [k..<n] = steps k # map steps [Suc k..<n]" using True by (simp add: upt_conv_Cons)
    obtain q rt1 where h: "?h = Some (q, rt1)"
      using Suc.prems(1) by (cases ?h) (auto simp: steps)
    then have c: "handler_callback safe_load errors s steps (ss_result (steps k)) (k, rt) = (q, Suc k, rt1)"
      by (simp add: handler_callback_def)
    show ?thesis
    proof (cases q)
      case (Inl e)
      with Suc.prems(1) h have "r = Inl e" "rt' = rt1" by (auto simp: steps)
      with Inl c True show ?thesis using assms by (simp add: checks_def)
    next
      case (Inr u)
      with Suc.prems(1) h have rest: "supervise safe_load errors s (map steps [Suc k..<n]) rt1 = Some (r, rt')"
        by (simp add: steps)
      show ?thesis
      proof (cases "Suc k = n")
        case True
        with rest have "r = Inr ()" "rt' = rt1" by auto
        with True Inr c \<open>k < n\<close> show ?thesis using assms by (simp add: checks_def)
      next
        case False
        with True Suc.IH [OF rest] Inr c Suc.prems(3) show ?thesis using assms by (simp add: checks_def Let_def)
      qed
    qed
  qed
qed simp

text \<open>
  Monitoring is supervision: the loop of the health monitor, run for \<open>n\<close> checks with the controller's
  handler as its callback, does to the controller exactly what the handler does on the \<open>n\<close> results in order, and
  ends as that ends (it returns after the last one, or raises at once what the handler raises), whatever the interval,
  the clock and the pauses.
\<close>

theorem monitoring_is_supervision:
  assumes "checks steps ticks" and "supervise safe_load errors s (map steps [0..<n]) rt = Some (r, rt')"
  shows "\<exists>end_state. run_monitor (Suc n) interval (handler_callback safe_load errors s steps) (Some (int n)) start ticks (0, rt)
      = Some (r, end_state) \<and> snd (mon_user end_state) = rt'"
  using run_loop_supervises [OF assms(1,2), of "Suc n" interval start "[]"] by (auto simp: run_monitor_def)

theorem monitoring_is_supervision_witness:
  "\<exists>end_state. run_monitor 2 10 (handler_callback demo_load demo_errors demo_rt_settings
        (\<lambda>k. \<lparr>ss_disk = demo_disk, ss_io = demo_hio 0, ss_result = demo_result False\<rparr>)) (Some 1) 0
        (\<lambda>k. \<lparr>tk_check = Inr (demo_result False), tk_now = 1, tk_sleep = Inr ()\<rparr>) (0, demo_runtime demo_disk)
      = Some (Inr (), end_state)"
proof -
  let ?steps = "\<lambda>k :: nat. \<lparr>ss_disk = demo_disk, ss_io = demo_hio 0, ss_result = demo_result False\<rparr>"
  let ?ticks = "\<lambda>k :: nat. \<lparr>tk_check = Inr (demo_result False), tk_now = 1, tk_sleep = Inr ()\<rparr> :: tick"
  have "set_disk demo_disk (demo_runtime demo_disk) = demo_runtime demo_disk" by (simp add: demo_runtime_def set_disk_def demo_state_def)
  then obtain rt' where "supervise demo_load demo_errors demo_rt_settings (map ?steps [0..<1]) (demo_runtime demo_disk) = Some (Inr (), rt')"
    using demo_failure_run by auto
  moreover have "checks ?steps ?ticks" by (simp add: checks_def)
  ultimately show ?thesis using monitoring_is_supervision [of ?steps ?ticks _ _ _ 1 _ _ _ 10 0] by (fastforce simp: numeral_2_eq_2)
qed

end
