(* ===== verification/Process.thy ===== *)
theory Process
  imports Lifespan Monitoring
begin

text \<open>
  The controller's process from its environment to its end: \<^verbatim>\<open>lifespan\<close> of \<^verbatim>\<open>app/main.py\<close> starts the runtime and the
  task \<^verbatim>\<open>monitor.run(handle_health_result)\<close>, which checks the gateway without a bound on the iterations, until the
  server stops and the task is cancelled. What the parts promise of supervision holds of the whole process.
\<close>

section \<open>The health monitor's object\<close>

text \<open>The configured fields; the requester, the clocks and the sleeper are inputs of the checks.\<close>

record health_monitor =
  hm_url :: string
  hm_interval :: real
  hm_timeout :: real

text \<open>What the HTTP client answers to a GET of a URL with a timeout.\<close>

type_synonym requester = "string \<Rightarrow> real \<Rightarrow> response result"

definition new_monitor :: "string \<Rightarrow> real \<Rightarrow> health_monitor" where
  "new_monitor url interval = \<lparr>hm_url = url, hm_interval = interval, hm_timeout = 5\<rparr>"

text \<open>The monitor of the runtime; no value for an interval that is not finite.\<close>

definition wire_monitor :: "controller_settings \<Rightarrow> health_monitor option" where
  "wire_monitor c =
     (case cs_health_interval c of Fin interval \<Rightarrow> Some (new_monitor (cs_health_url c) interval) | _ \<Rightarrow> None)"

definition monitor_check :: "health_monitor \<Rightarrow> requester \<Rightarrow> real \<Rightarrow> real \<Rightarrow> datetime \<Rightarrow> health_result result" where
  "monitor_check m request started finished checked_at =
     (case check_once started finished checked_at (request (hm_url m) (hm_timeout m)) of
        Inl e \<Rightarrow> Inl e
      | Inr (r, event) \<Rightarrow> Inr r)"

section \<open>The process\<close>

text \<open>
  The inputs of one iteration: the disk as others have left it, the inputs of the handler, the clock readings of the check,
  what the HTTP client answers, and the clock after the handler.
\<close>

record process_step =
  ps_disk :: disk
  ps_io :: handle_io
  ps_started :: real
  ps_finished :: real
  ps_checked_at :: datetime
  ps_request :: requester
  ps_now :: real

definition step_check :: "health_monitor \<Rightarrow> process_step \<Rightarrow> health_result result" where
  "step_check m x = monitor_check m (ps_request x) (ps_started x) (ps_finished x) (ps_checked_at x)"

text \<open>The server stops after the iterations of \<open>xs\<close>: the next check is cancelled where it waits for its answer.\<close>

definition cancelled :: exn where
  "cancelled = OtherError ''CancelledError''"

definition process_tick :: "health_monitor \<Rightarrow> process_step list \<Rightarrow> nat \<Rightarrow> tick" where
  "process_tick m xs k =
     (if k < length xs then \<lparr>tk_check = step_check m (xs ! k), tk_now = ps_now (xs ! k), tk_sleep = Inr ()\<rparr>
      else \<lparr>tk_check = Inl cancelled, tk_now = 0, tk_sleep = Inr ()\<rparr>)"

definition supervision_of :: "process_step \<Rightarrow> health_result \<Rightarrow> supervision_step" where
  "supervision_of x r = \<lparr>ss_disk = ps_disk x, ss_io = ps_io x, ss_result = r\<rparr>"

text \<open>The inputs of the handler in the \<open>k\<close>-th iteration; the callback is called with the result of the check.\<close>

definition process_input :: "health_monitor \<Rightarrow> process_step list \<Rightarrow> nat \<Rightarrow> supervision_step" where
  "process_input m xs k = supervision_of (xs ! k) (case step_check m (xs ! k) of Inr r \<Rightarrow> r)"

text \<open>
  \<^verbatim>\<open>await monitor_task\<close> passes over the cancellation only. No value when the durations are not finite;
  with the runtime that is left, when it got one.
\<close>

definition end_process :: "exn + unit \<Rightarrow> runtime \<Rightarrow> (exn + unit) \<times> runtime option" where
  "end_process outcome rt =
     (case stop_controller (if outcome = Inl cancelled then None else Some outcome) rt of (q, rt') \<Rightarrow> (q, Some rt'))"

definition controller_process ::
    "yaml_loader \<Rightarrow> validator \<Rightarrow> env \<Rightarrow> unit result \<Rightarrow> disk \<Rightarrow> docker_world \<Rightarrow> incident_metrics \<Rightarrow> log_event list
       \<Rightarrow> real \<Rightarrow> process_step list \<Rightarrow> ((exn + unit) \<times> runtime option) option" where
  "controller_process safe_load errors env docker d w ms lg start xs =
     (case start_controller env docker d w ms lg of
        None \<Rightarrow> None
      | Some (Inl e) \<Rightarrow> Some (Inl e, None)
      | Some (Inr (s, rt)) \<Rightarrow>
          (case controller_from_env env of
             Inl e \<Rightarrow> None
           | Inr c \<Rightarrow>
               (case wire_monitor c of
                  None \<Rightarrow> None
                | Some m \<Rightarrow>
                    (case run_monitor (Suc (length xs)) (hm_interval m)
                            (handler_callback safe_load errors s (process_input m xs)) None start (process_tick m xs) (0, rt) of
                       None \<Rightarrow> None
                     | Some (r, end_state) \<Rightarrow> Some (end_process r (snd (mon_user end_state)))))))"

section \<open>A process supervises\<close>

text \<open>The results the handler gets, up to the first check that raises, and what ends the checks.\<close>

fun checked_steps :: "health_monitor \<Rightarrow> process_step list \<Rightarrow> supervision_step list" where
  "checked_steps m [] = []"
| "checked_steps m (x # xs) =
     (case step_check m x of Inl e \<Rightarrow> [] | Inr r \<Rightarrow> supervision_of x r # checked_steps m xs)"

fun checks_end :: "health_monitor \<Rightarrow> process_step list \<Rightarrow> exn" where
  "checks_end m [] = cancelled"
| "checks_end m (x # xs) = (case step_check m x of Inl e \<Rightarrow> e | Inr r \<Rightarrow> checks_end m xs)"

lemma process_loop:
  assumes "supervise safe_load errors s (checked_steps m (drop k xs)) rt = Some (r, rt')" and "k \<le> length xs"
    and "length xs - k < fuel"
  shows "\<exists>j pauses. run_loop fuel interval (handler_callback safe_load errors s (process_input m xs)) None (process_tick m xs)
        k deadline \<lparr>mon_user = (k, rt), mon_sleeps = sleeps\<rparr>
      = Some (case r of Inl e \<Rightarrow> Inl e | Inr u \<Rightarrow> Inl (checks_end m (drop k xs)), \<lparr>mon_user = (j, rt'), mon_sleeps = pauses\<rparr>)"
  using assms
proof (induction fuel arbitrary: k rt deadline sleeps)
  case (Suc fuel)
  show ?case
  proof (cases "k < length xs")
    case False
    with Suc.prems have "r = Inr ()" "rt' = rt" "k = length xs" by auto
    then show ?thesis by (simp add: process_tick_def)
  next
    case True
    then have drop: "drop k xs = xs ! k # drop (Suc k) xs" by (simp add: Cons_nth_drop_Suc)
    show ?thesis
    proof (cases "step_check m (xs ! k)")
      case (Inl e)
      with Suc.prems(1) have "r = Inr ()" "rt' = rt" by (auto simp: drop)
      with Inl True show ?thesis by (simp add: drop process_tick_def)
    next
      case c: (Inr result)
      let ?x = "supervision_of (xs ! k) result"
      let ?h = "handle_health_result safe_load errors s (ss_io ?x) (ss_result ?x) (set_disk (ss_disk ?x) rt)"
      have input: "process_input m xs k = ?x" by (simp add: process_input_def c)
      obtain q rt1 where h: "?h = Some (q, rt1)"
        using Suc.prems(1) c by (cases ?h) (auto simp: drop)
      then have callback: "handler_callback safe_load errors s (process_input m xs) result (k, rt) = (q, Suc k, rt1)"
        by (simp add: handler_callback_def input supervision_of_def)
      show ?thesis
      proof (cases q)
        case (Inl e)
        with Suc.prems(1) h c have "r = Inl e" "rt' = rt1" by (auto simp: drop)
        with Inl callback c True show ?thesis by (simp add: process_tick_def)
      next
        case (Inr u)
        with Suc.prems(1) h c have rest: "supervise safe_load errors s (checked_steps m (drop (Suc k) xs)) rt1 = Some (r, rt')"
          by (simp add: drop)
        have "Suc k \<le> length xs" "length xs - Suc k < fuel" using True Suc.prems(3) by auto
        note IH = Suc.IH [OF rest this]
        have tick: "process_tick m xs k = \<lparr>tk_check = Inr result, tk_now = ps_now (xs ! k), tk_sleep = Inr ()\<rparr>"
          using True c by (simp add: process_tick_def)
        have last: "checks_end m (drop k xs) = checks_end m (drop (Suc k) xs)" by (simp add: drop c)
        show ?thesis unfolding last using IH by (simp add: tick callback Inr Let_def)
      qed
    qed
  qed
qed simp

text \<open>How a process ends that handles the results of its checks.\<close>

definition process_end :: "health_monitor \<Rightarrow> process_step list \<Rightarrow> exn + unit \<Rightarrow> exn + unit" where
  "process_end m xs r = (case r of Inl e \<Rightarrow> Inl e | Inr u \<Rightarrow> Inl (checks_end m xs))"

lemma end_process_recovery: "\<exists>q rt_end. end_process r rt = (q, Some rt_end) \<and> rn_recovery rt_end = rn_recovery rt"
  by (cases r) (simp_all add: end_process_def stop_controller_def close_runtime_def)

lemma process_supervises:
  assumes "start_controller env docker d w ms lg = Some (Inr (s, rt))" and "controller_from_env env = Inr c"
    and "wire_monitor c = Some m" and "supervise safe_load errors s (checked_steps m xs) rt = Some (r, rt')"
  shows "controller_process safe_load errors env docker d w ms lg start xs = Some (end_process (process_end m xs r) rt')"
proof -
  note loop = process_loop [where k = 0, unfolded drop_0, OF assms(4)]
  have "0 \<le> length xs" "length xs - 0 < Suc (length xs)" by simp_all
  from loop [OF this, of "hm_interval m" start "[]"] obtain j pauses where
    "run_monitor (Suc (length xs)) (hm_interval m) (handler_callback safe_load errors s (process_input m xs)) None start
        (process_tick m xs) (0, rt) = Some (process_end m xs r, \<lparr>mon_user = (j, rt'), mon_sleeps = pauses\<rparr>)"
    unfolding run_monitor_def process_end_def by blast
  with assms(1-3) show ?thesis by (simp add: controller_process_def)
qed

lemma started:
  assumes "start_controller env docker d w ms lg = Some (Inr (s, rt))" and "controller_from_env env = Inr c"
  shows "wire c = Some s" and "new_runtime s (cs_failure_threshold c) env d w ms lg = Inr rt"
  using assms by (auto simp: start_controller_def bind_result_def split: sum.splits option.splits)

lemma wired:
  assumes "wire c = Some s"
  shows "rs_container (rt_recovery s) = cs_container c" and "rs_max_recoveries (rt_recovery s) = cs_max_recoveries c"
    and "cs_window c = Fin (rs_window (rt_recovery s))" and "cs_cooldown c = Fin (rs_cooldown (rt_recovery s))"
  using assms by (auto simp: wire_def split: pyfloat.splits)

lemma checked_times:
  "\<exists>rest. map (\<lambda>x. io_now (hi_attempt (ps_io x))) xs = map attempt_time (checked_steps m xs) @ rest"
  by (induction xs) (auto simp: attempt_time_def supervision_of_def split: sum.splits)

text \<open>
  C4. The whole process keeps the limits of its environment: whatever answers the HTTP client gives, whatever Docker, the disk and
  the operators do, from the start to the stop of the server, the restarts are all of the container the
  environment names and are covered by starting times of attempts, of which any \<^verbatim>\<open>MAX_RECOVERIES_PER_WINDOW\<close> + 1 in a row
  span at least \<^verbatim>\<open>RECOVERY_WINDOW_SECONDS\<close> and any two in a row are \<^verbatim>\<open>RECOVERY_COOLDOWN_SECONDS\<close> apart.
\<close>

theorem process_is_rate_limited:
  assumes "start_controller env docker d w ms lg = Some (Inr (s, rt))" and "controller_from_env env = Inr c"
    and "wire_monitor c = Some m" and "sorted (map (\<lambda>x. io_now (hi_attempt (ps_io x))) xs)"
    and "supervise safe_load errors s (checked_steps m xs) rt = Some (r, rt')"
  shows "\<exists>q rt_end ts n window cooldown.
      controller_process safe_load errors env docker d w ms lg start xs = Some (q, Some rt_end)
    \<and> cs_window c = Fin window \<and> cs_cooldown c = Fin cooldown
    \<and> set ts \<subseteq> (\<lambda>x. io_now (hi_attempt (ps_io x))) ` set xs
    \<and> spaced (nat (cs_max_recoveries c)) window ts \<and> spaced 1 cooldown ts \<and> n \<le> length ts
    \<and> dk_restarts (rv_docker (rn_recovery rt_end)) = dk_restarts w @ replicate n (cs_container c)"
proof -
  obtain rest where rest: "map (\<lambda>x. io_now (hi_attempt (ps_io x))) xs = map attempt_time (checked_steps m xs) @ rest"
    using checked_times by blast
  then have times: "sorted (map attempt_time (checked_steps m xs))" using assms(4) by (simp add: sorted_append)
  have "attempt_time ` set (checked_steps m xs) \<subseteq> set (map (\<lambda>x. io_now (hi_attempt (ps_io x))) xs)"
    unfolding rest by auto
  then have among: "attempt_time ` set (checked_steps m xs) \<subseteq> (\<lambda>x. io_now (hi_attempt (ps_io x))) ` set xs" by simp
  have w: "wire c = Some s" and new: "new_runtime s (cs_failure_threshold c) env d w ms lg = Inr rt"
    using started [OF assms(1,2)] .
  from supervision_is_rate_limited [OF new times assms(5)] obtain ts n where ts:
    "set ts \<subseteq> attempt_time ` set (checked_steps m xs)" "n \<le> length ts"
    "spaced (nat (cs_max_recoveries c)) (rs_window (rt_recovery s)) ts" "spaced 1 (rs_cooldown (rt_recovery s)) ts"
    "dk_restarts (rv_docker (rn_recovery rt')) = dk_restarts w @ replicate n (cs_container c)"
    unfolding wired(1,2) [OF w] by blast
  obtain q rt_end where q: "end_process (process_end m xs r) rt' = (q, Some rt_end)" "rn_recovery rt_end = rn_recovery rt'"
    using end_process_recovery by blast
  with process_supervises [OF assms(1-3,5)] have
    "controller_process safe_load errors env docker d w ms lg start xs = Some (q, Some rt_end)" by simp
  moreover have "set ts \<subseteq> (\<lambda>x. io_now (hi_attempt (ps_io x))) ` set xs" using ts(1) among by (rule order_trans)
  ultimately show ?thesis
    using q(2) ts(2-5) wired(3,4) [OF w] by (intro exI [of _ q] exI [of _ rt_end] exI [of _ ts] exI [of _ n]) auto
qed

text \<open>
  C26. How the process ends: the stop of the server returns, with every task of a notification cancelled, exactly when the
  monitoring was alive until then; otherwise the stop raises, at last, what ended the monitoring, be it an exception of a check
  or of the handler, and the tasks that are left are not cancelled.
\<close>

theorem process_stop:
  assumes "start_controller env docker d w ms lg = Some (Inr (s, rt))" and "controller_from_env env = Inr c"
    and "wire_monitor c = Some m" and "supervise safe_load errors s (checked_steps m xs) rt = Some (r, rt')"
  shows "\<exists>q rt_end. controller_process safe_load errors env docker d w ms lg start xs = Some (q, Some rt_end)
    \<and> (q = Inr () \<longleftrightarrow> r \<in> {Inr (), Inl cancelled} \<and> (r = Inr () \<longrightarrow> checks_end m xs = cancelled))
    \<and> (case q of Inr u \<Rightarrow> rn_tasks rt_end = []
       | Inl e \<Rightarrow> rt_end = rt' \<and> (r = Inl e \<or> r = Inr () \<and> e = checks_end m xs))"
proof (cases "process_end m xs r \<in> {Inl cancelled, Inr ()}")
  case True
  then have "end_process (process_end m xs r) rt' = (Inr (), Some (close_runtime rt'))"
    by (auto simp: end_process_def stop_controller_def)
  with process_supervises [OF assms] True show ?thesis
    by (cases r) (simp_all add: process_end_def close_runtime_def)
next
  case False
  then obtain e where e: "process_end m xs r = Inl e" "e \<noteq> cancelled" by (cases "process_end m xs r") auto
  then have "end_process (process_end m xs r) rt' = (Inl e, Some rt')"
    by (simp add: end_process_def stop_controller_def)
  with process_supervises [OF assms] e show ?thesis
    by (cases r) (simp_all add: process_end_def)
qed

text \<open>A process with nothing set in its environment, and one check that gets no answer or one whose URL the client refuses.\<close>

definition demo_process_step :: "exn \<Rightarrow> process_step" where
  "demo_process_step e = \<lparr>ps_disk = demo_disk, ps_io = demo_hio 0, ps_started = 0, ps_finished = 5, ps_checked_at = noon,
     ps_request = (\<lambda>url timeout. Inl e), ps_now = 5\<rparr>"

lemma demo_process:
  "\<exists>(c :: controller_settings) m rt. controller_from_env (\<lambda>n. None) = Inr c \<and> wire c = Some default_settings
     \<and> wire_monitor c = Some m
     \<and> start_controller (\<lambda>n. None) (Inr ()) demo_disk \<lparr>dk_restarts = [], dk_log = []\<rparr>
         \<lparr>incidents_total = 0, failures_gauge = 0\<rparr> [] = Some (Inr (default_settings, rt))
     \<and> rn_recovery rt = demo_state demo_disk
     \<and> rn_incidents rt = \<lparr>failure_threshold = 3, metrics = \<lparr>incidents_total = 0, failures_gauge = 0\<rparr>,
         consecutive_failures = 0, current_incident = None, incident_log = []\<rparr>"
proof -
  obtain c :: controller_settings where c: "controller_from_env (\<lambda>n. None) = Inr c" "wire c = Some default_settings"
    "cs_failure_threshold c = 3" "cs_health_interval c = Fin 10"
    using default_controller [of "\<lambda>n. None"] by blast
  then show ?thesis
    by (simp add: start_controller_def new_runtime_def new_manager_def new_recovery_def bind_result_def default_settings_def
        wire_monitor_def demo_state_def)
qed

lemma demo_check_fails:
  "step_check m (demo_process_step (RequestError n)) =
     Inr \<lparr>hr_ok = False, hr_reason = ''network_error'', hr_checked_at = noon, hr_status_code = None, hr_duration = 5\<rparr>"
  "step_check m (demo_process_step (OtherError n)) = Inl (OtherError n)"
  by (simp_all add: step_check_def monitor_check_def check_once_cases demo_process_step_def Let_def)

theorem process_is_rate_limited_witness:
  "\<exists>q rt_end ts n. controller_process demo_load demo_errors (\<lambda>n. None) (Inr ()) demo_disk \<lparr>dk_restarts = [], dk_log = []\<rparr>
       \<lparr>incidents_total = 0, failures_gauge = 0\<rparr> [] 0 [demo_process_step (RequestError ''ConnectError'')] = Some (q, Some rt_end)
     \<and> spaced 3 600 ts \<and> n \<le> length ts \<and> dk_restarts (rv_docker (rn_recovery rt_end)) = replicate n ''gateway-simulator''"
proof -
  let ?x = "demo_process_step (RequestError ''ConnectError'')"
  obtain c m rt where c: "controller_from_env (\<lambda>n. None) = Inr c" "wire c = Some default_settings" "wire_monitor c = Some m"
    and rt: "start_controller (\<lambda>n. None) (Inr ()) demo_disk \<lparr>dk_restarts = [], dk_log = []\<rparr>
         \<lparr>incidents_total = 0, failures_gauge = 0\<rparr> [] = Some (Inr (default_settings, rt))"
    and fresh: "rn_recovery rt = demo_state demo_disk"
      "rn_incidents rt = \<lparr>failure_threshold = 3, metrics = \<lparr>incidents_total = 0, failures_gauge = 0\<rparr>,
         consecutive_failures = 0, current_incident = None, incident_log = []\<rparr>"
    using demo_process by blast
  let ?r = "\<lparr>hr_ok = False, hr_reason = ''network_error'', hr_checked_at = noon, hr_status_code = None, hr_duration = 5\<rparr>"
  have "rs_config (rt_recovery default_settings) = demo_config" by (simp add: default_settings_def demo_config_def)
  then have "\<exists>rt'. handle_health_result demo_load demo_errors default_settings (demo_hio 0) ?r (set_disk demo_disk rt)
      = Some (Inr (), rt')"
    using fresh demo_read
    by (simp add: handle_cases checked_def demo_check handle_failure_def record_failure_def Let_def set_disk_def
        set_metrics_def rn_disk_def)
  then obtain rt' where run: "supervise demo_load demo_errors default_settings (checked_steps m [?x]) rt = Some (Inr (), rt')"
    by (auto simp: demo_check_fails supervision_of_def) (simp add: demo_process_step_def)
  have "sorted (map (\<lambda>x. io_now (hi_attempt (ps_io x))) [?x])" by simp
  moreover have "cs_max_recoveries c = 3" "cs_window c = Fin 600" "cs_container c = ''gateway-simulator''"
    using wired [OF c(2)] by (simp_all add: default_settings_def)
  ultimately show ?thesis using process_is_rate_limited [OF rt c(1,3) _ run, of 0] by simp blast
qed

theorem process_stop_witness:
  "\<exists>rt_end. controller_process demo_load demo_errors (\<lambda>n. None) (Inr ()) demo_disk \<lparr>dk_restarts = [], dk_log = []\<rparr>
       \<lparr>incidents_total = 0, failures_gauge = 0\<rparr> [] 0 [demo_process_step (OtherError ''InvalidURL'')]
     = Some (Inl (OtherError ''InvalidURL''), Some rt_end)"
proof -
  let ?xs = "[demo_process_step (OtherError ''InvalidURL'')]"
  obtain c m rt where c: "controller_from_env (\<lambda>n. None) = Inr c" "wire_monitor c = Some m"
    and rt: "start_controller (\<lambda>n. None) (Inr ()) demo_disk \<lparr>dk_restarts = [], dk_log = []\<rparr>
         \<lparr>incidents_total = 0, failures_gauge = 0\<rparr> [] = Some (Inr (default_settings, rt))"
    using demo_process by blast
  have run: "supervise demo_load demo_errors default_settings (checked_steps m ?xs) rt = Some (Inr (), rt)"
    and last: "checks_end m ?xs = OtherError ''InvalidURL''"
    by (simp_all add: demo_check_fails)
  from process_stop [OF rt c run, of 0] show ?thesis
    unfolding last by (elim exE, rename_tac q rt_end, case_tac q) (simp_all add: cancelled_def)
qed

end
