(* ===== verification/Contracts.thy ===== *)
theory Contracts
  imports Prelude "HOL-Library.Word"
begin

text \<open>
  The contracts the sentinel watches and acts on: \<^verbatim>\<open>Guardian.sol\<close> (who may pause and who may restore) and
  \<^verbatim>\<open>DemoVault.sol\<close> (the credits a pause protects), with the errors they revert with and the events they emit.
  A function of a contract is a HOL function from the sender, its arguments and the contract's storage to
  an error, which leaves the storage as it was, or the new storage with the event. Words have the width they have in Solidity,
  and checked arithmetic is checked. Gas and ether are not modelled: no function takes ether or calls untrusted code.
\<close>

type_synonym eth_address = "160 word"
type_synonym bytes32 = "256 word"
type_synonym uint256 = "256 word"
type_synonym uint8 = "8 word"

text \<open>The errors of both contracts, and the panic of checked arithmetic.\<close>

datatype revert =
    AlreadyPaused
  | DuplicateIncidentReference bytes32
  | InvalidAddress
  | InvalidReference
  | InvalidSeverity uint8
  | NotPaused
  | RolesMustDiffer
  | UnauthorizedKeeper eth_address
  | UnauthorizedOwner eth_address
  | GuardianPaused
  | InsufficientDemoCredit uint256 uint256
  | InvalidAmount
  | ArithmeticPanic

datatype contract_event =
    KeeperUpdated eth_address bool
  | Paused bytes32 uint8 eth_address
  | Unpaused bytes32 eth_address
  | DemoCreditIssued eth_address uint256
  | Withdrawal eth_address eth_address eth_address uint256 uint256

section \<open>Guardian\<close>

record guardian =
  g_owner :: eth_address
  g_paused :: bool
  g_keepers :: "eth_address \<Rightarrow> bool"
  g_used_refs :: "bytes32 \<Rightarrow> bool"

type_synonym 's outcome = "revert + ('s \<times> contract_event)"

definition new_guardian :: "eth_address \<Rightarrow> eth_address \<Rightarrow> guardian outcome" where
  "new_guardian initial_owner initial_keeper =
     (if initial_owner = 0 \<or> initial_keeper = 0 then Inl InvalidAddress
      else if initial_owner = initial_keeper then Inl RolesMustDiffer
      else Inr (\<lparr>g_owner = initial_owner, g_paused = False, g_keepers = (\<lambda>a. a = initial_keeper), g_used_refs = (\<lambda>r. False)\<rparr>,
                KeeperUpdated initial_keeper True))"

definition only_owner :: "eth_address \<Rightarrow> guardian \<Rightarrow> guardian outcome \<Rightarrow> guardian outcome" where
  "only_owner sender g body = (if sender \<noteq> g_owner g then Inl (UnauthorizedOwner sender) else body)"

definition only_keeper :: "eth_address \<Rightarrow> guardian \<Rightarrow> guardian outcome \<Rightarrow> guardian outcome" where
  "only_keeper sender g body = (if \<not> g_keepers g sender then Inl (UnauthorizedKeeper sender) else body)"

definition set_keeper :: "eth_address \<Rightarrow> eth_address \<Rightarrow> bool \<Rightarrow> guardian \<Rightarrow> guardian outcome" where
  "set_keeper sender keeper allowed g =
     only_owner sender g
       (if keeper = 0 then Inl InvalidAddress
        else if keeper = g_owner g \<and> allowed then Inl RolesMustDiffer
        else Inr (g\<lparr>g_keepers := (g_keepers g)(keeper := allowed)\<rparr>, KeeperUpdated keeper allowed))"

definition pause_guardian :: "eth_address \<Rightarrow> bytes32 \<Rightarrow> uint8 \<Rightarrow> guardian \<Rightarrow> guardian outcome" where
  "pause_guardian sender incident_ref severity g =
     only_keeper sender g
       (if incident_ref = 0 then Inl InvalidReference
        else if severity = 0 \<or> severity > 3 then Inl (InvalidSeverity severity)
        else if g_used_refs g incident_ref then Inl (DuplicateIncidentReference incident_ref)
        else if g_paused g then Inl AlreadyPaused
        else Inr (g\<lparr>g_used_refs := (g_used_refs g)(incident_ref := True), g_paused := True\<rparr>,
                  Paused incident_ref severity sender))"

definition unpause_guardian :: "eth_address \<Rightarrow> bytes32 \<Rightarrow> guardian \<Rightarrow> guardian outcome" where
  "unpause_guardian sender reason_hash g =
     only_owner sender g
       (if reason_hash = 0 then Inl InvalidReference
        else if \<not> g_paused g then Inl NotPaused
        else Inr (g\<lparr>g_paused := False\<rparr>, Unpaused reason_hash sender))"

section \<open>DemoVault\<close>

record vault =
  v_guardian :: eth_address
  v_credits :: "eth_address \<Rightarrow> uint256"

definition new_vault :: "eth_address \<Rightarrow> revert + vault" where
  "new_vault guardian_address =
     (if guardian_address = 0 then Inl InvalidAddress else Inr \<lparr>v_guardian = guardian_address, v_credits = (\<lambda>a. 0)\<rparr>)"

text \<open>\<open>paused\<close> is what the call of \<^verbatim>\<open>guardian.paused()\<close> returns.\<close>

definition when_not_paused :: "bool \<Rightarrow> vault outcome \<Rightarrow> vault outcome" where
  "when_not_paused paused body = (if paused then Inl GuardianPaused else body)"

definition checked_add :: "uint256 \<Rightarrow> uint256 \<Rightarrow> revert + uint256" where
  "checked_add a b = (if uint a + uint b < 2 ^ 256 then Inr (a + b) else Inl ArithmeticPanic)"

definition faucet_credit :: "eth_address \<Rightarrow> uint256 \<Rightarrow> vault \<Rightarrow> vault outcome" where
  "faucet_credit account amount v =
     (if account = 0 then Inl InvalidAddress
      else if amount = 0 then Inl InvalidAmount
      else case checked_add (v_credits v account) amount of
             Inl e \<Rightarrow> Inl e
           | Inr new_credit \<Rightarrow> Inr (v\<lparr>v_credits := (v_credits v)(account := new_credit)\<rparr>, DemoCreditIssued account amount))"

definition withdraw_from :: "eth_address \<Rightarrow> eth_address \<Rightarrow> eth_address \<Rightarrow> uint256 \<Rightarrow> vault \<Rightarrow> vault outcome" where
  "withdraw_from sender account recipient amount v =
     (if amount = 0 then Inl InvalidAmount
      else let available = v_credits v account
           in if amount > available then Inl (InsufficientDemoCredit available amount)
              else let remaining = available - amount
                   in Inr (v\<lparr>v_credits := (v_credits v)(account := remaining)\<rparr>,
                           Withdrawal account recipient sender amount remaining))"

definition withdraw :: "bool \<Rightarrow> eth_address \<Rightarrow> uint256 \<Rightarrow> vault \<Rightarrow> vault outcome" where
  "withdraw paused sender amount v = when_not_paused paused (withdraw_from sender sender sender amount v)"

definition unsafe_withdraw_from :: "bool \<Rightarrow> eth_address \<Rightarrow> eth_address \<Rightarrow> uint256 \<Rightarrow> vault \<Rightarrow> vault outcome" where
  "unsafe_withdraw_from paused sender account amount v =
     when_not_paused paused (withdraw_from sender account sender amount v)"

section \<open>The two contracts on a chain\<close>

text \<open>The vault's guardian is the \<^verbatim>\<open>Guardian\<close> deployed with it, as \<^verbatim>\<open>contracts/deploy.py\<close> deploys and checks it.\<close>

record contracts =
  c_guardian :: guardian
  c_vault :: vault
  c_events :: "contract_event list"

datatype contract_call =
    SetKeeper eth_address bool
  | Pause bytes32 uint8
  | Unpause bytes32
  | FaucetCredit eth_address uint256
  | Withdraw uint256
  | UnsafeWithdrawFrom eth_address uint256

definition on_guardian :: "guardian outcome \<Rightarrow> contracts \<Rightarrow> revert + contracts" where
  "on_guardian r c = (case r of Inl e \<Rightarrow> Inl e | Inr (g, ev) \<Rightarrow> Inr (c\<lparr>c_guardian := g, c_events := c_events c @ [ev]\<rparr>))"

definition on_vault :: "vault outcome \<Rightarrow> contracts \<Rightarrow> revert + contracts" where
  "on_vault r c = (case r of Inl e \<Rightarrow> Inl e | Inr (v, ev) \<Rightarrow> Inr (c\<lparr>c_vault := v, c_events := c_events c @ [ev]\<rparr>))"

fun call_contract :: "eth_address \<Rightarrow> contract_call \<Rightarrow> contracts \<Rightarrow> revert + contracts" where
  "call_contract sender (SetKeeper k allowed) c = on_guardian (set_keeper sender k allowed (c_guardian c)) c"
| "call_contract sender (Pause r sev) c = on_guardian (pause_guardian sender r sev (c_guardian c)) c"
| "call_contract sender (Unpause h) c = on_guardian (unpause_guardian sender h (c_guardian c)) c"
| "call_contract sender (FaucetCredit a n) c = on_vault (faucet_credit a n (c_vault c)) c"
| "call_contract sender (Withdraw n) c = on_vault (withdraw (g_paused (c_guardian c)) sender n (c_vault c)) c"
| "call_contract sender (UnsafeWithdrawFrom a n) c =
     on_vault (unsafe_withdraw_from (g_paused (c_guardian c)) sender a n (c_vault c)) c"

text \<open>Transactions in the order they are mined; one that reverts changes nothing.\<close>

definition mine :: "eth_address \<times> contract_call \<Rightarrow> contracts \<Rightarrow> contracts" where
  "mine tx c = (case call_contract (fst tx) (snd tx) c of Inl e \<Rightarrow> c | Inr c' \<Rightarrow> c')"

definition mine_all :: "(eth_address \<times> contract_call) list \<Rightarrow> contracts \<Rightarrow> contracts" where
  "mine_all txs c = fold mine txs c"

definition deployed_pair :: "eth_address \<Rightarrow> eth_address \<Rightarrow> eth_address \<Rightarrow> revert + contracts" where
  "deployed_pair own keeper guardian_address =
     (case new_guardian own keeper of
        Inl e \<Rightarrow> Inl e
      | Inr (g, ev) \<Rightarrow>
          (case new_vault guardian_address of
             Inl e \<Rightarrow> Inl e
           | Inr v \<Rightarrow> Inr \<lparr>c_guardian = g, c_vault = v, c_events = [ev]\<rparr>))"

lemmas guardian_defs = set_keeper_def pause_guardian_def unpause_guardian_def only_owner_def only_keeper_def

lemmas vault_defs = faucet_credit_def withdraw_def unsafe_withdraw_from_def when_not_paused_def withdraw_from_def checked_add_def

lemma mine_all_Nil [simp]: "mine_all [] c = c"
  by (simp add: mine_all_def)

lemma mine_all_snoc: "mine_all (txs @ [tx]) c = mine tx (mine_all txs c)"
  by (simp add: mine_all_def)

text \<open>
  What every observer of the contracts may rely on: a property that one transaction of anyone keeps holds however
  many are mined.
\<close>

locale mined_invariant =
  fixes inv :: "contracts \<Rightarrow> bool"
  assumes kept: "inv c \<Longrightarrow> inv (mine tx c)"
begin

lemma kept_by_all: "inv c \<Longrightarrow> inv (mine_all txs c)"
  by (induction txs rule: rev_induct) (simp_all add: mine_all_snoc kept)

end

section \<open>The events tell the state\<close>

text \<open>What an observer keeps who sees the events only.\<close>

record observer =
  l_paused :: bool
  l_keepers :: "eth_address \<Rightarrow> bool"
  l_used :: "bytes32 \<Rightarrow> bool"
  l_credits :: "eth_address \<Rightarrow> uint256"

fun apply_event :: "contract_event \<Rightarrow> observer \<Rightarrow> observer" where
  "apply_event (KeeperUpdated k allowed) l = l\<lparr>l_keepers := (l_keepers l)(k := allowed)\<rparr>"
| "apply_event (Paused r severity k) l = l\<lparr>l_paused := True, l_used := (l_used l)(r := True)\<rparr>"
| "apply_event (Unpaused h a) l = l\<lparr>l_paused := False\<rparr>"
| "apply_event (DemoCreditIssued a n) l = l\<lparr>l_credits := (l_credits l)(a := l_credits l a + n)\<rparr>"
| "apply_event (Withdrawal a recipient by n remaining) l = l\<lparr>l_credits := (l_credits l)(a := remaining)\<rparr>"

definition observer_of :: "contract_event list \<Rightarrow> observer" where
  "observer_of evs = fold apply_event evs
     \<lparr>l_paused = False, l_keepers = (\<lambda>a. False), l_used = (\<lambda>r. False), l_credits = (\<lambda>a. 0)\<rparr>"

text \<open>When an event may happen, by what was seen before it.\<close>

fun lawful :: "eth_address \<Rightarrow> observer \<Rightarrow> contract_event \<Rightarrow> bool" where
  "lawful own l (KeeperUpdated k allowed) \<longleftrightarrow> k \<noteq> 0 \<and> (k = own \<longrightarrow> \<not> allowed)"
| "lawful own l (Paused r severity k) \<longleftrightarrow>
     \<not> l_paused l \<and> l_keepers l k \<and> r \<noteq> 0 \<and> \<not> l_used l r \<and> 0 < severity \<and> severity \<le> 3"
| "lawful own l (Unpaused h a) \<longleftrightarrow> l_paused l \<and> a = own \<and> h \<noteq> 0"
| "lawful own l (DemoCreditIssued a n) \<longleftrightarrow> a \<noteq> 0 \<and> n \<noteq> 0 \<and> uint (l_credits l a) + uint n < 2 ^ 256"
| "lawful own l (Withdrawal a recipient by n remaining) \<longleftrightarrow>
     \<not> l_paused l \<and> recipient = by \<and> n \<noteq> 0 \<and> uint (l_credits l a) = uint n + uint remaining"

definition contracts_view :: "contracts \<Rightarrow> observer" where
  "contracts_view c = \<lparr>l_paused = g_paused (c_guardian c), l_keepers = g_keepers (c_guardian c),
     l_used = g_used_refs (c_guardian c), l_credits = v_credits (c_vault c)\<rparr>"

definition told :: "eth_address \<Rightarrow> contracts \<Rightarrow> bool" where
  "told own c \<longleftrightarrow> g_owner (c_guardian c) = own \<and> contracts_view c = observer_of (c_events c)
     \<and> (\<forall>before ev rest. c_events c = before @ ev # rest \<longrightarrow> lawful own (observer_of before) ev)"

lemma uint_checked: "uint (a :: uint256) + uint b < 2 ^ 256 \<Longrightarrow> uint (a + b) = uint a + uint b"
  by (simp add: uint_word_ariths)

lemma uint_withdrawn: "(n :: uint256) \<le> a \<Longrightarrow> uint a = uint n + uint (a - n)"
  by (simp add: uint_minus_simple_alt)

lemma call_tells:
  assumes "call_contract sender call c = Inr c'"
  shows "\<exists>ev. c_events c' = c_events c @ [ev] \<and> contracts_view c' = apply_event ev (contracts_view c)
    \<and> g_owner (c_guardian c') = g_owner (c_guardian c) \<and> lawful (g_owner (c_guardian c)) (contracts_view c) ev"
  using assms
  by (cases call)
    (auto simp: on_guardian_def on_vault_def guardian_defs vault_defs contracts_view_def word_gt_0 Let_def uint_withdrawn
      linorder_not_less split: if_splits sum.splits)

lemma observer_of_snoc: "observer_of (evs @ [ev]) = apply_event ev (observer_of evs)"
  by (simp add: observer_of_def)

lemma told_mine: "told own c \<Longrightarrow> told own (mine tx c)"
proof (cases "call_contract (fst tx) (snd tx) c")
  case (Inr c')
  assume told: "told own c"
  from call_tells [OF Inr] obtain ev where ev: "c_events c' = c_events c @ [ev]" "contracts_view c' = apply_event ev (contracts_view c)"
    "g_owner (c_guardian c') = g_owner (c_guardian c)" "lawful (g_owner (c_guardian c)) (contracts_view c) ev" by blast
  have "lawful own (observer_of before) e" if "c_events c @ [ev] = before @ e # rest" for before e rest
    using that told ev(4) by (cases rest rule: rev_cases) (auto simp: told_def)
  with told ev show ?thesis by (simp add: mine_def Inr told_def observer_of_snoc)
qed (simp add: mine_def)

interpretation audit_trail: mined_invariant "told own" for own
  by unfold_locales (rule told_mine)

lemma deployed_pair_Inr:
  "deployed_pair own keeper ga = Inr c \<longleftrightarrow> own \<noteq> 0 \<and> keeper \<noteq> 0 \<and> own \<noteq> keeper \<and> ga \<noteq> 0
     \<and> c = \<lparr>c_guardian = \<lparr>g_owner = own, g_paused = False, g_keepers = (\<lambda>a. a = keeper), g_used_refs = (\<lambda>r. False)\<rparr>,
         c_vault = \<lparr>v_guardian = ga, v_credits = (\<lambda>a. 0)\<rparr>, c_events = [KeeperUpdated keeper True]\<rparr>"
  by (auto simp: deployed_pair_def new_guardian_def new_vault_def)

lemma told_deployed: "deployed_pair own keeper ga = Inr c \<Longrightarrow> told own c"
  by (auto simp: deployed_pair_Inr told_def contracts_view_def observer_of_def Cons_eq_append_conv fun_upd_def)

text \<open>
  C10. The events are a complete and lawful audit trail: whatever transactions are mined after the deployment, the
  state of both contracts is what an observer of the events computes from them, and every event was lawful
  when it happened: a pause by a keeper of the moment with a new reference and a valid severity while not paused, a
  restoration by the owner with a reason while paused, a withdrawal while not paused and out of the credit there
  was, a credit without overflow.
\<close>

theorem events_tell_the_state:
  assumes "deployed_pair own keeper ga = Inr c0"
  shows "contracts_view (mine_all txs c0) = observer_of (c_events (mine_all txs c0))
    \<and> (\<forall>before ev rest. c_events (mine_all txs c0) = before @ ev # rest \<longrightarrow> lawful own (observer_of before) ev)"
  using audit_trail.kept_by_all [OF told_deployed [OF assms], of txs] unfolding told_def by blast

section \<open>What a pause protects\<close>

text \<open>Nothing but the owner's restoration ends a pause, and no withdrawal happens in one.\<close>

lemma checked_add_grows: "checked_add a b = Inr c \<Longrightarrow> uint a \<le> uint c"
  by (auto simp: checked_add_def uint_checked simp del: power_numeral split: if_splits)

lemma faucet_credit_grows: "faucet_credit account amount v = Inr (v', ev) \<Longrightarrow> uint (v_credits v a) \<le> uint (v_credits v' a)"
  by (auto simp: faucet_credit_def checked_add_grows split: if_splits sum.splits)

lemma paused_call:
  assumes "call_contract sender call c = Inr c'" and "g_paused (c_guardian c)" and "sender \<noteq> g_owner (c_guardian c)"
  shows "g_paused (c_guardian c') \<and> g_owner (c_guardian c') = g_owner (c_guardian c)
    \<and> uint (v_credits (c_vault c) a) \<le> uint (v_credits (c_vault c') a)"
  using assms
  by (cases call)
    (auto simp: on_guardian_def on_vault_def guardian_defs withdraw_def unsafe_withdraw_from_def when_not_paused_def
      dest: faucet_credit_grows [of _ _ _ _ _ a] split: if_splits sum.splits)

lemma paused_mine:
  "g_paused (c_guardian c) \<Longrightarrow> fst tx \<noteq> g_owner (c_guardian c) \<Longrightarrow>
   g_paused (c_guardian (mine tx c)) \<and> g_owner (c_guardian (mine tx c)) = g_owner (c_guardian c)
     \<and> uint (v_credits (c_vault c) a) \<le> uint (v_credits (c_vault (mine tx c)) a)"
  by (cases "call_contract (fst tx) (snd tx) c") (simp_all only: mine_def sum.case order_refl simp_thms paused_call)

lemma paused_withdrawals:
  "g_paused (c_guardian c) \<Longrightarrow> call_contract sender (Withdraw n) c = Inl GuardianPaused
     \<and> call_contract sender (UnsafeWithdrawFrom a n) c = Inl GuardianPaused"
  by (simp add: on_vault_def withdraw_def unsafe_withdraw_from_def when_not_paused_def)

text \<open>
  C11. A pause protects, and only the owner ends it: from a state in which the guardian is paused, whatever transactions
  are mined, by anyone but the owner (keepers included), the guardian stays paused, no account's credit has become
  less, and whoever calls for a withdrawal, the vulnerable one too, is refused because of the pause.
\<close>

theorem pause_protects:
  assumes "g_paused (c_guardian c)" and "\<forall>tx \<in> set txs. fst tx \<noteq> g_owner (c_guardian c)"
  shows "g_paused (c_guardian (mine_all txs c))
    \<and> (\<forall>a. uint (v_credits (c_vault c) a) \<le> uint (v_credits (c_vault (mine_all txs c)) a))
    \<and> call_contract sender (Withdraw n) (mine_all txs c) = Inl GuardianPaused
    \<and> call_contract sender (UnsafeWithdrawFrom a n) (mine_all txs c) = Inl GuardianPaused"
proof -
  have "g_paused (c_guardian (mine_all txs c)) \<and> g_owner (c_guardian (mine_all txs c)) = g_owner (c_guardian c)
    \<and> (\<forall>a. uint (v_credits (c_vault c) a) \<le> uint (v_credits (c_vault (mine_all txs c)) a))"
    using assms(2)
  proof (induction txs rule: rev_induct)
    case (snoc tx txs)
    then show ?case using paused_mine [of "mine_all txs c" tx] by (auto simp: mine_all_snoc intro: order_trans)
  qed (simp add: assms(1))
  then show ?thesis using paused_withdrawals by blast
qed

section \<open>Who may do what\<close>

definition roles_apart :: "eth_address \<Rightarrow> contracts \<Rightarrow> bool" where
  "roles_apart own c \<longleftrightarrow> own \<noteq> 0 \<and> g_owner (c_guardian c) = own \<and> \<not> g_keepers (c_guardian c) own
     \<and> \<not> g_keepers (c_guardian c) 0"

lemma roles_apart_mine: "roles_apart own c \<Longrightarrow> roles_apart own (mine tx c)"
  by (cases tx; cases "snd tx")
    (auto simp: mine_def roles_apart_def on_guardian_def on_vault_def guardian_defs split: sum.splits if_splits)

interpretation roles: mined_invariant "roles_apart own" for own
  by unfold_locales (rule roles_apart_mine)

lemma roles_apart_deployed: "deployed_pair own keeper ga = Inr c \<Longrightarrow> roles_apart own c"
  by (auto simp: deployed_pair_Inr roles_apart_def)

text \<open>
  C14. The two powers stay apart: after any transactions, the owner is the one of the deployment and no keeper, so that
  a pause is refused to the owner and a restoration to everyone else; a keeper of the moment can always pause, with a
  reference not used before and a valid severity, unless it is paused already; and the owner can always restore with a reason.
\<close>

theorem powers_are_separate:
  assumes "deployed_pair own keeper ga = Inr c0" and "c = mine_all txs c0"
  shows "call_contract own (Pause r severity) c = Inl (UnauthorizedKeeper own)
    \<and> (sender \<noteq> own \<longrightarrow> call_contract sender (Unpause h) c = Inl (UnauthorizedOwner sender))
    \<and> (g_keepers (c_guardian c) k \<and> r \<noteq> 0 \<and> 0 < severity \<and> severity \<le> 3 \<and> \<not> g_used_refs (c_guardian c) r
         \<and> \<not> g_paused (c_guardian c) \<longrightarrow> g_paused (c_guardian (mine (k, Pause r severity) c)))
    \<and> (g_paused (c_guardian c) \<and> h \<noteq> 0 \<longrightarrow> \<not> g_paused (c_guardian (mine (own, Unpause h) c)))"
proof -
  have "roles_apart own (mine_all txs c0)" by (rule roles.kept_by_all [OF roles_apart_deployed [OF assms(1)]])
  then show ?thesis
    unfolding assms(2) by (auto simp: roles_apart_def mine_def on_guardian_def guardian_defs word_gt_0)
qed

section \<open>Credits add up\<close>

fun issued :: "eth_address \<Rightarrow> contract_event \<Rightarrow> int" where
  "issued a (DemoCreditIssued b n) = (if b = a then uint n else 0)"
| "issued a ev = 0"

fun withdrawn :: "eth_address \<Rightarrow> contract_event \<Rightarrow> int" where
  "withdrawn a (Withdrawal b recipient by n remaining) = (if b = a then uint n else 0)"
| "withdrawn a ev = 0"

definition credit_recorded :: "eth_address \<Rightarrow> contracts \<Rightarrow> bool" where
  "credit_recorded a c \<longleftrightarrow> uint (v_credits (c_vault c) a) = (\<Sum>ev \<leftarrow> c_events c. issued a ev - withdrawn a ev)"

interpretation credits: mined_invariant "credit_recorded a" for a
proof unfold_locales
  fix c tx
  show "credit_recorded a c \<Longrightarrow> credit_recorded a (mine tx c)"
    by (cases tx; cases "snd tx")
      (auto simp: credit_recorded_def mine_def on_guardian_def on_vault_def guardian_defs vault_defs uint_checked Let_def
        linorder_not_less uint_minus_simple_alt split: sum.splits if_splits)
qed

text \<open>
  No credit is made or lost: after any transactions, the credit of every account is what was issued to it less what
  was withdrawn from it, by the events and without any wrap-around, although anyone may withdraw from any account.
\<close>

theorem credits_add_up:
  assumes "deployed_pair own keeper ga = Inr c0"
  shows "uint (v_credits (c_vault (mine_all txs c0)) a)
    = (\<Sum>ev \<leftarrow> c_events (mine_all txs c0). issued a ev - withdrawn a ev)"
proof -
  have "credit_recorded a c0" using assms by (auto simp: credit_recorded_def deployed_pair_Inr)
  from credits.kept_by_all [OF this] show ?thesis by (simp add: credit_recorded_def)
qed

section \<open>A pause on the chain\<close>

text \<open>A deployment with the owner 1 and the keeper 2, some credit, a theft, and the keeper's pause.\<close>

definition demo_contracts :: contracts where
  "demo_contracts = \<lparr>c_guardian = \<lparr>g_owner = 1, g_paused = False, g_keepers = (\<lambda>a. a = 2), g_used_refs = (\<lambda>r. False)\<rparr>,
     c_vault = \<lparr>v_guardian = 9, v_credits = (\<lambda>a. 0)\<rparr>, c_events = [KeeperUpdated 2 True]\<rparr>"

definition demo_txs :: "(eth_address \<times> contract_call) list" where
  "demo_txs = [(7, FaucetCredit 7 100), (8, UnsafeWithdrawFrom 7 40), (2, Pause 5 3)]"

lemma demo_pair: "deployed_pair 1 2 9 = Inr demo_contracts"
  by (simp add: deployed_pair_Inr demo_contracts_def)

lemma demo_mined:
  "c_events (mine_all demo_txs demo_contracts)
     = [KeeperUpdated 2 True, DemoCreditIssued 7 100, Withdrawal 7 8 8 40 60, Paused 5 3 2]"
  "g_paused (c_guardian (mine_all demo_txs demo_contracts))" "g_owner (c_guardian (mine_all demo_txs demo_contracts)) = 1"
  by (simp_all add: mine_all_def demo_txs_def demo_contracts_def mine_def on_guardian_def on_vault_def guardian_defs vault_defs Let_def)

theorem events_tell_the_state_witness:
  "l_paused (observer_of [KeeperUpdated 2 True, DemoCreditIssued 7 100, Withdrawal 7 8 8 40 60, Paused 5 3 2])
     = g_paused (c_guardian (mine_all demo_txs demo_contracts))"
  using events_tell_the_state [OF demo_pair, of demo_txs] unfolding demo_mined by (metis observer.select_convs(1) contracts_view_def)

theorem pause_protects_witness:
  "g_paused (c_guardian (mine_all [(2, Unpause 6), (8, UnsafeWithdrawFrom 7 1)] (mine_all demo_txs demo_contracts)))
   \<and> call_contract 8 (UnsafeWithdrawFrom 7 1)
       (mine_all [(2, Unpause 6), (8, UnsafeWithdrawFrom 7 1)] (mine_all demo_txs demo_contracts)) = Inl GuardianPaused"
proof -
  have "\<forall>tx \<in> set [(2, Unpause 6), (8, UnsafeWithdrawFrom 7 1)]. fst tx \<noteq> g_owner (c_guardian (mine_all demo_txs demo_contracts))"
    by (simp add: demo_mined(3))
  from pause_protects [OF demo_mined(2) this] show ?thesis by blast
qed

theorem powers_are_separate_witness:
  "call_contract 2 (Unpause 6) (mine_all demo_txs demo_contracts) = Inl (UnauthorizedOwner 2)
   \<and> \<not> g_paused (c_guardian (mine (1, Unpause 6) (mine_all demo_txs demo_contracts)))"
  using powers_are_separate [OF demo_pair refl, where txs = demo_txs and sender = 2 and h = 6] demo_mined(2)
  by (simp del: call_contract.simps)

theorem credits_add_up_witness: "uint (v_credits (c_vault (mine_all demo_txs demo_contracts)) 7) = 60"
  using credits_add_up [OF demo_pair, of demo_txs 7] by (simp add: demo_mined(1))

end
