(* ===== verification/DeployedContracts.thy ===== *)
theory DeployedContracts
  imports Deploy Contracts Json
begin

text \<open>
  The deployment script against the contracts it deploys: the reads of \<^verbatim>\<open>verify_deployment\<close> are those of the two
  contracts of \<open>Contracts\<close>, so what the script's answer says of them can be stated without the network between.
\<close>

text \<open>
  \<open>text\<close> is the checksummed text of an address. A web3 whose reads are the getters of the contracts at \<open>ga\<close> and \<open>va\<close>.
\<close>

definition reads_contracts :: "(eth_address \<Rightarrow> string) \<Rightarrow> eth_address \<Rightarrow> eth_address \<Rightarrow> contracts web3 \<Rightarrow> bool" where
  "reads_contracts text ga va w \<longleftrightarrow> inj text \<and> (\<forall>abi c.
     w3_owner w abi (text ga) c = (Inr (text (g_owner (c_guardian c))), c)
     \<and> (\<forall>k. w3_keeper w abi (text ga) (text k) c = (Inr (g_keepers (c_guardian c) k), c))
     \<and> w3_paused w abi (text ga) c = (Inr (g_paused (c_guardian c)), c)
     \<and> w3_guardian w abi (text va) c = (Inr (text (v_guardian (c_vault c))), c))"

definition artifacts_there :: "artifacts \<Rightarrow> bool" where
  "artifacts_there arts \<longleftrightarrow> (\<forall>name \<in> {''Guardian'', ''DemoVault''}. \<exists>a abi.
     load_artifact arts name = Inr a \<and> subscript a ''abi'' = Inr abi)"

interpretation immutables: mined_invariant "\<lambda>c. v_guardian (c_vault c) = ga \<and> g_owner (c_guardian c) = own" for ga own
proof unfold_locales
  fix c tx
  show "v_guardian (c_vault c) = ga \<and> g_owner (c_guardian c) = own
      \<Longrightarrow> v_guardian (c_vault (mine tx c)) = ga \<and> g_owner (c_guardian (mine tx c)) = own"
    by (cases tx; cases "snd tx")
      (auto simp: mine_def on_guardian_def on_vault_def guardian_defs vault_defs Let_def split: sum.splits if_splits)
qed

text \<open>
  C22. The verification tells the truth about the contracts: whatever was mined since the deployment, \<^verbatim>\<open>verify_deployment\<close>
  returns exactly when the owner asked about is the one of the deployment, the keeper asked about is allowed at that
  moment and the guardian is not paused; and right after the deployment it returns for the owner and keeper deployed.
\<close>

theorem verification_reads_the_contracts:
  assumes "reads_contracts text ga va w" and "artifacts_there arts" and "deployed_pair own keeper ga = Inr c0"
    and "ds_chain st = mine_all txs c0" and "dp_address guardian = text ga" and "dp_address vault = text va"
  shows "(fst (verify_deployment w arts guardian vault (text own') (text keeper') st) = Inr ()
       \<longleftrightarrow> own' = own \<and> g_keepers (c_guardian (mine_all txs c0)) keeper' \<and> \<not> g_paused (c_guardian (mine_all txs c0)))
    \<and> (txs = [] \<longrightarrow> fst (verify_deployment w arts guardian vault (text own) (text keeper) st) = Inr ())"
proof -
  let ?c = "mine_all txs c0"
  obtain gart vart gabi vabi where arts: "load_artifact arts ''Guardian'' = Inr gart" "load_artifact arts ''DemoVault'' = Inr vart"
    "subscript gart ''abi'' = Inr gabi" "subscript vart ''abi'' = Inr vabi"
    using assms(2) by (auto simp: artifacts_there_def)
  have c0: "g_owner (c_guardian c0) = own" "v_guardian (c_vault c0) = ga" "g_keepers (c_guardian c0) keeper" "\<not> g_paused (c_guardian c0)"
    using assms(3) by (auto simp: deployed_pair_Inr)
  have same: "text x = text y \<longleftrightarrow> x = y" for x y using assms(1) by (auto simp: reads_contracts_def inj_def)
  have reads: "on_chain (w3_owner w abi (text ga)) st = (Inr (text own), st)"
    "on_chain (w3_keeper w abi (text ga) (text k)) st = (Inr (g_keepers (c_guardian ?c) k), st)"
    "on_chain (w3_paused w abi (text ga)) st = (Inr (g_paused (c_guardian ?c)), st)"
    "on_chain (w3_guardian w abi (text va)) st = (Inr (text ga), st)" for abi k
    using assms(1,4) immutables.kept_by_all [of c0 ga own txs] c0 by (simp_all add: reads_contracts_def on_chain_def)
  have verify: "fst (verify_deployment w arts guardian vault (text o') (text k') st) = Inr ()
      \<longleftrightarrow> o' = own \<and> g_keepers (c_guardian ?c) k' \<and> \<not> g_paused (c_guardian ?c)" for o' k'
    using arts reads by (auto simp: verify_deployment_def bind_cmd_def of_result_def assms(5,6) same raise_def ret_def)
  then show ?thesis using c0 by simp
qed

text \<open>An address as the decimal text of its number, for an example.\<close>

definition demo_text :: "eth_address \<Rightarrow> string" where
  "demo_text a = show_nat (unat a)"

definition contracts_web3 :: "contracts web3" where
  "contracts_web3 = \<lparr>w3_is_address = (\<lambda>v. True), w3_to_checksum = (\<lambda>v. v), w3_account = (\<lambda>k. Inr ''4''),
     w3_chain_id = ret 84532, w3_nonce = (\<lambda>a. ret 7), w3_base_fee = ret (Some 100), w3_priority_fee = ret 3,
     w3_build = (\<lambda>tx. ret ()), w3_estimate_gas = (\<lambda>tx. ret 1001), w3_sign = (\<lambda>a tx. Inr (tx_bytecode tx)),
     w3_send = (\<lambda>raw. ret raw), w3_receipt = (\<lambda>h. ret \<lparr>rc_contract_address = Some ''9'', rc_status = 1, rc_block_number = 12\<rparr>),
     w3_owner = (\<lambda>abi a c. (Inr (demo_text (g_owner (c_guardian c))), c)),
     w3_keeper = (\<lambda>abi a k c. (Inr (g_keepers (c_guardian c) (word_of_int (num_value k))), c)),
     w3_paused = (\<lambda>abi a c. (Inr (g_paused (c_guardian c)), c)),
     w3_guardian = (\<lambda>abi a c. (Inr (demo_text (v_guardian (c_vault c))), c))\<rparr>"

lemma demo_text_inj: "inj demo_text"
  by (rule injI) (metis demo_text_def num_value_show_nat of_nat_eq_iff unsigned_word_eqI)

lemma contracts_web3_reads: "reads_contracts demo_text 9 10 contracts_web3"
  using demo_text_inj by (simp add: reads_contracts_def contracts_web3_def) (simp add: demo_text_def num_value_show_nat)

theorem verification_reads_the_contracts_witness:
  "fst (verify_deployment contracts_web3 demo_artifacts \<lparr>dp_name = ''Guardian'', dp_address = demo_text 9, dp_transaction_hash = [], dp_block_number = 12\<rparr>
     \<lparr>dp_name = ''DemoVault'', dp_address = demo_text 10, dp_transaction_hash = [], dp_block_number = 12\<rparr> (demo_text 1) (demo_text 2)
     \<lparr>ds_chain = demo_contracts, ds_disk = ds_disk demo_start, ds_sent = [], ds_out = []\<rparr>) = Inr ()"
proof -
  have "artifacts_there demo_artifacts"
    by (auto simp: artifacts_there_def load_artifact_def demo_artifacts_def subscript_def)
  from verification_reads_the_contracts [OF contracts_web3_reads this demo_pair, where txs = "[]"] show ?thesis by simp
qed

end
