(* ===== verification/Subgraph.thy ===== *)
theory Subgraph
  imports Contracts "HOL-Library.Multiset"
begin

text \<open>
  The subgraph's mapping (\<^verbatim>\<open>subgraph/src/demo-vault.ts\<close>): the entity it stores for a withdrawal of the vault. The
  byte operations of its runtime (\<^verbatim>\<open>concatI32\<close>, \<^verbatim>\<open>toI32\<close>) are a parameter that makes an id from a transaction hash and the
  index of a log; \<^verbatim>\<open>BigInt\<close> is unbounded.
\<close>

section \<open>Events and entities\<close>

type_synonym id_maker = "bytes32 \<Rightarrow> int \<Rightarrow> string"

text \<open>A withdrawal as the node hands it to the mapping: the parameters and the position in the chain.\<close>

record withdrawal_log =
  lg_block_number :: int
  lg_block_hash :: bytes32
  lg_timestamp :: int
  lg_transaction :: bytes32
  lg_index :: int
  lg_account :: eth_address
  lg_recipient :: eth_address
  lg_triggered_by :: eth_address
  lg_amount :: uint256
  lg_remaining :: uint256

record withdrawal_entity =
  en_id :: string
  en_sequence :: int
  en_block_number :: int
  en_block_hash :: bytes32
  en_transaction :: bytes32
  en_log_index :: int
  en_timestamp :: int
  en_who :: eth_address
  en_recipient :: eth_address
  en_triggered_by :: eth_address
  en_amount :: uint256
  en_remaining :: uint256

definition logs_per_block :: int where
  "logs_per_block = 1000000"

definition withdrawal_of :: "id_maker \<Rightarrow> withdrawal_log \<Rightarrow> withdrawal_entity" where
  "withdrawal_of id_of e =
     \<lparr>en_id = id_of (lg_transaction e) (lg_index e),
      en_sequence = lg_block_number e * logs_per_block + lg_index e,
      en_block_number = lg_block_number e, en_block_hash = lg_block_hash e, en_transaction = lg_transaction e,
      en_log_index = lg_index e, en_timestamp = lg_timestamp e, en_who = lg_account e, en_recipient = lg_recipient e,
      en_triggered_by = lg_triggered_by e, en_amount = lg_amount e, en_remaining = lg_remaining e\<rparr>"

text \<open>\<^verbatim>\<open>save\<close> stores the entity under its id.\<close>

definition handle_withdrawal :: "id_maker \<Rightarrow> withdrawal_log \<Rightarrow> (string \<rightharpoonup> withdrawal_entity) \<Rightarrow> (string \<rightharpoonup> withdrawal_entity)" where
  "handle_withdrawal id_of e store = (let entity = withdrawal_of id_of e in store(en_id entity \<mapsto> entity))"

definition index_all :: "id_maker \<Rightarrow> withdrawal_log list \<Rightarrow> (string \<rightharpoonup> withdrawal_entity)" where
  "index_all id_of es = fold (handle_withdrawal id_of) es Map.empty"

section \<open>The order of the sequence numbers\<close>

text \<open>The logs of a chain in order: later blocks, or later in the same block, below the number of logs a block may have.\<close>

definition before :: "withdrawal_log \<Rightarrow> withdrawal_log \<Rightarrow> bool" where
  "before e f \<longleftrightarrow> lg_block_number e < lg_block_number f \<or> lg_block_number e = lg_block_number f \<and> lg_index e < lg_index f"

definition index_ok :: "withdrawal_log \<Rightarrow> bool" where
  "index_ok e \<longleftrightarrow> 0 \<le> lg_index e \<and> lg_index e < logs_per_block"

definition ids_distinct :: "id_maker \<Rightarrow> withdrawal_log list \<Rightarrow> bool" where
  "ids_distinct id_of es \<longleftrightarrow> distinct (map (\<lambda>e. id_of (lg_transaction e) (lg_index e)) es)"

lemma sequence_less:
  "index_ok e \<Longrightarrow> index_ok f \<Longrightarrow> en_sequence (withdrawal_of id_of e) < en_sequence (withdrawal_of id_of f) \<longleftrightarrow> before e f"
  by (auto simp: index_ok_def logs_per_block_def withdrawal_of_def before_def)

lemma index_all_snoc: "index_all id_of (es @ [e]) = (index_all id_of es)(id_of (lg_transaction e) (lg_index e) \<mapsto> withdrawal_of id_of e)"
  by (simp add: index_all_def handle_withdrawal_def withdrawal_of_def)

lemma index_all_ran: "ids_distinct id_of es \<Longrightarrow> ran (index_all id_of es) = withdrawal_of id_of ` set es"
proof (induction es rule: rev_induct)
  case (snoc e es)
  have "dom (index_all id_of es) = (\<lambda>e. id_of (lg_transaction e) (lg_index e)) ` set es"
    by (induction es rule: rev_induct) (simp add: index_all_def, simp add: index_all_snoc del: fun_upd_apply)
  with snoc.prems have "index_all id_of es (id_of (lg_transaction e) (lg_index e)) = None"
    by (auto simp: ids_distinct_def simp flip: domIff)
  from ran_map_upd [where m = "index_all id_of es", OF this] snoc show ?case by (simp add: index_all_snoc ids_distinct_def del: fun_upd_apply)
qed (simp add: index_all_def)

lemma index_sorted:
  assumes "sorted_wrt before es" and "\<forall>e \<in> set es. index_ok e"
  shows "sorted_wrt (<) (map en_sequence (map (withdrawal_of id_of) es))"
  unfolding sorted_wrt_map map_map using assms by (auto intro: sorted_wrt_mono_rel [rotated] simp: sequence_less)

text \<open>Whoever reads the whole index reads the entities of the logs, in some order.\<close>

lemma index_entities:
  assumes "sorted_wrt before es" and "\<forall>e \<in> set es. index_ok e" and "ids_distinct id_of es"
    and "set entities = ran (index_all id_of es)" and "distinct entities"
  shows "mset entities = mset (map (withdrawal_of id_of) es)"
proof -
  have "distinct (map en_sequence (map (withdrawal_of id_of) es))"
    using index_sorted [OF assms(1,2), of id_of] by (simp add: strict_sorted_iff del: map_map)
  then have "distinct (map (withdrawal_of id_of) es)" using distinct_map by blast
  then show ?thesis
    using assms(4,5) index_all_ran [OF assms(3)] by (subst set_eq_iff_mset_eq_distinct [symmetric]) auto
qed

text \<open>
  The index is complete and ordered: when the logs come in the order of the chain with the ids of different logs
  different, the index holds exactly one entity for each log, with its parameters, and reading the entities in the order of
  their sequence numbers is reading the logs in the order of the chain.
\<close>

theorem index_is_ordered:
  assumes "sorted_wrt before es" and "\<forall>e \<in> set es. index_ok e" and "ids_distinct id_of es"
  shows "ran (index_all id_of es) = withdrawal_of id_of ` set es
    \<and> (\<forall>entities. set entities = ran (index_all id_of es) \<and> distinct entities \<longrightarrow>
          sort_key en_sequence entities = map (withdrawal_of id_of) es)"
proof (intro conjI allI impI)
  show "ran (index_all id_of es) = withdrawal_of id_of ` set es" by (rule index_all_ran [OF assms(3)])
  have sorted: "sorted (map en_sequence (map (withdrawal_of id_of) es))"
    and dist: "distinct (map en_sequence (map (withdrawal_of id_of) es))"
    using index_sorted [OF assms(1,2), of id_of] by (simp_all add: strict_sorted_iff del: map_map)
  fix entities
  assume "set entities = ran (index_all id_of es) \<and> distinct entities"
  then have m: "mset entities = mset (map (withdrawal_of id_of) es)" using index_entities [OF assms] by blast
  moreover have "inj_on en_sequence (set entities)"
    using dist unfolding mset_eq_setD [OF m] distinct_map by blast
  ultimately show "sort_key en_sequence entities = map (withdrawal_of id_of) es"
    using sorted by (intro sort_key_inj_key_eq) auto
qed

text \<open>Two withdrawals in one block and one in a later block.\<close>

definition demo_log :: "int \<Rightarrow> int \<Rightarrow> withdrawal_log" where
  "demo_log block index = \<lparr>lg_block_number = block, lg_block_hash = 1, lg_timestamp = 0, lg_transaction = word_of_int block, lg_index = index,
     lg_account = 7, lg_recipient = 8, lg_triggered_by = 8, lg_amount = 40, lg_remaining = 60\<rparr>"

definition demo_id :: id_maker where
  "demo_id h n = replicate (unat h) (CHR ''.'') @ (CHR ''/'' # replicate (nat n) (CHR ''.''))"

theorem index_is_ordered_witness:
  "ran (index_all demo_id [demo_log 5 2, demo_log 5 9, demo_log 6 0])
     = {withdrawal_of demo_id (demo_log 5 2), withdrawal_of demo_id (demo_log 5 9), withdrawal_of demo_id (demo_log 6 0)}"
proof -
  let ?es = "[demo_log 5 2, demo_log 5 9, demo_log 6 0]"
  have "sorted_wrt before ?es" "\<forall>e \<in> set ?es. index_ok e"
    by (simp_all add: before_def index_ok_def demo_log_def logs_per_block_def)
  moreover have "ids_distinct demo_id ?es"
    by (simp add: ids_distinct_def demo_log_def demo_id_def numeral_eq_Suc)
  ultimately have "ran (index_all demo_id ?es) = withdrawal_of demo_id ` set ?es" using index_is_ordered by blast
  then show ?thesis by simp
qed

section \<open>The index of the vault\<close>

text \<open>Where in the chain the node has seen an event.\<close>

record log_position =
  lp_block :: int
  lp_hash :: bytes32
  lp_timestamp :: int
  lp_transaction :: bytes32
  lp_index :: int

text \<open>The handler is registered for \<^verbatim>\<open>Withdrawal\<close> only.\<close>

fun log_of :: "log_position \<Rightarrow> contract_event \<Rightarrow> withdrawal_log list" where
  "log_of p (Withdrawal account recipient triggered_by amount remaining) =
     [\<lparr>lg_block_number = lp_block p, lg_block_hash = lp_hash p, lg_timestamp = lp_timestamp p,
       lg_transaction = lp_transaction p, lg_index = lp_index p, lg_account = account, lg_recipient = recipient,
       lg_triggered_by = triggered_by, lg_amount = amount, lg_remaining = remaining\<rparr>]"
| "log_of p ev = []"

definition withdrawal_logs :: "(nat \<Rightarrow> log_position) \<Rightarrow> contract_event list \<Rightarrow> withdrawal_log list" where
  "withdrawal_logs pos evs = concat (map (\<lambda>k. log_of (pos k) (evs ! k)) [0..<length evs])"

text \<open>The positions of the first \<open>n\<close> events are in the order of the chain, and the ids made of them are different.\<close>

definition placed :: "id_maker \<Rightarrow> (nat \<Rightarrow> log_position) \<Rightarrow> nat \<Rightarrow> bool" where
  "placed id_of pos n \<longleftrightarrow> (\<forall>j < n. 0 \<le> lp_index (pos j) \<and> lp_index (pos j) < logs_per_block
     \<and> (\<forall>i < j. (lp_block (pos i) < lp_block (pos j) \<or> lp_block (pos i) = lp_block (pos j) \<and> lp_index (pos i) < lp_index (pos j))
          \<and> id_of (lp_transaction (pos i)) (lp_index (pos i)) \<noteq> id_of (lp_transaction (pos j)) (lp_index (pos j))))"

lemma withdrawal_logs_Nil [simp]: "withdrawal_logs pos [] = []"
  by (simp add: withdrawal_logs_def)

lemma withdrawal_logs_snoc [simp]:
  "withdrawal_logs pos (evs @ [ev]) = withdrawal_logs pos evs @ log_of (pos (length evs)) ev"
proof -
  have "map (\<lambda>k. log_of (pos k) ((evs @ [ev]) ! k)) [0..<length evs] = map (\<lambda>k. log_of (pos k) (evs ! k)) [0..<length evs]"
    by (simp add: nth_append)
  then show ?thesis by (simp add: withdrawal_logs_def del: map_eq_conv)
qed

lemma log_of_position:
  "e \<in> set (log_of p ev) \<Longrightarrow> lg_block_number e = lp_block p \<and> lg_transaction e = lp_transaction p \<and> lg_index e = lp_index p"
  by (cases ev) auto

lemma withdrawal_logs_position:
  assumes "e \<in> set (withdrawal_logs pos evs)"
  obtains i where "i < length evs" "lg_block_number e = lp_block (pos i)" "lg_transaction e = lp_transaction (pos i)"
    "lg_index e = lp_index (pos i)"
  using assms by (auto simp: withdrawal_logs_def dest: log_of_position)

lemma placed_Suc: "placed id_of pos (Suc n) \<Longrightarrow> placed id_of pos n"
  by (simp add: placed_def)

lemma placed_new:
  assumes "placed id_of pos (Suc (length evs))" and "e \<in> set (withdrawal_logs pos evs)"
    and "f \<in> set (log_of (pos (length evs)) ev)"
  shows "before e f \<and> id_of (lg_transaction e) (lg_index e) \<noteq> id_of (lg_transaction f) (lg_index f)"
proof -
  obtain i where "i < length evs" "lg_block_number e = lp_block (pos i)" "lg_transaction e = lp_transaction (pos i)"
    "lg_index e = lp_index (pos i)" by (rule withdrawal_logs_position [OF assms(2)])
  with assms(1) log_of_position [OF assms(3)] show ?thesis by (simp add: placed_def before_def)
qed

lemma withdrawal_logs_ordered:
  "placed id_of pos (length evs) \<Longrightarrow> sorted_wrt before (withdrawal_logs pos evs)
     \<and> (\<forall>e \<in> set (withdrawal_logs pos evs). index_ok e) \<and> ids_distinct id_of (withdrawal_logs pos evs)"
proof (induction evs rule: rev_induct)
  case (snoc ev evs)
  then have p: "placed id_of pos (Suc (length evs))" by simp
  have one: "sorted_wrt before (log_of (pos (length evs)) ev)" "ids_distinct id_of (log_of (pos (length evs)) ev)"
    "\<forall>e \<in> set (log_of (pos (length evs)) ev). index_ok e"
    using p by (cases ev; simp add: ids_distinct_def index_ok_def placed_def)+
  from snoc.IH [OF placed_Suc [OF p]] one placed_new [OF p, of _ _ ev] show ?case
    by (fastforce simp: sorted_wrt_append ids_distinct_def)
qed (simp add: ids_distinct_def)

lemma withdrawn_by_logs:
  "(\<Sum>e \<leftarrow> withdrawal_logs pos evs. if lg_account e = a then uint (lg_amount e) else 0) = (\<Sum>ev \<leftarrow> evs. withdrawn a ev)"
proof (induction evs rule: rev_induct)
  case (snoc ev evs)
  then show ?case by (cases ev) auto
qed simp

lemma sum_by_mset: "mset xs = mset ys \<Longrightarrow> (\<Sum>x \<leftarrow> xs. f x) = (\<Sum>y \<leftarrow> ys. f y :: int)"
  by (metis mset_map sum_mset_sum_list)


text \<open>The theft of the demonstration, in the third log of block 5.\<close>

definition demo_pos :: "nat \<Rightarrow> log_position" where
  "demo_pos k = \<lparr>lp_block = 5, lp_hash = 1, lp_timestamp = 0, lp_transaction = 3, lp_index = int k\<rparr>"


end
