(* ===== verification/Spec2Isabelle.thy ===== *)
theory Spec2Isabelle
  imports StoreRecords SentinelConfig Incident DockerManager Gateway ClosedLoop Process DeployedContracts Subgraph
begin

text \<open>
  NexGuard: a model of its Python implementation and of the contracts it acts on, and the theorems that make them correct.

  The program has five parts. The controller (\<^verbatim>\<open>services/nexguard-controller/app\<close>) checks the health of a
  gateway, counts failures into incidents, keeps backups of the last good configuration and repairs outages by
  restoring one and restarting the gateway's container. The gateway simulator
  (\<^verbatim>\<open>services/gateway-simulator/app\<close>) is the gateway it watches. The sentinel (\<^verbatim>\<open>sentinel\<close>) keeps the
  durable state of an on-chain pauser, so that a crash never makes it act twice. The deployment script
  (\<^verbatim>\<open>contracts/deploy.py\<close>) deploys the two contracts it works with, of which one pauses the other
  (\<^verbatim>\<open>contracts/src\<close>) and whose withdrawals a subgraph indexes (\<^verbatim>\<open>subgraph/src\<close>).

  Theories and sources.

  \<^item> \<open>Prelude\<close> (errors as sums, commands that pass a state, joins) and \<open>PyText\<close> (\<^verbatim>\<open>strip\<close>, \<^verbatim>\<open>split\<close>,
    \<^verbatim>\<open>int()\<close>, JSON texts) are what the components share of Python; \<open>Unicode\<close> is UTF-8 decoding and line ends.
  \<^item> \<open>StoreDb\<close>, \<open>Store\<close>: \<^verbatim>\<open>sentinel/store.py\<close>. The SQLite file is a record of tables with the constraints of
    \<^verbatim>\<open>SCHEMA\<close>; a transaction is a command over it that can fail or be cut off at every statement. Each method of
    \<^verbatim>\<open>StateStore\<close> is a definition of its name. \<open>StoreSpec\<close> is the abstract ledger of claimed events and
    intents, \<open>StoreRun\<close> the step relation of calls, faults and crashes, \<open>StoreInv\<close> the invariant, by rule
    induction, \<open>StoreSafety\<close> what follows: an event is acted on at most once, the latch is final, calls are all
    or nothing, the store refines the ledger.
  \<^item> \<open>SentinelConfig\<close>: \<^verbatim>\<open>sentinel/config.py\<close>, with the URL parsing the source relies on.
  \<^item> \<open>Models\<close>, \<open>Incident\<close>, \<open>HealthMonitor\<close>, \<open>DockerManager\<close>, \<open>ConfigChecker\<close>, \<open>Notifier\<close>: the controller's modules
    of these names. An object is a record, a method a function from its state to a result and a state.
  \<^item> \<open>Gateway\<close>: the simulator, and that it and the controller agree on every configuration.
  \<^item> \<open>Disk\<close>: the file system under the backups, one definition for each call of the system. Every call can raise an
    \<^verbatim>\<open>OSError\<close> or be the last of the process; \<open>triple\<close> is the proof rule for all such plans of faults.
  \<^item> \<open>Sha256\<close>: the digest itself, on 32-bit words.
  \<^item> \<open>Backup\<close>: \<^verbatim>\<open>app/backup.py\<close>. \<open>BackupSafety\<close> has the triples of the operations, \<open>BackupGuarantees\<close> the
    stages a call can stop at, \<open>BackupProgress\<close> the calls without faults, \<open>BackupContract\<close> the locale of trusted
    backups, what a client may rely on, with its interpretation on the model.
  \<^item> \<open>Recovery\<close>: \<^verbatim>\<open>app/recovery.py\<close>. \<open>RecoverySafety\<close>: restoring; \<open>RecoveryRun\<close>: sequences of attempts
    and the invariant of the rate limit; \<open>RecoveryContract\<close>: recovery as a client of trusted backups;
    \<open>RecoveryTypes\<close>: well-formed managers and results.
  \<^item> \<open>ControllerSettings\<close>, \<open>Runtime\<close>: \<^verbatim>\<open>app/main.py\<close> and \<^verbatim>\<open>app/metrics.py\<close>. The runtime's record holds the
    records of its parts, and the handler is composed of their operations as in the source.
    \<open>RuntimeSafety\<close> has the properties of the whole: what each verdict may touch, what stops supervision, the rate
    limit of every run, and that an outage is repaired. \<open>Lifespan\<close>: the start from the environment and the end.
    \<open>Monitoring\<close>: the monitoring loop with the handler as its callback does what handling the results in order does.
    \<open>Process\<close>: start, monitoring and stop as one, from the environment and the answers of the HTTP client to the end of
    the process: the rate limit of its settings, and how it ends.
  \<^item> \<open>ClosedLoop\<close>: the controller and the gateway simulator on one disk. The gateway's answers are no inputs any more
    but what the simulator makes of the file the controller repairs: a valid configuration is left in peace, and a corrupted
    one is repaired after as many iterations as the threshold asks for.
  \<^item> \<open>Json\<close>: which texts stand for a JSON value, a reader of them, and the locale \<open>json_printer\<close> of printers whose
    texts are read back. \<open>JsonTexts\<close>: the printers of the sources as its interpretations, the log lines, the manifest and the
    evidence; \<open>StoreRecords\<close>: the texts in the rows of the store.
  \<^item> \<open>Deploy\<close>: \<^verbatim>\<open>contracts/deploy.py\<close>, over a chain of any type.
  \<^item> \<open>Contracts\<close>: \<^verbatim>\<open>Guardian.sol\<close> and \<^verbatim>\<open>DemoVault.sol\<close>, a function of a contract from the sender and the storage to a
    revert or the new storage with its event; mined transactions are a fold over them. \<open>DeployedContracts\<close>: the
    verification of \<open>Deploy\<close> over these contracts. \<open>Subgraph\<close>: \<^verbatim>\<open>demo-vault.ts\<close>, one entity for each withdrawal,
    and what the index of the contracts' events says of the credits.

  What is a parameter. The YAML loader, the validation engine of pydantic, the Docker client, the HTTP client, the
  web3 client with its chain, the clocks and the id factory are arguments: functions or records of what they answer. A
  hypothesis about one of them is stated in the theorem that needs it. What an exception or a wait does
  is a value: \<open>Inl\<close> of an exception, \<open>None\<close> for a loop that never returns.

  Bounds and fuel. The monitoring loop takes a number of ticks as fuel, and \<open>run_ends_at_exception\<close> says that any
  number is used up while nothing raises, as the source's loop never ends. The loops of waiting and of readiness are partial
  functions, and \<open>wait_for_running_ends\<close> and \<open>attempt_ends\<close> give them a value as soon as the clock passes the
  deadline. All other recursion is structural or has a measure.

  Abstractions. Durations and clock readings are reals, without rounding, infinities or NaN, so the settings that
  \<^verbatim>\<open>float()\<close> turns into those are read but not wired into a runtime. Time stamps are their UTC fields. A call of the system that
  dies leaves its effect or, for a write, a prefix of it; renames are atomic, as POSIX has them. The logs of the
  components are kept apart, in order, without the interleaving of their lines. The tasks that send notifications are
  kept until they run, and run as a whole. A process starts with the collectors of \<^verbatim>\<open>METRICS\<close> at their first values, and
  the stop of the server cancels the monitoring task where it waits for the answer of a check, not in the middle of a
  handled result.

  In the closed loop nobody else writes to the disk between two iterations. The readiness checks of one recovery all see the
  configuration the restart saw. JSON texts with floating-point numbers are printed, with the number's text as a
  parameter, but not read back. The contracts run one transaction at a time and without gas, and the vault's guardian is
  the one deployed with it. The ids of the subgraph's entities are made by a parameter.

  Not modelled. The ASGI server around the lifespan and the Prometheus endpoints (rendering by the library), argument
  parsing of the deployment script, the protocol classes of the controller (types without code), the getters that the
  Solidity compiler generates, the generated classes of the subgraph, and the shell scripts, dashboards and CI.
\<close>

end
